(* ===== verification/Prelude.thy ===== *)
theory Prelude
  imports Main "HOL-Library.Word"
begin

text \<open>
  Shared vocabulary of the development: Python text and exceptions, slices, the fallible
  computations of pure code, and the collections of rewrite rules the component theories use.

  \<^item> Python's \<open>str\<close> is a list of code points (\<open>pystr\<close>), so that lengths, slices and
    comparisons count what Python counts; \<open>lit\<close> writes an ASCII literal.
  \<^item> \<open>exn\<close> has the exceptions the sources raise or let through; a pure function that can
    raise returns \<open>exn + 'a\<close>.
\<close>

named_theorems run_simps \<open>equations that run the effectful programs of the model\<close>
named_theorems codec_simps \<open>lengths and round trips of the byte encodings\<close>
named_theorems keeps_intros \<open>compositional rules for state invariants\<close>
named_theorems total_intros \<open>compositional rules for programs that return\<close>

subsection \<open>Text\<close>

type_synonym pychar = int
type_synonym pystr = "pychar list"

definition lit :: "string \<Rightarrow> pystr" where
  "lit s = map of_char s"

lemma lit_Nil [simp]: "lit [] = []"
  by (simp add: lit_def)

lemma lit_Cons [simp]: "lit (c # s) = of_char c # lit s"
  by (simp add: lit_def)

lemma length_lit [simp]: "length (lit s) = length s"
  by (simp add: lit_def)

subsection \<open>Exceptions\<close>

text \<open>
  \<open>SystemExit\<close> is the one that Python does not derive from \<open>Exception\<close>, so that
  \<open>except Exception\<close> lets it through.
\<close>

datatype exn =
    StructError
  | ValueError
  | TypeError
  | KeyError
  | IndexError
  | AttributeError
  | StopIteration
  | ZeroDivisionError
  | RuntimeError pystr
  | SocketTimeout
  | OSError
  | SerialException
  | JSONDecodeError
  | SystemExit int

fun is_Exception :: "exn \<Rightarrow> bool" where
  "is_Exception (SystemExit _) = False"
| "is_Exception _ = True"

subsection \<open>Pure code that can raise\<close>

definition bindE :: "exn + 'a \<Rightarrow> ('a \<Rightarrow> exn + 'b) \<Rightarrow> exn + 'b" where
  "bindE m k = (case m of Inl e \<Rightarrow> Inl e | Inr x \<Rightarrow> k x)"

lemma bindE_simps [simp]:
  "bindE (Inl e) k = Inl e"
  "bindE (Inr x) k = k x"
  by (simp_all add: bindE_def)

lemma bindE_Inr_iff: "bindE m k = Inr y \<longleftrightarrow> (\<exists>x. m = Inr x \<and> k x = Inr y)"
  by (cases m) auto

subsection \<open>Slices\<close>

text \<open>\<open>xs[i:j]\<close> for indices that are not negative: short where the list is short.\<close>

definition slice :: "nat \<Rightarrow> nat \<Rightarrow> 'a list \<Rightarrow> 'a list" where
  "slice i j xs = take (j - i) (drop i xs)"

lemma slice_0 [simp]: "slice 0 j xs = take j xs"
  by (simp add: slice_def)

lemma length_slice: "length (slice i j xs) = min (j - i) (length xs - i)"
  by (simp add: slice_def min.commute)

lemma slice_append_left: "j \<le> length xs \<Longrightarrow> slice i j (xs @ ys) = slice i j xs"
  by (simp add: slice_def)

lemma slice_skip: "slice (length xs + i) (length xs + j) (xs @ ys) = slice i j ys"
  by (simp add: slice_def)

lemma slice_middle: "i = length xs \<Longrightarrow> j = i + length ys \<Longrightarrow> slice i j (xs @ ys @ zs) = ys"
  by (simp add: slice_def)

lemma take_length_append: "n = length xs \<Longrightarrow> take n (xs @ ys) = xs"
  by simp

lemma drop_length_append: "n = length xs \<Longrightarrow> drop n (xs @ ys) = ys"
  by simp

subsection \<open>Lists\<close>

lemma list_all2_partner: "list_all2 P xs ys \<Longrightarrow> x \<in> set xs \<Longrightarrow> \<exists>y \<in> set ys. P x y"
  by (induction rule: list_all2_induct) auto

lemma enumerate_empty_iff [simp]: "enumerate n xs = [] \<longleftrightarrow> xs = []"
  by (cases xs) auto

end
