(* ===== verification/Effects.thy ===== *)
theory Effects
  imports Prelude
begin

text \<open>
  Programs with effects: a program takes the state of its component (which holds the outside
  world where it reaches it) and gives an exception or a value with the state after it, or
  \<open>None\<close> where the code never comes back (an endless loop, or a thread that takes a lock it
  already holds). \<open>keeps P m\<close> says that \<open>m\<close> preserves the state predicate \<open>P\<close>, whether it
  returns or raises; \<open>comes_back P m\<close> says that \<open>m\<close> gives a result from every state with \<open>P\<close>.
\<close>

type_synonym ('s, 'a) prog = "'s \<Rightarrow> ((exn + 'a) \<times> 's) option"

definition ret :: "'a \<Rightarrow> ('s, 'a) prog" where
  "ret x = (\<lambda>s. Some (Inr x, s))"

definition raise :: "exn \<Rightarrow> ('s, 'a) prog" where
  "raise e = (\<lambda>s. Some (Inl e, s))"

definition lift_exn :: "exn + 'a \<Rightarrow> ('s, 'a) prog" where
  "lift_exn r = (\<lambda>s. Some (r, s))"

definition reads :: "('s \<Rightarrow> 'a) \<Rightarrow> ('s, 'a) prog" where
  "reads f = (\<lambda>s. Some (Inr (f s), s))"

definition modifies :: "('s \<Rightarrow> 's) \<Rightarrow> ('s, unit) prog" where
  "modifies f = (\<lambda>s. Some (Inr (), f s))"

definition bindP :: "('s, 'a) prog \<Rightarrow> ('a \<Rightarrow> ('s, 'b) prog) \<Rightarrow> ('s, 'b) prog" where
  "bindP m k = (\<lambda>s. case m s of
      None \<Rightarrow> None
    | Some (Inl e, s') \<Rightarrow> Some (Inl e, s')
    | Some (Inr x, s') \<Rightarrow> k x s')"

text \<open>\<open>try: m  except Exception as e: h e\<close>\<close>

definition tryP :: "('s, 'a) prog \<Rightarrow> (exn \<Rightarrow> ('s, 'a) prog) \<Rightarrow> ('s, 'a) prog" where
  "tryP m h = (\<lambda>s. case m s of
      None \<Rightarrow> None
    | Some (Inl e, s') \<Rightarrow> if is_Exception e then h e s' else Some (Inl e, s')
    | Some (Inr x, s') \<Rightarrow> Some (Inr x, s'))"

text \<open>\<open>try: m  finally: f\<close>: an exception of \<open>f\<close> replaces the outcome of \<open>m\<close>.\<close>

definition finallyP :: "('s, 'a) prog \<Rightarrow> ('s, unit) prog \<Rightarrow> ('s, 'a) prog" where
  "finallyP m f = (\<lambda>s. case m s of
      None \<Rightarrow> None
    | Some (r, s') \<Rightarrow> (case f s' of
        None \<Rightarrow> None
      | Some (Inl e, s'') \<Rightarrow> Some (Inl e, s'')
      | Some (Inr _, s'') \<Rightarrow> Some (r, s'')))"

subsection \<open>Running programs\<close>

lemma prog_run [run_simps]:
  "ret x s = Some (Inr x, s)"
  "raise e s = Some (Inl e, s)"
  "lift_exn r s = Some (r, s)"
  "reads f s = Some (Inr (f s), s)"
  "modifies g s = Some (Inr (), g s)"
  by (simp_all add: ret_def raise_def lift_exn_def reads_def modifies_def)

lemma bindP_run [run_simps]:
  "bindP m k s = (case m s of
      None \<Rightarrow> None
    | Some (Inl e, s') \<Rightarrow> Some (Inl e, s')
    | Some (Inr x, s') \<Rightarrow> k x s')"
  by (simp add: bindP_def)

lemma tryP_run [run_simps]:
  "tryP m h s = (case m s of
      None \<Rightarrow> None
    | Some (Inl e, s') \<Rightarrow> if is_Exception e then h e s' else Some (Inl e, s')
    | Some (Inr x, s') \<Rightarrow> Some (Inr x, s'))"
  by (simp add: tryP_def)

lemma finallyP_run [run_simps]:
  "finallyP m f s = (case m s of
      None \<Rightarrow> None
    | Some (r, s') \<Rightarrow> (case f s' of
        None \<Rightarrow> None
      | Some (Inl e, s'') \<Rightarrow> Some (Inl e, s'')
      | Some (Inr _, s'') \<Rightarrow> Some (r, s'')))"
  by (simp add: finallyP_def)

lemma bindP_assoc: "bindP (bindP m k) h = bindP m (\<lambda>x. bindP (k x) h)"
  by (auto simp: bindP_def fun_eq_iff split: option.splits sum.splits)

lemma bindP_ret [simp]: "bindP (ret x) k = k x"
  by (simp add: bindP_def ret_def)

lemma bindP_ret_right [simp]: "bindP m ret = m"
  by (auto simp: bindP_def ret_def fun_eq_iff split: option.splits sum.splits)

lemma tryP_ret [simp]: "tryP (ret x) h = ret x"
  by (simp add: tryP_def ret_def)

text \<open>What a finished run tells about its parts.\<close>

lemma bindP_SomeE:
  assumes "bindP m k s = Some (r, s')"
  obtains (raised) e where "m s = Some (Inl e, s')" and "r = Inl e"
    | (went_on) x t where "m s = Some (Inr x, t)" and "k x t = Some (r, s')"
  using assms by (auto simp: bindP_def split: option.splits sum.splits)

lemma tryP_SomeE:
  assumes "tryP m h s = Some (r, s')"
  obtains (fine) x where "m s = Some (Inr x, s')" and "r = Inr x"
    | (handled) e t where "m s = Some (Inl e, t)" and "is_Exception e" and "h e t = Some (r, s')"
    | (escaped) e where "m s = Some (Inl e, s')" and "\<not> is_Exception e" and "r = Inl e"
  using assms by (auto simp: tryP_def split: option.splits sum.splits if_splits)

lemma finallyP_SomeE:
  assumes "finallyP m f s = Some (r, s')"
  obtains (kept) t x where "m s = Some (r, t)" and "f t = Some (Inr x, s')"
    | (replaced) q t e where "m s = Some (q, t)" and "f t = Some (Inl e, s')" and "r = Inl e"
  using assms by (auto simp: finallyP_def split: option.splits sum.splits)

subsection \<open>Invariants of programs\<close>

definition keeps :: "('s \<Rightarrow> bool) \<Rightarrow> ('s, 'a) prog \<Rightarrow> bool" where
  "keeps P m \<longleftrightarrow> (\<forall>s r s'. P s \<longrightarrow> m s = Some (r, s') \<longrightarrow> P s')"

lemma keepsD: "keeps P m \<Longrightarrow> m s = Some (r, s') \<Longrightarrow> P s \<Longrightarrow> P s'"
  by (auto simp: keeps_def)

lemma keepsI: "(\<And>s r s'. P s \<Longrightarrow> m s = Some (r, s') \<Longrightarrow> P s') \<Longrightarrow> keeps P m"
  by (auto simp: keeps_def)

lemma keeps_True: "keeps (\<lambda>_. True) m"
  by (simp add: keeps_def)

lemma keeps_basic [keeps_intros]:
  "keeps P (ret x)" "keeps P (raise e)" "keeps P (lift_exn r)" "keeps P (reads f)"
  by (auto simp: keeps_def run_simps)

lemma keeps_modifies [keeps_intros]: "(\<And>s. P s \<Longrightarrow> P (f s)) \<Longrightarrow> keeps P (modifies f)"
  by (auto simp: keeps_def run_simps)

lemma keeps_bindP [keeps_intros]:
  assumes "keeps P m" and "\<And>x. keeps P (k x)"
  shows "keeps P (bindP m k)"
proof (rule keepsI)
  fix s r s'
  assume "P s" and "bindP m k s = Some (r, s')"
  then show "P s'"
    by (auto elim!: bindP_SomeE dest: keepsD [OF assms(1)] keepsD [OF assms(2)])
qed

lemma keeps_tryP [keeps_intros]:
  assumes "keeps P m" and "\<And>e. keeps P (h e)"
  shows "keeps P (tryP m h)"
proof (rule keepsI)
  fix s r s'
  assume "P s" and "tryP m h s = Some (r, s')"
  then show "P s'"
    by (auto elim!: tryP_SomeE dest: keepsD [OF assms(1)] keepsD [OF assms(2)])
qed

lemma keeps_finallyP [keeps_intros]:
  assumes "keeps P m" and "keeps P f"
  shows "keeps P (finallyP m f)"
proof (rule keepsI)
  fix s r s'
  assume "P s" and "finallyP m f s = Some (r, s')"
  then show "P s'"
    by (auto elim!: finallyP_SomeE dest: keepsD [OF assms(1)] keepsD [OF assms(2)])
qed

lemma keeps_if [keeps_intros]:
  "(b \<Longrightarrow> keeps P m) \<Longrightarrow> (\<not> b \<Longrightarrow> keeps P n) \<Longrightarrow> keeps P (if b then m else n)"
  by simp

lemma keeps_case_option [keeps_intros]:
  "(x = None \<Longrightarrow> keeps P m) \<Longrightarrow> (\<And>y. x = Some y \<Longrightarrow> keeps P (k y)) \<Longrightarrow>
    keeps P (case x of None \<Rightarrow> m | Some y \<Rightarrow> k y)"
  by (cases x) auto

lemma keeps_case_prod [keeps_intros]:
  "(\<And>a b. x = (a, b) \<Longrightarrow> keeps P (k a b)) \<Longrightarrow> keeps P (case x of (a, b) \<Rightarrow> k a b)"
  by (cases x) auto

subsection \<open>Programs that come back\<close>

definition comes_back :: "('s \<Rightarrow> bool) \<Rightarrow> ('s, 'a) prog \<Rightarrow> bool" where
  "comes_back P m \<longleftrightarrow> (\<forall>s. P s \<longrightarrow> m s \<noteq> None)"

lemma comes_backD: "comes_back P m \<Longrightarrow> P s \<Longrightarrow> \<exists>r s'. m s = Some (r, s')"
  by (auto simp: comes_back_def)

lemma comes_back_basic [total_intros]:
  "comes_back P (ret x)" "comes_back P (raise e)" "comes_back P (lift_exn r)"
  "comes_back P (reads f)" "comes_back P (modifies g)"
  by (auto simp: comes_back_def run_simps)

lemma comes_back_bindP [total_intros]:
  "comes_back P m \<Longrightarrow> keeps P m \<Longrightarrow> (\<And>x. comes_back P (k x)) \<Longrightarrow> comes_back P (bindP m k)"
  unfolding comes_back_def keeps_def run_simps
  by (fastforce split: option.splits sum.splits)

lemma comes_back_tryP [total_intros]:
  "comes_back P m \<Longrightarrow> keeps P m \<Longrightarrow> (\<And>e. comes_back P (h e)) \<Longrightarrow> comes_back P (tryP m h)"
  unfolding comes_back_def keeps_def run_simps
  by (fastforce split: option.splits sum.splits)

lemma comes_back_finallyP [total_intros]:
  "comes_back P m \<Longrightarrow> keeps P m \<Longrightarrow> comes_back P f \<Longrightarrow> comes_back P (finallyP m f)"
  unfolding comes_back_def keeps_def run_simps
  by (fastforce split: option.splits sum.splits)

lemma comes_back_if [total_intros]:
  "(b \<Longrightarrow> comes_back P m) \<Longrightarrow> (\<not> b \<Longrightarrow> comes_back P n) \<Longrightarrow> comes_back P (if b then m else n)"
  by simp

lemma comes_back_case_option [total_intros]:
  "(x = None \<Longrightarrow> comes_back P m) \<Longrightarrow> (\<And>y. x = Some y \<Longrightarrow> comes_back P (k y)) \<Longrightarrow>
    comes_back P (case x of None \<Rightarrow> m | Some y \<Rightarrow> k y)"
  by (cases x) auto

lemma comes_back_case_prod [total_intros]:
  "(\<And>a b. x = (a, b) \<Longrightarrow> comes_back P (k a b)) \<Longrightarrow> comes_back P (case x of (a, b) \<Rightarrow> k a b)"
  by (cases x) auto

subsection \<open>Results of programs\<close>

text \<open>Every value that \<open>m\<close> returns, from whatever state, has \<open>Q\<close>.\<close>

definition yields :: "('a \<Rightarrow> bool) \<Rightarrow> ('s, 'a) prog \<Rightarrow> bool" where
  "yields Q m \<longleftrightarrow> (\<forall>s x s'. m s = Some (Inr x, s') \<longrightarrow> Q x)"

lemma yieldsD: "yields Q m \<Longrightarrow> m s = Some (Inr x, s') \<Longrightarrow> Q x"
  by (auto simp: yields_def)

lemma yields_ret: "Q x \<Longrightarrow> yields Q (ret x)"
  by (simp add: yields_def run_simps)

lemma yields_bindP: "yields P m \<Longrightarrow> (\<And>x. P x \<Longrightarrow> yields Q (k x)) \<Longrightarrow> yields Q (bindP m k)"
  unfolding yields_def by (fastforce elim: bindP_SomeE)

lemma yields_then: "(\<And>x. yields Q (k x)) \<Longrightarrow> yields Q (bindP m k)"
  unfolding yields_def by (fastforce elim: bindP_SomeE)

lemma yields_finallyP: "yields Q m \<Longrightarrow> yields Q (finallyP m f)"
  unfolding yields_def by (fastforce elim: finallyP_SomeE)

lemma yields_case_option:
  "(x = None \<Longrightarrow> yields Q m) \<Longrightarrow> (\<And>y. x = Some y \<Longrightarrow> yields Q (k y)) \<Longrightarrow>
    yields Q (case x of None \<Rightarrow> m | Some y \<Rightarrow> k y)"
  by (cases x) auto

lemma yields_lift_exn: "(\<And>x. r = Inr x \<Longrightarrow> Q x) \<Longrightarrow> yields Q (lift_exn r)"
  by (simp add: yields_def run_simps)

text \<open>What a part yields may be used where an invariant is carried through what follows it.\<close>

lemma keeps_bindP_yields:
  assumes "keeps P m" and "yields Q m" and "\<And>x. Q x \<Longrightarrow> keeps P (k x)"
  shows "keeps P (bindP m k)"
proof (rule keepsI)
  fix s r s'
  assume "P s" and "bindP m k s = Some (r, s')"
  then show "P s'"
    by (auto elim!: bindP_SomeE dest: keepsD [OF assms(1)] yieldsD [OF assms(2)] keepsD [OF assms(3)])
qed

end
