(* ===== verification/Wire.thy ===== *)
theory Wire
  imports Prelude
begin

text \<open>
  Bytes on the wire (\<open>wrapper/\<close>): \<open>struct.pack(">I", n)\<close> and \<open>struct.unpack\<close>, \<open>bytes([n])\<close>,
  and the length-prefixed SSH strings that the bridge and the key tool build and take apart.
  The locale \<open>field_codec\<close> is the contract of an encoded field that is followed by more data;
  SSH strings and pairs of them provide it.
\<close>

unbundle bit_operations_syntax

type_synonym byte = "8 word"
type_synonym bytes = "byte list"

definition ascii :: "string \<Rightarrow> bytes" where
  "ascii s = map of_char s"

lemma ascii_Nil [simp]: "ascii [] = []"
  by (simp add: ascii_def)

lemma ascii_Cons [simp]: "ascii (c # s) = of_char c # ascii s"
  by (simp add: ascii_def)

subsection \<open>Packing integers\<close>

text \<open>\<open>bytes([n])\<close> raises \<open>ValueError\<close> unless \<open>0 <= n < 256\<close>.\<close>

definition byte_of :: "nat \<Rightarrow> exn + bytes" where
  "byte_of n = (if n < 256 then Inr [of_nat n] else Inl ValueError)"

text \<open>\<open>struct.pack(">I", n)\<close> raises \<open>struct.error\<close> for \<open>n >= 2**32\<close>.\<close>

definition pack_be32 :: "nat \<Rightarrow> exn + bytes" where
  "pack_be32 n =
     (if n < 2 ^ 32
      then Inr [of_nat (n div 2 ^ 24), of_nat (n div 2 ^ 16), of_nat (n div 2 ^ 8), of_nat n]
      else Inl StructError)"

text \<open>\<open>struct.unpack(">I", b)[0]\<close> raises \<open>struct.error\<close> unless \<open>b\<close> has four bytes.\<close>

fun unpack_be32 :: "bytes \<Rightarrow> exn + nat" where
  "unpack_be32 [a, b, c, d] =
     Inr (unat a * 2 ^ 24 + unat b * 2 ^ 16 + unat c * 2 ^ 8 + unat d)"
| "unpack_be32 _ = Inl StructError"

lemma unpack_be32_error: "length bs \<noteq> 4 \<Longrightarrow> unpack_be32 bs = Inl StructError"
  by (cases bs rule: unpack_be32.cases) auto

lemma unpack_be32_four: "length bs = 4 \<Longrightarrow> \<exists>n < 2 ^ 32. unpack_be32 bs = Inr n"
proof (cases bs rule: unpack_be32.cases)
  case (1 a b c d)
  have "unat a < 256" "unat b < 256" "unat c < 256" "unat d < 256"
    using unsigned_less [of a] unsigned_less [of b] unsigned_less [of c] unsigned_less [of d]
    by simp_all
  then show ?thesis using 1 by simp
qed auto

lemma pack_be32_Inr: "n < 2 ^ 32 \<Longrightarrow> \<exists>h. pack_be32 n = Inr h \<and> length h = 4"
  by (simp add: pack_be32_def)

lemma pack_be32_length [codec_simps]: "pack_be32 n = Inr h \<Longrightarrow> length h = 4"
  by (auto simp: pack_be32_def split: if_splits)

lemma unat_of_nat_byte: "unat (of_nat n :: byte) = n mod 256"
  by (simp add: unat_of_nat)

lemma and_255: "n AND 255 = n mod 256" for n :: nat
  using take_bit_eq_mask [of 8 n] take_bit_eq_mod [of 8 n] by (simp add: mask_eq_exp_minus_1)

lemma base256_digits:
  fixes n :: nat
  shows "n div 16777216 * 16777216 + n div 65536 mod 256 * 65536
      + n div 256 mod 256 * 256 + n mod 256 = n"
proof -
  have split: "m div 256 * 256 + m mod 256 = m" for m :: nat
    by simp
  have eqs: "n div 65536 = n div 256 div 256" "n div 16777216 = n div 256 div 256 div 256"
    by (simp_all add: div_mult2_eq [symmetric])
  show ?thesis
    unfolding eqs
    using split [of n] split [of "n div 256"] split [of "n div 256 div 256"] by linarith
qed

lemma unpack_pack_be32 [codec_simps]:
  assumes "pack_be32 n = Inr h"
  shows "unpack_be32 h = Inr n"
proof -
  from assms have n: "n < 2 ^ 32"
    and h: "h = [of_nat (n div 2 ^ 24), of_nat (n div 2 ^ 16), of_nat (n div 2 ^ 8), of_nat n]"
    by (auto simp: pack_be32_def split: if_splits)
  have "n div 16777216 mod 256 = n div 16777216"
    using n by simp
  then show ?thesis
    using base256_digits [of n] by (simp add: h unat_of_nat_byte)
qed

lemma pack_be32_leading_zero: "n < 2 ^ 24 \<Longrightarrow> pack_be32 n = Inr h \<Longrightarrow> hd h = 0"
  by (auto simp: pack_be32_def split: if_splits)

subsection \<open>SSH strings\<close>

definition ssh_string :: "bytes \<Rightarrow> exn + bytes" where
  "ssh_string data = bindE (pack_be32 (length data)) (\<lambda>h. Inr (h @ data))"

lemma ssh_string_Inr: "length data < 2 ^ 32 \<Longrightarrow> \<exists>h. ssh_string data = Inr (h @ data) \<and> length h = 4
    \<and> unpack_be32 h = Inr (length data)"
  using pack_be32_Inr [of "length data"] by (auto simp: ssh_string_def codec_simps)

lemma ssh_string_length [codec_simps]: "ssh_string data = Inr s \<Longrightarrow> length s = 4 + length data"
  by (auto simp: ssh_string_def bindE_Inr_iff codec_simps)

text \<open>
  The reading side as a parser: the length, then that many bytes, then the rest. \<open>None\<close> where
  the input is too short.
\<close>

definition take_string :: "bytes \<Rightarrow> (bytes \<times> bytes) option" where
  "take_string bs = (case unpack_be32 (take 4 bs) of
      Inl _ \<Rightarrow> None
    | Inr n \<Rightarrow> if length bs < 4 + n then None else Some (slice 4 (4 + n) bs, drop (4 + n) bs))"

subsection \<open>The contract of an encoded field\<close>

locale field_codec =
  fixes enc :: "'a \<Rightarrow> exn + bytes"
    and dec :: "bytes \<Rightarrow> ('a \<times> bytes) option"
    and ok :: "'a \<Rightarrow> bool"
  assumes enc_ok: "ok x \<Longrightarrow> \<exists>bs. enc x = Inr bs"
    and dec_enc: "enc x = Inr bs \<Longrightarrow> dec (bs @ rest) = Some (x, rest)"
begin

lemma enc_inj: "enc x = Inr bs \<Longrightarrow> enc y = Inr bs \<Longrightarrow> x = y"
  using dec_enc [of x bs "[]"] dec_enc [of y bs "[]"] by simp

lemma dec_exact: "enc x = Inr bs \<Longrightarrow> dec bs = Some (x, [])"
  using dec_enc [of x bs "[]"] by simp

text \<open>Encoded fields are self-delimiting: none is a proper prefix of another.\<close>

lemma prefix_free: "enc x = Inr bs \<Longrightarrow> enc y = Inr (bs @ ext) \<Longrightarrow> x = y \<and> ext = []"
  using dec_enc [of x bs ext] dec_enc [of y "bs @ ext" "[]"] by simp

end

text \<open>Two fields in a row are a field again.\<close>

definition enc_pair ::
  "('a \<Rightarrow> exn + bytes) \<Rightarrow> ('b \<Rightarrow> exn + bytes) \<Rightarrow> 'a \<times> 'b \<Rightarrow> exn + bytes" where
  "enc_pair f g = (\<lambda>(x, y). bindE (f x) (\<lambda>a. bindE (g y) (\<lambda>b. Inr (a @ b))))"

definition dec_pair :: "(bytes \<Rightarrow> ('a \<times> bytes) option) \<Rightarrow> (bytes \<Rightarrow> ('b \<times> bytes) option)
    \<Rightarrow> bytes \<Rightarrow> (('a \<times> 'b) \<times> bytes) option" where
  "dec_pair f g bs = (case f bs of
      None \<Rightarrow> None
    | Some (x, r) \<Rightarrow> (case g r of None \<Rightarrow> None | Some (y, r') \<Rightarrow> Some ((x, y), r')))"

locale two_fields =
  one: field_codec enc dec ok + two: field_codec enc' dec' ok'
  for enc :: "'a \<Rightarrow> exn + bytes" and dec ok
    and enc' :: "'b \<Rightarrow> exn + bytes" and dec' ok'

sublocale two_fields \<subseteq> both: field_codec "enc_pair enc enc'" "dec_pair dec dec'"
  "\<lambda>(x, y). ok x \<and> ok' y"
proof
  fix x :: "'a \<times> 'b"
  assume "case x of (x, y) \<Rightarrow> ok x \<and> ok' y"
  then show "\<exists>bs. enc_pair enc enc' x = Inr bs"
    using one.enc_ok two.enc_ok by (fastforce simp: enc_pair_def split: prod.splits)
next
  fix x :: "'a \<times> 'b" and bs rest
  assume "enc_pair enc enc' x = Inr bs"
  then show "dec_pair dec dec' (bs @ rest) = Some (x, rest)"
    by (cases x) (auto simp: enc_pair_def dec_pair_def bindE_Inr_iff one.dec_enc two.dec_enc)
qed

lemma take_string_ssh_string: "ssh_string data = Inr bs \<Longrightarrow> take_string (bs @ rest) = Some (data, rest)"
  by (auto simp: ssh_string_def bindE_Inr_iff take_string_def codec_simps slice_def)

interpretation ssh_field: field_codec ssh_string take_string "\<lambda>d. length d < 2 ^ 32"
  using take_string_ssh_string ssh_string_Inr by unfold_locales blast+

interpretation ssh_pair: two_fields ssh_string take_string "\<lambda>d. length d < 2 ^ 32"
  ssh_string take_string "\<lambda>d. length d < 2 ^ 32"
  by unfold_locales

end
