(* ===== verification/SerialLink.thy ===== *)
theory SerialLink
  imports Complex_Main Effects Wire
begin

text \<open>
  The serial line to the ESP32 as the wrapper scripts use it. pyserial and the clock are outside
  \<open>src/\<close>: the record \<open>serial_env\<close> holds their calls, as functions on a world of any type
  \<open>'w\<close>, and every definition that reaches the device takes it as an argument. Here are the
  loop that looks for a reply header (the same text in \<open>esp32_agent_bridge.py\<close> and in
  \<open>esp32_keytool.py\<close>), what pyserial's documentation promises of \<open>read\<close> and of the clock
  (\<open>buffered_port\<close>, \<open>live_port\<close>), a simulated port that keeps both promises, and the contract
  \<open>packet_reader\<close> that the two frame readers of the wrapper share.
\<close>

record 'w serial_env =
  time_time :: "'w \<Rightarrow> real \<times> 'w"
  time_sleep :: "real \<Rightarrow> 'w \<Rightarrow> 'w"
  ser_open :: "pystr \<Rightarrow> int \<Rightarrow> real \<Rightarrow> 'w \<Rightarrow> (exn + unit) \<times> 'w"
  ser_reset :: "'w \<Rightarrow> (exn + unit) \<times> 'w"
  ser_read :: "real \<Rightarrow> nat \<Rightarrow> 'w \<Rightarrow> (exn + bytes) \<times> 'w"
  ser_readline :: "real \<Rightarrow> 'w \<Rightarrow> (exn + bytes) \<times> 'w"
  ser_write :: "bytes \<Rightarrow> 'w \<Rightarrow> (exn + unit) \<times> 'w"
  ser_flush :: "'w \<Rightarrow> (exn + unit) \<times> 'w"
  ser_close :: "'w \<Rightarrow> (exn + unit) \<times> 'w"

definition the_time :: "'w serial_env \<Rightarrow> ('w, real) prog" where
  "the_time E = (\<lambda>w. case time_time E w of (t, w') \<Rightarrow> Some (Inr t, w'))"

definition world_call :: "('w \<Rightarrow> (exn + 'a) \<times> 'w) \<Rightarrow> ('w, 'a) prog" where
  "world_call f = (\<lambda>w. Some (f w))"

lemma world_run [run_simps]:
  "the_time E w = (case time_time E w of (t, w') \<Rightarrow> Some (Inr t, w'))"
  "world_call f w = Some (f w)"
  by (simp_all add: the_time_def world_call_def)

subsection \<open>Looking for the header\<close>

text \<open>
  \<open>while time.time() < deadline: b = ser.read(1) ...\<close>: bytes before the first \<open>0x00\<close> are debug
  text; from there four bytes make the header. The loop ends with a shorter header when the
  deadline passes.
\<close>

partial_function (option) scan_header ::
  "'w serial_env \<Rightarrow> real \<Rightarrow> real \<Rightarrow> bytes \<Rightarrow> 'w \<Rightarrow> ((exn + bytes) \<times> 'w) option" where
  "scan_header E deadline timeout header w =
     (case time_time E w of (t, w1) \<Rightarrow>
       if \<not> t < deadline then Some (Inr header, w1)
       else (case ser_read E timeout 1 w1 of
           (Inl e, w2) \<Rightarrow> Some (Inl e, w2)
         | (Inr b, w2) \<Rightarrow>
             if length b = 0 then scan_header E deadline timeout header w2
             else if length header = 0 then
               (if hd b = 0 then scan_header E deadline timeout b w2
                else scan_header E deadline timeout header w2)
             else if length (header @ b) = 4 then Some (Inr (header @ b), w2)
             else scan_header E deadline timeout (header @ b) w2))"

subsection \<open>What the port promises\<close>

text \<open>
  \<open>buffered_port E calm pend S T\<close>: in the worlds with \<open>calm\<close> (those in which the reply is being
  read) the clock shows times between \<open>S\<close> and \<open>T\<close>, \<open>pend w\<close> are the bytes waiting in the input
  buffer, and \<open>read(n)\<close> with at least \<open>n\<close> bytes waiting returns the first \<open>n\<close> of them.
\<close>

definition buffered_port ::
  "'w serial_env \<Rightarrow> ('w \<Rightarrow> bool) \<Rightarrow> ('w \<Rightarrow> bytes) \<Rightarrow> real \<Rightarrow> real \<Rightarrow> bool" where
  "buffered_port E calm pend S T \<longleftrightarrow>
     (\<forall>w. calm w \<longrightarrow>
       (\<exists>t w'. time_time E w = (t, w') \<and> S \<le> t \<and> t \<le> T \<and> calm w' \<and> pend w' = pend w)) \<and>
     (\<forall>w tmo n. calm w \<and> n \<le> length (pend w) \<longrightarrow>
       (\<exists>w'. ser_read E tmo n w = (Inr (take n (pend w)), w') \<and> calm w' \<and>
         pend w' = drop n (pend w)))"

lemma buffered_time:
  assumes "buffered_port E calm pend S T" and "calm w"
  obtains t w' where "time_time E w = (t, w')" "S \<le> t" "t \<le> T" "calm w'" "pend w' = pend w"
  using assms unfolding buffered_port_def by blast

lemma buffered_read:
  assumes "buffered_port E calm pend S T" and "calm w" and "n \<le> length (pend w)"
  obtains w' where "ser_read E tmo n w = (Inr (take n (pend w)), w')" "calm w'"
    "pend w' = drop n (pend w)"
  using assms unfolding buffered_port_def by blast

text \<open>
  \<open>answering_port E calm pend device\<close>: \<open>write\<close> and \<open>flush\<close> succeed, and the bytes
  \<open>device bs\<close> are the device's answer to the bytes \<open>bs\<close>.
\<close>

definition answering_port ::
  "'w serial_env \<Rightarrow> ('w \<Rightarrow> bool) \<Rightarrow> ('w \<Rightarrow> bytes) \<Rightarrow> (bytes \<Rightarrow> bytes) \<Rightarrow> bool" where
  "answering_port E calm pend device \<longleftrightarrow>
     (\<forall>w bs. calm w \<longrightarrow> (\<exists>w'. ser_write E bs w = (Inr (), w') \<and> calm w' \<and>
        pend w' = pend w @ device bs)) \<and>
     (\<forall>w. calm w \<longrightarrow> (\<exists>w'. ser_flush E w = (Inr (), w') \<and> calm w' \<and> pend w' = pend w))"

text \<open>
  \<open>live_port E clk coming\<close>: the clock \<open>clk\<close> never goes back; \<open>read(1)\<close> with a timeout either
  returns a byte, of which only finitely many (\<open>coming d w\<close>) arrive up to a time \<open>d\<close>, or waits
  for the whole timeout.
\<close>

definition live_port ::
  "'w serial_env \<Rightarrow> ('w \<Rightarrow> real) \<Rightarrow> (real \<Rightarrow> 'w \<Rightarrow> nat) \<Rightarrow> bool" where
  "live_port E clk coming \<longleftrightarrow>
     (\<forall>w t w'. time_time E w = (t, w') \<longrightarrow>
        t = clk w' \<and> clk w \<le> clk w' \<and> (\<forall>d. coming d w' \<le> coming d w)) \<and>
     (\<forall>w tmo b w'. ser_read E tmo 1 w = (Inr b, w') \<longrightarrow> clk w \<le> clk w' \<and>
        (if b = [] then clk w + tmo \<le> clk w' \<and> (\<forall>d. coming d w' \<le> coming d w)
         else (\<forall>d. coming d w' < coming d w \<or> d \<le> clk w')))"

lemma scan_header_expired:
  assumes "live_port E clk coming" and "deadline \<le> clk w"
  shows "scan_header E deadline timeout header w \<noteq> None"
proof -
  obtain t w1 where tt: "time_time E w = (t, w1)"
    by (cases "time_time E w")
  with assms have "\<not> t < deadline"
    by (fastforce simp: live_port_def)
  with tt show ?thesis
    by (subst scan_header.simps) simp
qed

text \<open>The search for the header comes back: by the deadline at the latest.\<close>

lemma scan_header_returns:
  assumes live: "live_port E clk coming" and "deadline \<le> clk w + timeout"
  shows "scan_header E deadline timeout header w \<noteq> None"
  using assms(2)
proof (induction "coming deadline w" arbitrary: w header rule: less_induct)
  case less
  obtain t w1 where tt: "time_time E w = (t, w1)"
    by (cases "time_time E w")
  with live have w1: "clk w \<le> clk w1" "coming deadline w1 \<le> coming deadline w"
    by (auto simp: live_port_def)
  obtain r w2 where rd: "ser_read E timeout 1 w1 = (r, w2)"
    by (cases "ser_read E timeout 1 w1")
  have go_on: "scan_header E deadline timeout h w2 \<noteq> None" if "r = Inr b" for b h
  proof (cases "deadline \<le> clk w2")
    case True
    then show ?thesis using live by (rule scan_header_expired [rotated])
  next
    case False
    have late: "clk w1 + timeout \<le> clk w2" if "b = []"
      using live rd \<open>r = Inr b\<close> that by (force simp: live_port_def)
    have "b \<noteq> []"
      using late False w1 less.prems by auto
    with live rd \<open>r = Inr b\<close> False have "coming deadline w2 < coming deadline w1" "clk w1 \<le> clk w2"
      by (force simp: live_port_def)+
    with w1 less.prems have "coming deadline w2 < coming deadline w" "deadline \<le> clk w2 + timeout"
      by auto
    then show ?thesis by (rule less.hyps)
  qed
  show ?case
    by (subst scan_header.simps, cases r)
      (use go_on in \<open>auto simp: tt rd simp del: One_nat_def not_None_eq\<close>)
qed

subsection \<open>The header in buffered input\<close>

lemma scan_header_step:
  assumes port: "buffered_port E calm pend S T" and "T < deadline"
    and "calm w" and "pend w = b # rest"
  shows "\<exists>w'. calm w' \<and> pend w' = rest \<and> scan_header E deadline timeout header w =
    (if header = [] then scan_header E deadline timeout (if b = 0 then [b] else []) w'
     else if length header = 3 then Some (Inr (header @ [b]), w')
     else scan_header E deadline timeout (header @ [b]) w')"
proof -
  obtain t w1 where tt: "time_time E w = (t, w1)" "t \<le> T" "calm w1" "pend w1 = b # rest"
    using buffered_time [OF port \<open>calm w\<close>] assms(4) by metis
  then obtain w2 where rd: "ser_read E timeout 1 w1 = (Inr [b], w2)" "calm w2" "pend w2 = rest"
    using buffered_read [OF port tt(3), of 1 timeout] by auto
  from tt \<open>T < deadline\<close> have "t < deadline" by simp
  then show ?thesis
    by (intro exI [of _ w2], subst scan_header.simps) (auto simp: tt rd simp del: One_nat_def)
qed

lemma scan_header_noise:
  assumes port: "buffered_port E calm pend S T" and "T < deadline"
    and "calm w" and "pend w = noise @ rest" and "0 \<notin> set noise"
  shows "\<exists>w'. calm w' \<and> pend w' = rest \<and>
    scan_header E deadline timeout [] w = scan_header E deadline timeout [] w'"
  using assms(3-5)
proof (induction noise arbitrary: w)
  case Nil
  then show ?case by auto
next
  case (Cons b noise)
  then show ?case
    using scan_header_step [OF port \<open>T < deadline\<close>, of w b "noise @ rest" timeout "[]"] by force
qed

lemma scan_header_zero:
  assumes port: "buffered_port E calm pend S T" and "T < deadline"
    and "calm w" and "pend w = [0, b, c, d] @ rest"
  shows "\<exists>w'. calm w' \<and> pend w' = rest \<and>
    scan_header E deadline timeout [] w = Some (Inr [0, b, c, d], w')"
proof -
  note step = scan_header_step [OF port \<open>T < deadline\<close>, where timeout = timeout]
  from step [of w 0 "[b, c, d] @ rest" "[]"] assms(3,4)
  obtain w1 where w1: "calm w1" "pend w1 = [b, c, d] @ rest"
    "scan_header E deadline timeout [] w = scan_header E deadline timeout [0] w1" by auto
  from step [of w1 b "[c, d] @ rest" "[0]"] w1
  obtain w2 where w2: "calm w2" "pend w2 = [c, d] @ rest"
    "scan_header E deadline timeout [] w = scan_header E deadline timeout [0, b] w2" by auto
  from step [of w2 c "[d] @ rest" "[0, b]"] w2
  obtain w3 where w3: "calm w3" "pend w3 = [d] @ rest"
    "scan_header E deadline timeout [] w = scan_header E deadline timeout [0, b, c] w3" by auto
  from step [of w3 d rest "[0, b, c]"] w3 show ?thesis by auto
qed

text \<open>Debug text and then a header: the text is skipped and the header is found.\<close>

lemma scan_header_finds:
  assumes "buffered_port E calm pend S T" and "T < deadline"
    and "calm w" and "pend w = noise @ [0, b, c, d] @ rest" and "0 \<notin> set noise"
  shows "\<exists>w'. calm w' \<and> pend w' = rest \<and>
    scan_header E deadline timeout [] w = Some (Inr [0, b, c, d], w')"
  using scan_header_noise [OF assms(1-5)] scan_header_zero [OF assms(1,2)] by metis

subsection \<open>Reading a frame\<close>

text \<open>
  \<open>read_packet\<close> of \<open>esp32_keytool.py\<close>: the header, a length between 1 and 4096, and that many
  bytes, the first of which is the message type; \<open>(None, None)\<close>, here \<open>None\<close>, otherwise. The
  port's timeout, which the script sets before each read, is the first argument of \<open>ser_read\<close>.
\<close>

definition read_packet :: "'w serial_env \<Rightarrow> real \<Rightarrow> ('w, (byte \<times> bytes) option) prog" where
  "read_packet E timeout =
     bindP (the_time E) (\<lambda>t0.
       let deadline = t0 + timeout in
       bindP (scan_header E deadline timeout []) (\<lambda>header.
         if length header < 4 then ret None
         else bindP (lift_exn (unpack_be32 header)) (\<lambda>len.
           if len < 1 \<or> len > 4096 then ret None
           else bindP (the_time E) (\<lambda>t1.
             let remaining = deadline - t1 in
             bindP (world_call (ser_read E (if remaining > 0 then remaining else timeout) len))
               (\<lambda>data. if length data < len then ret None
                       else ret (Some (hd data, tl data)))))))"

text \<open>A reply as the device frames it: the length of type and payload, the type, the payload.\<close>

definition frame :: "byte \<Rightarrow> bytes \<Rightarrow> exn + bytes" where
  "frame t payload = ssh_string (t # payload)"

lemma frame_shape:
  assumes "frame t payload = Inr fr" and "length payload < 4096"
  obtains b c d where "fr = [0, b, c, d] @ t # payload"
    and "unpack_be32 [0, b, c, d] = Inr (Suc (length payload))"
proof -
  from assms(1) obtain h where h: "pack_be32 (Suc (length payload)) = Inr h" "fr = h @ t # payload"
    by (auto simp: frame_def ssh_string_def bindE_Inr_iff)
  have "length h = 4" and "hd h = 0"
    using h(1) assms(2) pack_be32_leading_zero [of "Suc (length payload)" h]
    by (auto simp: codec_simps)
  then obtain b c d where "h = [0, b, c, d]"
    by (auto simp: length_Suc_conv numeral_eq_Suc)
  with h unpack_pack_be32 [OF h(1)] that show thesis by simp
qed

lemma read_packet_run:
  assumes port: "buffered_port E calm pend S T" and "T < S + timeout" and "calm w"
    and "pend w = noise @ [0, b, c, d] @ rest" and "0 \<notin> set noise"
    and len: "unpack_be32 [0, b, c, d] = Inr len"
  shows "\<exists>w'. calm w' \<and> (if len < 1 \<or> len > 4096
      then pend w' = rest \<and> read_packet E timeout w = Some (Inr None, w')
      else len \<le> length rest \<longrightarrow> pend w' = drop len rest \<and>
        read_packet E timeout w = Some (Inr (Some (hd rest, tl (take len rest))), w'))"
proof -
  obtain t0 w0 where t0: "time_time E w = (t0, w0)" "S \<le> t0" "calm w0" "pend w0 = pend w"
    using port \<open>calm w\<close> by (rule buffered_time)
  then have "T < t0 + timeout" using assms(2) by simp
  then obtain w1 where w1: "calm w1" "pend w1 = rest"
    "scan_header E (t0 + timeout) timeout [] w0 = Some (Inr [0, b, c, d], w1)"
    using scan_header_finds [OF port _ t0(3)] t0(4) assms(4,5) by metis
  obtain t1 w2 where t1: "time_time E w1 = (t1, w2)" "calm w2" "pend w2 = rest"
    using buffered_time [OF port w1(1)] w1(2) by metis
  show ?thesis
  proof (cases "len < 1 \<or> len > 4096")
    case True
    then show ?thesis
      using t0 w1 len
      by (intro exI [of _ w1]) (simp add: read_packet_def run_simps Let_def del: unpack_be32.simps)
  next
    case False
    show ?thesis
    proof (cases "len \<le> length rest")
      case True
      define tmo where
        "tmo = (if 0 < t0 + timeout - t1 then t0 + timeout - t1 else timeout)"
      obtain w3 where w3: "ser_read E tmo len w2 = (Inr (take len rest), w3)" "calm w3"
        "pend w3 = drop len rest"
        using buffered_read [OF port t1(2), of len] t1(3) True by metis
      have "hd (take len rest) = hd rest" using False by (cases rest; cases len) auto
      with False True t0 w1 len t1 w3(2,3) w3(1) [unfolded tmo_def] show ?thesis
        by (intro exI [of _ w3])
          (auto simp: read_packet_def run_simps Let_def simp del: unpack_be32.simps)
    qed (use False w1 in auto)
  qed
qed

lemma read_packet_returns:
  assumes live: "live_port E clk coming"
  shows "read_packet E timeout w \<noteq> None"
proof -
  obtain t0 w0 where t0: "time_time E w = (t0, w0)" by (cases "time_time E w")
  with live have "t0 = clk w0" by (auto simp: live_port_def)
  then have "scan_header E (t0 + timeout) timeout [] w0 \<noteq> None"
    using scan_header_returns [OF live, of "t0 + timeout" w0] by simp
  with t0 show ?thesis
    by (auto simp: read_packet_def run_simps Let_def split: sum.splits prod.splits)
qed

subsection \<open>The contract of the frame readers\<close>

locale packet_reader =
  fixes rd :: "'w serial_env \<Rightarrow> real \<Rightarrow> ('w, (byte \<times> bytes) option) prog"
  assumes accepts: "\<lbrakk>buffered_port E calm pend S T; T < S + tmo; calm w; 0 \<notin> set noise;
      frame t payload = Inr fr; length payload < 4096; pend w = noise @ fr @ rest\<rbrakk> \<Longrightarrow>
      \<exists>w'. rd E tmo w = Some (Inr (Some (t, payload)), w') \<and> calm w' \<and> pend w' = rest"
    and rejects: "\<lbrakk>buffered_port E calm pend S T; T < S + tmo; calm w; 0 \<notin> set noise;
      unpack_be32 [0, b, c, d] = Inr len; len < 1 \<or> len > 4096;
      pend w = noise @ [0, b, c, d] @ rest\<rbrakk> \<Longrightarrow>
      \<exists>w'. rd E tmo w = Some (Inr None, w') \<and> calm w' \<and> pend w' = rest"
    and returns: "live_port E clk coming \<Longrightarrow> rd E tmo w \<noteq> None"
begin

text \<open>Frames that wait in the buffer are handed out one by one, in the order they came.\<close>

lemma first_come_first:
  assumes "buffered_port E calm pend S T" and "T < S + tmo" and "calm w"
    and "frame t payload = Inr fr" and "length payload < 4096"
    and "frame t2 payload2 = Inr fr2" and "length payload2 < 4096"
    and "0 \<notin> set noise" and "0 \<notin> set noise2"
    and "pend w = noise @ fr @ noise2 @ fr2 @ rest"
  shows "\<exists>w1 w2. rd E tmo w = Some (Inr (Some (t, payload)), w1)
    \<and> rd E tmo w1 = Some (Inr (Some (t2, payload2)), w2) \<and> calm w2 \<and> pend w2 = rest"
proof -
  from accepts [OF assms(1-3,8,4,5), of "noise2 @ fr2 @ rest"] assms(10)
  obtain w1 where w1: "rd E tmo w = Some (Inr (Some (t, payload)), w1)" "calm w1"
    "pend w1 = noise2 @ fr2 @ rest" by auto
  from accepts [OF assms(1,2) w1(2) assms(9,6,7) w1(3)] w1 show ?thesis by auto
qed

end

interpretation tool_reader: packet_reader read_packet
proof (unfold_locales, goal_cases)
  case (1 E calm pend S T tmo w noise t payload fr rest)
  from 1(5,6) obtain b c d where fr: "fr = [0, b, c, d] @ t # payload"
    "unpack_be32 [0, b, c, d] = Inr (Suc (length payload))" by (rule frame_shape)
  with read_packet_run [OF 1(1-3) _ 1(4) fr(2), of "t # payload @ rest"] 1(6,7) show ?case
    by auto
next
  case (2 E calm pend S T tmo w noise b c d len rest)
  with read_packet_run [OF 2(1-3,7,4,5)] show ?case by auto
next
  case 3
  then show ?case by (rule read_packet_returns)
qed

subsection \<open>A simulated port\<close>

text \<open>
  A port whose device answers each \<open>write\<close> at once. It keeps the promises above, so the theorems
  that ask for them are not empty.
\<close>

record sim =
  sim_clock :: real
  sim_in :: bytes
  sim_device :: "bytes \<Rightarrow> bytes"
  sim_out :: bytes

definition sim_env :: "'a sim_scheme serial_env" where
  "sim_env = \<lparr>
     time_time = (\<lambda>w. (sim_clock w, w)),
     time_sleep = (\<lambda>t w. w\<lparr>sim_clock := sim_clock w + t\<rparr>),
     ser_open = (\<lambda>port baud t w. (Inr (), w)),
     ser_reset = (\<lambda>w. (Inr (), w\<lparr>sim_in := []\<rparr>)),
     ser_read = (\<lambda>tmo n w. if n \<le> length (sim_in w)
        then (Inr (take n (sim_in w)), w\<lparr>sim_in := drop n (sim_in w)\<rparr>)
        else (Inr (sim_in w), w\<lparr>sim_in := [], sim_clock := sim_clock w + max 0 tmo\<rparr>)),
     ser_readline = (\<lambda>tmo w. (Inr (takeWhile (\<lambda>b. b \<noteq> 10) (sim_in w)),
        w\<lparr>sim_in := drop 1 (dropWhile (\<lambda>b. b \<noteq> 10) (sim_in w)),
          sim_clock := sim_clock w + max 1 tmo\<rparr>)),
     ser_write = (\<lambda>bs w. (Inr (), w\<lparr>sim_out := sim_out w @ bs,
        sim_in := sim_in w @ sim_device w bs\<rparr>)),
     ser_flush = (\<lambda>w. (Inr (), w)),
     ser_close = (\<lambda>w. (Inr (), w))\<rparr>"

lemma sim_env_sel [simp]:
  "time_time sim_env w = (sim_clock w, w)"
  "time_sleep sim_env t w = w\<lparr>sim_clock := sim_clock w + t\<rparr>"
  "ser_open sim_env port baud t w = (Inr (), w)"
  "ser_reset sim_env w = (Inr (), w\<lparr>sim_in := []\<rparr>)"
  "ser_read sim_env tmo n w = (if n \<le> length (sim_in w)
     then (Inr (take n (sim_in w)), w\<lparr>sim_in := drop n (sim_in w)\<rparr>)
     else (Inr (sim_in w), w\<lparr>sim_in := [], sim_clock := sim_clock w + max 0 tmo\<rparr>))"
  "ser_write sim_env bs w = (Inr (), w\<lparr>sim_out := sim_out w @ bs,
     sim_in := sim_in w @ sim_device w bs\<rparr>)"
  "ser_flush sim_env w = (Inr (), w)"
  "ser_close sim_env w = (Inr (), w)"
  by (simp_all add: sim_env_def)

lemma sim_buffered: "buffered_port sim_env (\<lambda>w. sim_clock w = c \<and> sim_device w = dev) sim_in c c"
  by (auto simp: buffered_port_def)

lemma sim_answering: "answering_port sim_env (\<lambda>w. sim_clock w = c \<and> sim_device w = dev) sim_in dev"
  by (auto simp: answering_port_def)

lemma sim_live: "live_port sim_env sim_clock (\<lambda>d w. length (sim_in w))"
  by (auto simp: live_port_def split: if_splits)

end
