(* ===== verification/AgentBridge.thy ===== *)
theory AgentBridge
  imports SerialLink
begin

text \<open>
  \<open>wrapper/esp32_agent_bridge.py\<close>: the class \<open>ESP32AgentBridge\<close>, which turns SSH agent requests
  on a Unix socket into packets on the serial line and the device's replies into agent replies.
  The record \<open>bridge\<close> is the object: the open port (with the timeout the code sets on it), the
  serial lock, the \<open>running\<close> flag and the outside world. Sockets are the record \<open>sock_env\<close>.
  What the code prints is left out.
\<close>

subsection \<open>State\<close>

abbreviation (input) SSH_AGENTC_REQUEST_IDENTITIES :: byte where "SSH_AGENTC_REQUEST_IDENTITIES \<equiv> 11"
abbreviation (input) SSH_AGENTC_SIGN_REQUEST :: byte where "SSH_AGENTC_SIGN_REQUEST \<equiv> 13"
abbreviation (input) SSH_AGENTC_ADD_IDENTITY :: byte where "SSH_AGENTC_ADD_IDENTITY \<equiv> 17"
abbreviation (input) SSH_AGENTC_REMOVE_IDENTITY :: byte where "SSH_AGENTC_REMOVE_IDENTITY \<equiv> 18"
abbreviation (input) SSH_AGENTC_REMOVE_ALL_IDENTITIES :: byte where
  "SSH_AGENTC_REMOVE_ALL_IDENTITIES \<equiv> 19"
abbreviation (input) SSH_AGENTC_EXTENSION :: byte where "SSH_AGENTC_EXTENSION \<equiv> 27"

abbreviation (input) SSH_AGENT_FAILURE :: byte where "SSH_AGENT_FAILURE \<equiv> 5"
abbreviation (input) SSH_AGENT_SUCCESS :: byte where "SSH_AGENT_SUCCESS \<equiv> 6"
abbreviation (input) SSH_AGENT_IDENTITIES_ANSWER :: byte where "SSH_AGENT_IDENTITIES_ANSWER \<equiv> 12"
abbreviation (input) SSH_AGENT_SIGN_RESPONSE :: byte where "SSH_AGENT_SIGN_RESPONSE \<equiv> 14"

abbreviation (input) PROTOCOL_UNLOCK :: byte where "PROTOCOL_UNLOCK \<equiv> 3"
abbreviation (input) PROTOCOL_LOCK :: byte where "PROTOCOL_LOCK \<equiv> 4"
abbreviation (input) SSH_AGENT_LOCKED :: byte where "SSH_AGENT_LOCKED \<equiv> 32"

text \<open>
  \<open>br_serial\<close> is \<open>None\<close> before \<open>connect_serial\<close>, and then the \<open>timeout\<close> attribute of the port.
\<close>

record 'w bridge =
  br_serial :: "real option"
  br_lock :: bool
  br_running :: bool
  br_world :: 'w

record 'w sock_env =
  sock_recv :: "nat \<Rightarrow> 'w \<Rightarrow> (exn + bytes) \<times> 'w"
  sock_send :: "bytes \<Rightarrow> 'w \<Rightarrow> (exn + nat) \<times> 'w"
  sock_close :: "'w \<Rightarrow> (exn + unit) \<times> 'w"

definition on_world :: "('w, 'a) prog \<Rightarrow> ('w bridge, 'a) prog" where
  "on_world m = (\<lambda>s. case m (br_world s) of
      None \<Rightarrow> None
    | Some (r, w) \<Rightarrow> Some (r, s\<lparr>br_world := w\<rparr>))"

text \<open>
  \<open>with self.serial_lock: m\<close>: the lock is released on every way out, and a thread that takes it
  a second time waits for itself.
\<close>

definition with_lock :: "('w bridge, 'a) prog \<Rightarrow> ('w bridge, 'a) prog" where
  "with_lock m = (\<lambda>s. if br_lock s then None
     else (case m (s\<lparr>br_lock := True\<rparr>) of
         None \<Rightarrow> None
       | Some (r, s') \<Rightarrow> Some (r, s'\<lparr>br_lock := False\<rparr>)))"

definition set_timeout :: "real \<Rightarrow> ('w bridge, unit) prog" where
  "set_timeout t = modifies (\<lambda>s. s\<lparr>br_serial := Some t\<rparr>)"

definition serial_read :: "'w serial_env \<Rightarrow> nat \<Rightarrow> ('w bridge, bytes) prog" where
  "serial_read E n = bindP (reads br_serial) (\<lambda>port. case port of
      None \<Rightarrow> raise AttributeError
    | Some t \<Rightarrow> on_world (world_call (ser_read E t n)))"

subsection \<open>The serial side\<close>

definition connect_serial :: "'w serial_env \<Rightarrow> pystr \<Rightarrow> int \<Rightarrow> ('w bridge, bool) prog" where
  "connect_serial E serial_port baudrate = tryP
     (bindP (on_world (world_call (ser_open E serial_port baudrate 5))) (\<lambda>_.
      bindP (set_timeout 5) (\<lambda>_.
      bindP (on_world (world_call (\<lambda>w. (Inr (), time_sleep E 2 w)))) (\<lambda>_.
      bindP (on_world (world_call (ser_reset E))) (\<lambda>_.
      ret True)))))
     (\<lambda>e. ret False)"

definition serial_read_exact ::
  "'w serial_env \<Rightarrow> nat \<Rightarrow> real \<Rightarrow> ('w bridge, bytes option) prog" where
  "serial_read_exact E n timeout = bindP (reads br_serial) (\<lambda>port. case port of
      None \<Rightarrow> ret None
    | Some old_timeout \<Rightarrow>
        bindP (set_timeout timeout) (\<lambda>_.
        bindP (serial_read E n) (\<lambda>data.
        bindP (set_timeout old_timeout) (\<lambda>_.
        if length data < n then ret None else ret (Some data)))))"

definition packet_header :: "byte \<Rightarrow> bytes \<Rightarrow> bytes" where
  "packet_header msg_type data =
     (let len = length data in
      [msg_type, of_nat (drop_bit 16 len AND 255), of_nat (drop_bit 8 len AND 255),
       of_nat (len AND 255)])"

definition send_to_esp32 :: "'w serial_env \<Rightarrow> byte \<Rightarrow> bytes \<Rightarrow> ('w bridge, bool) prog" where
  "send_to_esp32 E msg_type data = bindP (reads br_serial) (\<lambda>port. case port of
      None \<Rightarrow> ret False
    | Some _ \<Rightarrow> tryP
        (bindP (on_world (world_call (ser_write E (packet_header msg_type data @ data)))) (\<lambda>_.
         bindP (on_world (world_call (ser_flush E))) (\<lambda>_.
         ret True)))
        (\<lambda>e. ret False))"

definition recv_from_esp32 ::
  "'w serial_env \<Rightarrow> real \<Rightarrow> ('w bridge, (byte \<times> bytes) option) prog" where
  "recv_from_esp32 E timeout = tryP
     (bindP (on_world (the_time E)) (\<lambda>t0.
      let deadline = t0 + timeout in
      bindP (reads br_serial) (\<lambda>port. case port of
          None \<Rightarrow> ret None
        | Some old_timeout \<Rightarrow>
            bindP (set_timeout timeout) (\<lambda>_.
            bindP (on_world (scan_header E deadline timeout [])) (\<lambda>header.
            if length header < 4 then bindP (set_timeout old_timeout) (\<lambda>_. ret None)
            else bindP (lift_exn (unpack_be32 header)) (\<lambda>len.
              if len < 1 \<or> len > 4096 then bindP (set_timeout old_timeout) (\<lambda>_. ret None)
              else bindP (on_world (the_time E)) (\<lambda>t1.
                let remaining = deadline - t1 in
                bindP (if remaining > 0 then set_timeout remaining else ret ()) (\<lambda>_.
                bindP (serial_read E len) (\<lambda>data.
                bindP (set_timeout old_timeout) (\<lambda>_.
                if length data < len then ret None
                else ret (Some (hd data, tl data)))))))))))) 
     (\<lambda>e. ret None)"

subsection \<open>Blobs in SSH wire format\<close>

definition build_ed25519_key_blob :: "bytes \<Rightarrow> exn + bytes" where
  "build_ed25519_key_blob raw_pubkey =
     bindE (ssh_string (ascii ''ssh-ed25519'')) (\<lambda>t.
     bindE (ssh_string raw_pubkey) (\<lambda>k. Inr (t @ k)))"

definition extract_raw_key :: "bytes \<Rightarrow> exn + bytes" where
  "extract_raw_key ssh_key_blob =
     bindE (unpack_be32 (take 4 ssh_key_blob)) (\<lambda>type_len.
     let offset = 4 + type_len in
     bindE (unpack_be32 (slice offset (offset + 4) ssh_key_blob)) (\<lambda>key_len.
     let offset = offset + 4 in
     Inr (slice offset (offset + key_len) ssh_key_blob)))"

definition build_ed25519_sig_blob :: "bytes \<Rightarrow> exn + bytes" where
  "build_ed25519_sig_blob raw_sig =
     bindE (ssh_string (ascii ''ssh-ed25519'')) (\<lambda>t.
     bindE (ssh_string raw_sig) (\<lambda>s. Inr (t @ s)))"

abbreviation (input) create_failure :: bytes where "create_failure \<equiv> [SSH_AGENT_FAILURE]"
abbreviation (input) create_success :: bytes where "create_success \<equiv> [SSH_AGENT_SUCCESS]"

subsection \<open>Requests to the device\<close>

definition unlock :: "'w serial_env \<Rightarrow> bytes \<Rightarrow> ('w bridge, bytes) prog" where
  "unlock E password = with_lock
     (bindP (send_to_esp32 E PROTOCOL_UNLOCK password) (\<lambda>sent.
      if \<not> sent then ret create_failure
      else bindP (recv_from_esp32 E 30) (\<lambda>result. case result of
          None \<Rightarrow> ret create_failure
        | Some (msg_type, _) \<Rightarrow>
            if msg_type = SSH_AGENT_SUCCESS then ret create_success else ret create_failure)))"

definition lock :: "'w serial_env \<Rightarrow> ('w bridge, bytes) prog" where
  "lock E = with_lock
     (bindP (send_to_esp32 E PROTOCOL_LOCK []) (\<lambda>sent.
      if \<not> sent then ret create_failure
      else bindP (recv_from_esp32 E 10) (\<lambda>result. case result of
          None \<Rightarrow> ret create_failure
        | Some (msg_type, _) \<Rightarrow>
            if msg_type = SSH_AGENT_SUCCESS then ret create_success else ret create_failure)))"

text \<open>
  The part of \<open>request_identities\<close> after the lock is released: the device's answer rebuilt in SSH
  wire format.
\<close>

definition identities_reply :: "byte \<Rightarrow> bytes \<Rightarrow> exn + bytes" where
  "identities_reply msg_type payload =
     (if msg_type \<noteq> SSH_AGENT_IDENTITIES_ANSWER then Inr create_failure
      else if length payload < 8 then Inr create_failure
      else bindE (unpack_be32 (slice 0 4 payload)) (\<lambda>nkeys.
        if nkeys = 0 then bindE (pack_be32 0) (\<lambda>n. Inr ([SSH_AGENT_IDENTITIES_ANSWER] @ n))
        else bindE (unpack_be32 (slice 4 8 payload)) (\<lambda>raw_key_len.
          let raw_key = slice 8 (8 + raw_key_len) payload in
          bindE (build_ed25519_key_blob raw_key) (\<lambda>key_blob.
          bindE (pack_be32 1) (\<lambda>n.
          bindE (ssh_string key_blob) (\<lambda>k.
          bindE (ssh_string (ascii ''ESP32-SSH-Agent'')) (\<lambda>c.
          Inr ([SSH_AGENT_IDENTITIES_ANSWER] @ n @ k @ c))))))))"

text \<open>A \<open>return\<close> inside the \<open>with\<close> block is \<open>Inl\<close> of the reply.\<close>

definition request_identities :: "'w serial_env \<Rightarrow> ('w bridge, bytes) prog" where
  "request_identities E = bindP
     (with_lock (bindP (send_to_esp32 E SSH_AGENTC_REQUEST_IDENTITIES []) (\<lambda>sent.
        if \<not> sent then ret (Inl create_failure)
        else bindP (recv_from_esp32 E 10) (\<lambda>result. ret (Inr result)))))
     (\<lambda>outcome. case outcome of
        Inl reply \<Rightarrow> ret reply
      | Inr None \<Rightarrow> ret create_failure
      | Inr (Some (msg_type, payload)) \<Rightarrow> lift_exn (identities_reply msg_type payload))"

definition sign_payload :: "bytes \<Rightarrow> bytes \<Rightarrow> nat \<Rightarrow> exn + bytes" where
  "sign_payload key_blob data flags =
     bindE (extract_raw_key key_blob) (\<lambda>raw_key.
     bindE (ssh_string raw_key) (\<lambda>k.
     bindE (ssh_string data) (\<lambda>d.
     bindE (byte_of flags) (\<lambda>f.
     Inr (k @ d @ f)))))"

definition sign_reply :: "byte \<Rightarrow> bytes \<Rightarrow> exn + bytes" where
  "sign_reply msg_type payload =
     (if msg_type = SSH_AGENT_LOCKED then Inr [SSH_AGENT_LOCKED]
      else if msg_type \<noteq> SSH_AGENT_SIGN_RESPONSE then Inr create_failure
      else if length payload < 4 then Inr create_failure
      else bindE (unpack_be32 (slice 0 4 payload)) (\<lambda>raw_sig_len.
        let raw_sig = slice 4 (4 + raw_sig_len) payload in
        bindE (build_ed25519_sig_blob raw_sig) (\<lambda>sig_blob.
        bindE (ssh_string sig_blob) (\<lambda>s.
        Inr ([SSH_AGENT_SIGN_RESPONSE] @ s)))))"

definition sign_request ::
  "'w serial_env \<Rightarrow> bytes \<Rightarrow> bytes \<Rightarrow> nat \<Rightarrow> ('w bridge, bytes) prog" where
  "sign_request E key_blob data flags =
     bindP (lift_exn (sign_payload key_blob data flags)) (\<lambda>payload.
     bindP (with_lock (bindP (send_to_esp32 E SSH_AGENTC_SIGN_REQUEST payload) (\<lambda>sent.
        if \<not> sent then ret (Inl create_failure)
        else bindP (recv_from_esp32 E 30) (\<lambda>result. ret (Inr result)))))
     (\<lambda>outcome. case outcome of
        Inl reply \<Rightarrow> ret reply
      | Inr None \<Rightarrow> ret create_failure
      | Inr (Some (msg_type, reply)) \<Rightarrow> lift_exn (sign_reply msg_type reply)))"

subsection \<open>The agent side\<close>

definition sign_fields :: "bytes \<Rightarrow> exn + (bytes \<times> bytes \<times> nat) option" where
  "sign_fields payload =
     (if length payload < 8 then Inr None
      else bindE (unpack_be32 (slice 0 4 payload)) (\<lambda>key_len.
        if length payload < 4 + key_len + 4 then Inr None
        else
          let key_blob = slice 4 (4 + key_len) payload;
              data_offset = 4 + key_len in
          bindE (unpack_be32 (slice data_offset (data_offset + 4) payload)) (\<lambda>data_len.
          let sign_data = slice (data_offset + 4) (data_offset + 4 + data_len) payload;
              flags_offset = data_offset + 4 + data_len in
          bindE (if flags_offset + 4 \<le> length payload
                 then unpack_be32 (slice flags_offset (flags_offset + 4) payload)
                 else Inr 0) (\<lambda>flags.
          Inr (Some (key_blob, sign_data, flags))))))"

definition handle_extension :: "'w serial_env \<Rightarrow> bytes \<Rightarrow> ('w bridge, bytes) prog" where
  "handle_extension E payload =
     (if length payload < 4 then ret create_failure
      else bindP (lift_exn (unpack_be32 (slice 0 4 payload))) (\<lambda>name_len.
        if length payload < 4 + name_len then ret create_failure
        else
          let ext_name = slice 4 (4 + name_len) payload;
              ext_data = drop (4 + name_len) payload in
          if ext_name = ascii ''esp32-unlock'' then
            (if length ext_data < 4 then ret create_failure
             else bindP (lift_exn (unpack_be32 (slice 0 4 ext_data))) (\<lambda>pw_len.
               let password = slice 4 (4 + pw_len) ext_data in
               unlock E password))
          else if ext_name = ascii ''esp32-lock'' then lock E
          else ret create_failure))"

definition handle_agent_request :: "'w serial_env \<Rightarrow> bytes \<Rightarrow> ('w bridge, bytes) prog" where
  "handle_agent_request E data =
     (if length data < 1 then ret create_failure
      else
        let msg_type = hd data; payload = tl data in
        if msg_type = SSH_AGENTC_REQUEST_IDENTITIES then request_identities E
        else if msg_type = SSH_AGENTC_SIGN_REQUEST then
          bindP (lift_exn (sign_fields payload)) (\<lambda>fields. case fields of
              None \<Rightarrow> ret create_failure
            | Some (key_blob, sign_data, flags) \<Rightarrow> sign_request E key_blob sign_data flags)
        else if msg_type = SSH_AGENTC_EXTENSION then handle_extension E payload
        else if msg_type \<in> {SSH_AGENTC_ADD_IDENTITY, SSH_AGENTC_REMOVE_IDENTITY,
            SSH_AGENTC_REMOVE_ALL_IDENTITIES} then ret create_success
        else ret create_failure)"

subsection \<open>One client\<close>

text \<open>\<open>while len(data) < length: chunk = client_sock.recv(length - len(data)) ...\<close>\<close>

function recv_rest ::
  "'w sock_env \<Rightarrow> nat \<Rightarrow> bytes \<Rightarrow> 'w \<Rightarrow> ((exn + bytes) \<times> 'w) option" where
  "recv_rest K len data w =
     (if length data < len then
        (case sock_recv K (len - length data) w of
           (Inl e, w') \<Rightarrow> Some (Inl e, w')
         | (Inr chunk, w') \<Rightarrow>
             if chunk = [] then Some (Inr data, w') else recv_rest K len (data @ chunk) w')
      else Some (Inr data, w))"
  by pat_completeness auto
termination
  by (relation "measure (\<lambda>(K, len, data, w). len - length data)") (auto simp: neq_Nil_conv)

declare recv_rest.simps [simp del]

text \<open>One turn of the loop: \<open>True\<close> for \<open>continue\<close> or the end of the body, \<open>False\<close> for \<open>break\<close>.\<close>

definition serve_once :: "'w serial_env \<Rightarrow> 'w sock_env \<Rightarrow> ('w bridge, bool) prog" where
  "serve_once E K = tryP
     (bindP (on_world (world_call (sock_recv K 4))) (\<lambda>length_data.
      if length length_data < 4 then ret False
      else bindP (lift_exn (unpack_be32 length_data)) (\<lambda>len.
        if len > 65536 then ret False
        else bindP (on_world (recv_rest K len [])) (\<lambda>data.
          if length data < len then ret False
          else bindP (handle_agent_request E data) (\<lambda>response.
            bindP (lift_exn (pack_be32 (length response))) (\<lambda>h.
            bindP (on_world (world_call (sock_send K (h @ response)))) (\<lambda>_.
            ret True)))))))
     (\<lambda>e. if e = SocketTimeout then ret True else ret False)"

partial_function (option) client_loop ::
  "'w serial_env \<Rightarrow> 'w sock_env \<Rightarrow> 'w bridge \<Rightarrow> ((exn + unit) \<times> 'w bridge) option" where
  "client_loop E K s =
     (if \<not> br_running s then Some (Inr (), s)
      else case serve_once E K s of
          None \<Rightarrow> None
        | Some (Inl e, s') \<Rightarrow> Some (Inl e, s')
        | Some (Inr go_on, s') \<Rightarrow> if go_on then client_loop E K s' else Some (Inr (), s'))"

definition handle_client :: "'w serial_env \<Rightarrow> 'w sock_env \<Rightarrow> ('w bridge, unit) prog" where
  "handle_client E K = finallyP (client_loop E K) (on_world (world_call (sock_close K)))"

subsection \<open>Running the pieces\<close>

lemma bridge_run [run_simps]:
  "on_world m s = (case m (br_world s) of
     None \<Rightarrow> None | Some (r, w) \<Rightarrow> Some (r, s\<lparr>br_world := w\<rparr>))"
  "with_lock n s = (if br_lock s then None
     else (case n (s\<lparr>br_lock := True\<rparr>) of
         None \<Rightarrow> None
       | Some (r, s') \<Rightarrow> Some (r, s'\<lparr>br_lock := False\<rparr>)))"
  "set_timeout t s = Some (Inr (), s\<lparr>br_serial := Some t\<rparr>)"
  "serial_read E k s = (case br_serial s of
      None \<Rightarrow> Some (Inl AttributeError, s)
    | Some t \<Rightarrow> on_world (world_call (ser_read E t k)) s)"
  by (simp_all add: on_world_def with_lock_def set_timeout_def serial_read_def run_simps
      split: option.splits)

lemma bridge_same [simp]:
  "s\<lparr>br_world := w, br_world := w'\<rparr> = s\<lparr>br_world := w'\<rparr>"
  "br_serial s = Some t \<Longrightarrow> s\<lparr>br_world := w, br_serial := Some t\<rparr> = s\<lparr>br_world := w\<rparr>"
  "br_lock s = l \<Longrightarrow> s\<lparr>br_world := w, br_lock := l\<rparr> = s\<lparr>br_world := w\<rparr>"
  by (cases s; simp)+

text \<open>
  \<open>recv_from_esp32\<close> and the key tool's \<open>read_packet\<close> are two copies of one loop. With a
  port open, the bridge's copy returns what the other returns, puts the port's timeout back, and turns
  an exception of the port into \<open>None\<close>.
\<close>

lemma recv_from_esp32_cases:
  assumes "br_serial s = Some old"
  shows "case read_packet E timeout (br_world s) of
      None \<Rightarrow> recv_from_esp32 E timeout s = None
    | Some (Inr x, w) \<Rightarrow> recv_from_esp32 E timeout s = Some (Inr x, s\<lparr>br_world := w\<rparr>)
    | Some (Inl e, w) \<Rightarrow> is_Exception e \<longrightarrow>
        (\<exists>t. recv_from_esp32 E timeout s = Some (Inr None, s\<lparr>br_serial := t, br_world := w\<rparr>))"
proof -
  note defs = recv_from_esp32_def read_packet_def run_simps Let_def assms
  obtain t0 w0 where t0: "time_time E (br_world s) = (t0, w0)" by fastforce
  define scan where "scan = scan_header E (t0 + timeout) timeout [] w0"
  note start = defs t0 scan_def [symmetric]
  show ?thesis
  proof (cases scan)
    case None
    then show ?thesis by (simp add: start)
  next
    case (Some rw)
    then obtain r w1 where scan: "scan = Some (r, w1)" by (cases rw) auto
    show ?thesis
    proof (cases r)
      case (Inl e)
      with scan show ?thesis by (auto simp: start)
    next
      case (Inr header)
      show ?thesis
      proof (cases "length header = 4")
        case False
        then show ?thesis
          using scan Inr by (auto simp: start unpack_be32_error)
      next
        case True
        then obtain len where len: "unpack_be32 header = Inr len" using unpack_be32_four by blast
        obtain t1 w2 where t1: "time_time E w1 = (t1, w2)" by fastforce
        define tmo where
          "tmo = (if 0 < t0 + timeout - t1 then t0 + timeout - t1 else timeout)"
        obtain q w3 where rd: "ser_read E tmo len w2 = (q, w3)" by fastforce
        show ?thesis
          using scan Inr True len t1 rd
          by (cases q; cases "0 < t0 + timeout - t1") (auto simp: start tmo_def)
      qed
    qed
  qed
qed

text \<open>The bridge's reader keeps the contract of the frame readers.\<close>

definition bridge_reader :: "'w serial_env \<Rightarrow> real \<Rightarrow> ('w, (byte \<times> bytes) option) prog" where
  "bridge_reader E timeout w =
     (case recv_from_esp32 E timeout
         \<lparr>br_serial = Some 5, br_lock = True, br_running = True, br_world = w\<rparr> of
        None \<Rightarrow> None
      | Some (r, s) \<Rightarrow> Some (r, br_world s))"

lemma bridge_reader_follows:
  "read_packet E timeout w = Some (Inr x, w') \<Longrightarrow> bridge_reader E timeout w = Some (Inr x, w')"
  using recv_from_esp32_cases [of "\<lparr>br_serial = Some 5, br_lock = True, br_running = True, br_world = w\<rparr>"
      5 E timeout]
  by (simp add: bridge_reader_def)

lemma recv_from_esp32_returns:
  assumes "live_port E clk coming"
  shows "recv_from_esp32 E timeout s \<noteq> None"
proof -
  obtain t0 w0 where t0: "time_time E (br_world s) = (t0, w0)" by fastforce
  with assms have "t0 = clk w0" by (auto simp: live_port_def)
  then have "scan_header E (t0 + timeout) timeout [] w0 \<noteq> None"
    using scan_header_returns [OF assms, of "t0 + timeout" w0] by simp
  with t0 show ?thesis
    by (auto simp: recv_from_esp32_def run_simps Let_def
        split: sum.splits prod.splits option.splits)
qed

interpretation bridge_reader: packet_reader bridge_reader
proof (unfold_locales, goal_cases)
  case (1 E calm pend S T tmo w noise t payload fr rest)
  from tool_reader.accepts [OF 1] show ?case by (blast intro: bridge_reader_follows)
next
  case (2 E calm pend S T tmo w noise b c d len rest)
  from tool_reader.rejects [OF 2] show ?case by (blast intro: bridge_reader_follows)
next
  case (3 E clk coming tmo w)
  from recv_from_esp32_returns [OF 3] show ?case
    by (auto simp: bridge_reader_def split: option.splits)
qed

subsection \<open>One exchange with the device\<close>

lemma recv_frame:
  assumes "buffered_port E calm pend S T" and "T < S + timeout" and "calm (br_world s)"
    and "0 \<notin> set noise" and "frame t payload = Inr fr" and "length payload < 4096"
    and "pend (br_world s) = noise @ fr @ rest" and "br_serial s = Some old"
  shows "\<exists>w'. calm w' \<and> pend w' = rest \<and>
    recv_from_esp32 E timeout s = Some (Inr (Some (t, payload)), s\<lparr>br_world := w'\<rparr>)"
  using tool_reader.accepts [OF assms(1-7)] recv_from_esp32_cases [OF assms(8), of E timeout]
  by fastforce

lemma send_packet_answered:
  assumes "answering_port E calm pend device" and "calm (br_world s)" and "br_serial s = Some old"
  shows "\<exists>w'. calm w' \<and> pend w' = pend (br_world s) @ device (packet_header m data @ data) \<and>
    send_to_esp32 E m data s = Some (Inr True, s\<lparr>br_world := w'\<rparr>)"
proof -
  obtain w1 where w1: "ser_write E (packet_header m data @ data) (br_world s) = (Inr (), w1)"
    "calm w1" "pend w1 = pend (br_world s) @ device (packet_header m data @ data)"
    using assms(1,2) unfolding answering_port_def by blast
  obtain w2 where w2: "ser_flush E w1 = (Inr (), w2)" "calm w2" "pend w2 = pend w1"
    using assms(1) w1(2) unfolding answering_port_def by blast
  show ?thesis
    using w1 w2 assms(3) by (intro exI [of _ w2]) (simp add: send_to_esp32_def run_simps)
qed

text \<open>Send a packet, read the reply: what every request to the device does under the lock.\<close>

definition exchange :: "'w serial_env \<Rightarrow> byte \<Rightarrow> bytes \<Rightarrow> real
    \<Rightarrow> ('w bridge, 'a) prog \<Rightarrow> ((byte \<times> bytes) option \<Rightarrow> ('w bridge, 'a) prog)
    \<Rightarrow> ('w bridge, 'a) prog" where
  "exchange E m data timeout unsent k =
     with_lock (bindP (send_to_esp32 E m data) (\<lambda>sent.
       if \<not> sent then unsent else bindP (recv_from_esp32 E timeout) k))"

lemma exchange_folds:
  "unlock E password = exchange E PROTOCOL_UNLOCK password 30 (ret create_failure)
     (\<lambda>result. case result of None \<Rightarrow> ret create_failure
       | Some (msg_type, _) \<Rightarrow>
           if msg_type = SSH_AGENT_SUCCESS then ret create_success else ret create_failure)"
  "lock E = exchange E PROTOCOL_LOCK [] 10 (ret create_failure)
     (\<lambda>result. case result of None \<Rightarrow> ret create_failure
       | Some (msg_type, _) \<Rightarrow>
           if msg_type = SSH_AGENT_SUCCESS then ret create_success else ret create_failure)"
  "request_identities E = bindP
     (exchange E SSH_AGENTC_REQUEST_IDENTITIES [] 10 (ret (Inl create_failure)) (\<lambda>r. ret (Inr r)))
     (\<lambda>outcome. case outcome of
        Inl reply \<Rightarrow> ret reply
      | Inr None \<Rightarrow> ret create_failure
      | Inr (Some (msg_type, payload)) \<Rightarrow> lift_exn (identities_reply msg_type payload))"
  "sign_request E key_blob data flags =
     bindP (lift_exn (sign_payload key_blob data flags)) (\<lambda>payload.
     bindP (exchange E SSH_AGENTC_SIGN_REQUEST payload 30 (ret (Inl create_failure))
       (\<lambda>r. ret (Inr r)))
     (\<lambda>outcome. case outcome of
        Inl reply \<Rightarrow> ret reply
      | Inr None \<Rightarrow> ret create_failure
      | Inr (Some (msg_type, reply)) \<Rightarrow> lift_exn (sign_reply msg_type reply)))"
  by (simp_all add: exchange_def unlock_def lock_def request_identities_def sign_request_def)

lemma exchange_answered:
  assumes "buffered_port E calm pend S T" and "answering_port E calm pend device"
    and "T < S + timeout" and "calm (br_world s)" and "br_serial s = Some old" and "\<not> br_lock s"
    and "pend (br_world s) @ device (packet_header m data @ data) = noise @ fr @ rest"
    and "0 \<notin> set noise" and "frame t payload = Inr fr" and "length payload < 4096"
  shows "\<exists>w'. calm w' \<and> pend w' = rest \<and>
    exchange E m data timeout unsent k s = with_lock (k (Some (t, payload))) (s\<lparr>br_world := w'\<rparr>)"
proof -
  let ?s = "s\<lparr>br_lock := True\<rparr>"
  obtain w1 where w1: "calm w1" "pend w1 = noise @ fr @ rest"
    "send_to_esp32 E m data ?s = Some (Inr True, ?s\<lparr>br_world := w1\<rparr>)"
    using send_packet_answered [OF assms(2), of ?s old m data] assms(4,5,7) by auto
  obtain w2 where w2: "calm w2" "pend w2 = rest"
    "recv_from_esp32 E timeout (?s\<lparr>br_world := w1\<rparr>) =
      Some (Inr (Some (t, payload)), ?s\<lparr>br_world := w2\<rparr>)"
    using recv_frame [OF assms(1,3), of "?s\<lparr>br_world := w1\<rparr>" noise t payload fr rest old]
      w1 assms(5,8-10) by auto
  have swap: "?s\<lparr>br_world := w2\<rparr> = s\<lparr>br_world := w2, br_lock := True\<rparr>" by simp
  show ?thesis
    using w1 w2 assms(6) by (intro exI [of _ w2]) (simp add: exchange_def run_simps swap)
qed

subsection \<open>Lock discipline\<close>

text \<open>
  \<open>guarded I l r s\<close>: the lock is \<open>l\<close>, the \<open>running\<close> flag is \<open>r\<close>, and \<open>I\<close> holds of
  the world. \<open>serial_keeps E I\<close>: talking to the device does not disturb \<open>I\<close> (which is about
  something else in the world, such as what waits on a socket).
\<close>

definition guarded :: "('w \<Rightarrow> bool) \<Rightarrow> bool \<Rightarrow> bool \<Rightarrow> 'w bridge \<Rightarrow> bool" where
  "guarded I l r s \<longleftrightarrow> br_lock s = l \<and> br_running s = r \<and> I (br_world s)"

definition serial_keeps :: "'w serial_env \<Rightarrow> ('w \<Rightarrow> bool) \<Rightarrow> bool" where
  "serial_keeps E I \<longleftrightarrow>
     (\<forall>w t w'. I w \<longrightarrow> time_time E w = (t, w') \<longrightarrow> I w') \<and>
     (\<forall>w tmo n r w'. I w \<longrightarrow> ser_read E tmo n w = (r, w') \<longrightarrow> I w') \<and>
     (\<forall>w bs r w'. I w \<longrightarrow> ser_write E bs w = (r, w') \<longrightarrow> I w') \<and>
     (\<forall>w r w'. I w \<longrightarrow> ser_flush E w = (r, w') \<longrightarrow> I w')"

lemma serial_keeps_True [simp]: "serial_keeps E (\<lambda>_. True)"
  by (simp add: serial_keeps_def)

lemma serial_keepsD:
  assumes "serial_keeps E I" and "I w"
  shows "time_time E w = (t, w') \<Longrightarrow> I w'" and "ser_read E tmo n w = (q, w') \<Longrightarrow> I w'"
    and "ser_write E bs w = (u, w') \<Longrightarrow> I w'" and "ser_flush E w = (v, w') \<Longrightarrow> I w'"
  using assms unfolding serial_keeps_def by blast+

lemma serial_keeps_progs:
  assumes "serial_keeps E I"
  shows "keeps I (the_time E)" "keeps I (world_call (ser_read E tmo n))"
    "keeps I (world_call (ser_write E bs))" "keeps I (world_call (ser_flush E))"
  by (rule keepsI; auto simp: run_simps split: prod.splits dest: serial_keepsD [OF assms])+

lemma scan_header_keeps_aux:
  fixes E :: "'w serial_env"
  assumes "serial_keeps E I" and ret: "scan_header E deadline timeout header w = Some x"
  shows "E = E \<longrightarrow> I w \<longrightarrow> I (snd x)"
proof (rule scan_header.raw_induct [where P = "\<lambda>E' d t h w x. E' = E \<longrightarrow> I w \<longrightarrow> I (snd x)", OF _ ret])
  fix sh and E' :: "'w serial_env" and d t h w x
  assume IH: "\<And>E' d t h w x. sh E' d t h w = Some x \<Longrightarrow> E' = E \<longrightarrow> I w \<longrightarrow> I (snd x)"
    and eq: "(case time_time E' w of (t', w1) \<Rightarrow>
      if \<not> t' < d then Some (Inr h, w1)
      else (case ser_read E' t 1 w1 of
          (Inl e, w2) \<Rightarrow> Some (Inl e, w2)
        | (Inr b, w2) \<Rightarrow>
            if length b = 0 then sh E' d t h w2
            else if length h = 0 then (if hd b = 0 then sh E' d t b w2 else sh E' d t h w2)
            else if length (h @ b) = 4 then Some (Inr (h @ b), w2)
            else sh E' d t (h @ b) w2)) = Some x"
  show "E' = E \<longrightarrow> I w \<longrightarrow> I (snd x)"
  proof (intro impI)
    assume "E' = E" and "I w"
    obtain t' w1 where tt: "time_time E w = (t', w1)" by fastforce
    obtain q w2 where rd: "ser_read E t 1 w1 = (q, w2)" by fastforce
    have "I w1" using serial_keepsD(1) [OF assms(1) \<open>I w\<close> tt] .
    then have "I w2" using serial_keepsD(2) [OF assms(1) _ rd] by simp
    have tail: "I (snd x)" if "sh E d t h' w2 = Some x" for h'
      using IH [OF that] \<open>I w2\<close> by simp
    have "x = (Inr h, w1) \<or> (\<exists>r. x = (r, w2)) \<or> (\<exists>h'. sh E d t h' w2 = Some x)"
      using eq \<open>E' = E\<close>
      by (cases q) (auto simp: tt rd simp del: One_nat_def split: if_splits)
    then show "I (snd x)"
      using tail \<open>I w1\<close> \<open>I w2\<close> by auto
  qed
qed

lemma scan_header_keeps:
  "serial_keeps E I \<Longrightarrow> keeps I (scan_header E deadline timeout header)"
  using scan_header_keeps_aux by (fastforce intro: keepsI)

lemma keeps_on_world:
  "keeps I m \<Longrightarrow> keeps (guarded I l r) (on_world m)"
  by (rule keepsI) (auto simp: run_simps guarded_def split: option.splits dest: keepsD)

lemma keeps_set_timeout [keeps_intros]: "keeps (guarded I l r) (set_timeout t)"
  by (auto simp: keeps_def run_simps guarded_def)

lemma keeps_serial_read:
  "serial_keeps E I \<Longrightarrow> keeps (guarded I l r) (serial_read E n)"
  unfolding serial_read_def by (intro keeps_intros keeps_on_world serial_keeps_progs)

lemma keeps_Let [keeps_intros]: "keeps P (f x) \<Longrightarrow> keeps P (let y = x in f y)"
  by simp

lemma send_keeps: "serial_keeps E I \<Longrightarrow> keeps (guarded I l r) (send_to_esp32 E m data)"
  unfolding send_to_esp32_def by (intro keeps_intros keeps_on_world serial_keeps_progs)

lemma recv_keeps: "serial_keeps E I \<Longrightarrow> keeps (guarded I l r) (recv_from_esp32 E timeout)"
  unfolding recv_from_esp32_def Let_def
  by (intro keeps_intros keeps_on_world serial_keeps_progs keeps_serial_read scan_header_keeps)

lemma with_lock_keeps:
  "keeps (guarded I True r) m \<Longrightarrow> keeps (guarded I False r) (with_lock m)"
proof (rule keepsI)
  fix s q s'
  assume m: "keeps (guarded I True r) m" and s: "guarded I False r s"
    and "with_lock m s = Some (q, s')"
  then obtain t where t: "m (s\<lparr>br_lock := True\<rparr>) = Some (q, t)" "s' = t\<lparr>br_lock := False\<rparr>"
    by (auto simp: run_simps split: if_splits option.splits)
  from s have "guarded I True r (s\<lparr>br_lock := True\<rparr>)" by (simp add: guarded_def)
  with m t(1) have "guarded I True r t" by (auto dest: keepsD)
  with t(2) show "guarded I False r s'" by (simp add: guarded_def)
qed

text \<open>
  What the dispatcher needs of a request to the device: it leaves the lock free and the rest of the
  world alone, and it returns if the port does.
\<close>

locale device_request =
  fixes E :: "'w serial_env" and op :: "('w bridge, bytes) prog"
  assumes op_keeps: "serial_keeps E I \<Longrightarrow> keeps (guarded I False r) op"
    and op_returns: "live_port E clk coming \<Longrightarrow> comes_back (guarded (\<lambda>_. True) False r) op"
begin

lemma op_leaves_lock_free:
  "op s = Some (q, s') \<Longrightarrow> \<not> br_lock s \<Longrightarrow> \<not> br_lock s' \<and> br_running s' = br_running s"
  using keepsD [OF op_keeps [OF serial_keeps_True, of "br_running s"], of s q s']
  by (simp add: guarded_def)

end

lemma send_returns: "comes_back P (send_to_esp32 E m data)"
proof -
  have "send_to_esp32 E m data s \<noteq> None" for s
  proof (cases "br_serial s")
    case (Some t)
    obtain q w1 where "ser_write E (packet_header m data @ data) (br_world s) = (q, w1)" by fastforce
    moreover obtain p w2 where "ser_flush E w1 = (p, w2)" by fastforce
    ultimately show ?thesis
      using Some by (cases q; cases p) (auto simp: send_to_esp32_def run_simps)
  qed (simp add: send_to_esp32_def run_simps)
  then show ?thesis by (simp add: comes_back_def)
qed

lemma recv_returns: "live_port E clk coming \<Longrightarrow> comes_back P (recv_from_esp32 E timeout)"
  using recv_from_esp32_returns by (auto simp: comes_back_def)

lemma with_lock_returns:
  fixes m :: "('w bridge, 'a) prog"
  assumes m: "comes_back (guarded (\<lambda>_. True) True r) m"
  shows "comes_back (guarded (\<lambda>_. True) False r) (with_lock m)"
  unfolding comes_back_def
proof (intro allI impI)
  fix s :: "'w bridge"
  assume "guarded (\<lambda>_. True) False r s"
  then have "\<not> br_lock s" and "guarded (\<lambda>_. True) True r (s\<lparr>br_lock := True\<rparr>)"
    by (auto simp: guarded_def)
  with m show "with_lock m s \<noteq> None"
    by (auto simp: run_simps comes_back_def split: option.split)
qed

lemma exchange_keeps:
  "serial_keeps E I \<Longrightarrow> keeps (guarded I True r) unsent \<Longrightarrow>
    (\<And>x. keeps (guarded I True r) (k x)) \<Longrightarrow>
    keeps (guarded I False r) (exchange E m data timeout unsent k)"
  unfolding exchange_def by (intro keeps_intros with_lock_keeps send_keeps recv_keeps)

lemma exchange_returns:
  fixes unsent :: "('w bridge, 'a) prog"
  assumes "live_port E clk coming"
    and "comes_back (guarded (\<lambda>_. True) True r) unsent"
    and "\<And>x. comes_back (guarded (\<lambda>_. True) True r) (k x)"
  shows "comes_back (guarded (\<lambda>_. True) False r) (exchange E m data timeout unsent k)"
  unfolding exchange_def using assms
  by (intro total_intros send_keeps recv_keeps send_returns with_lock_returns
      recv_returns [OF assms(1)] serial_keeps_True)

lemma exchange_request:
  assumes "\<And>I r. keeps (guarded I True r) unsent" "\<And>I r. comes_back (guarded I True r) unsent"
    and "\<And>I r x. keeps (guarded I True r) (k x)" "\<And>I r x. comes_back (guarded I True r) (k x)"
  shows "device_request E (exchange E m data timeout unsent k)"
  using assms by unfold_locales (blast intro: exchange_keeps exchange_returns)+

interpretation unlock: device_request E "unlock E password" for E password
  unfolding exchange_folds
  by (rule exchange_request) (auto intro!: keeps_intros total_intros split: option.split)

interpretation lock: device_request E "lock E" for E
  unfolding exchange_folds
  by (rule exchange_request) (auto intro!: keeps_intros total_intros split: option.split)

lemma reply_request:
  assumes "\<And>P x. keeps P (k x)" and "\<And>P x. comes_back P (k x)"
  shows "device_request E (bindP (exchange E m data timeout (ret (Inl c)) (\<lambda>r. ret (Inr r))) k)"
  using assms
  by unfold_locales (blast intro: exchange_returns exchange_keeps
      keeps_intros total_intros serial_keeps_True)+

interpretation identities: device_request E "request_identities E" for E
  unfolding exchange_folds
  by (rule reply_request) (auto intro!: keeps_intros total_intros split: sum.split option.split)

interpretation sign: device_request E "sign_request E key_blob data flags" for E key_blob data flags
proof -
  have "device_request E (bindP (exchange E SSH_AGENTC_SIGN_REQUEST payload 30
      (ret (Inl create_failure)) (\<lambda>r. ret (Inr r))) (\<lambda>outcome. case outcome of
        Inl reply \<Rightarrow> ret reply
      | Inr None \<Rightarrow> ret create_failure
      | Inr (Some (msg_type, reply)) \<Rightarrow> lift_exn (sign_reply msg_type reply)))"
    for payload
    by (rule reply_request) (auto intro!: keeps_intros total_intros split: sum.split option.split)
  note inner = this [THEN device_request.op_keeps] this [THEN device_request.op_returns]
  show "device_request E (sign_request E key_blob data flags)"
    unfolding exchange_folds
    by unfold_locales (blast intro: inner keeps_intros total_intros)+
qed

lemma extension_keeps: "serial_keeps E I \<Longrightarrow> keeps (guarded I False r) (handle_extension E payload)"
  unfolding handle_extension_def Let_def
  by (intro keeps_intros unlock.op_keeps lock.op_keeps)

lemma extension_returns:
  "live_port E clk coming \<Longrightarrow> comes_back (guarded (\<lambda>_. True) False r) (handle_extension E payload)"
  unfolding handle_extension_def Let_def
  by (intro total_intros keeps_intros unlock.op_returns lock.op_returns)

lemma request_keeps:
  "serial_keeps E I \<Longrightarrow> keeps (guarded I False r) (handle_agent_request E data)"
  unfolding handle_agent_request_def Let_def
  by (intro keeps_intros identities.op_keeps sign.op_keeps extension_keeps)

lemma request_returns:
  "live_port E clk coming \<Longrightarrow> comes_back (guarded (\<lambda>_. True) False r) (handle_agent_request E data)"
  unfolding handle_agent_request_def Let_def
  by (intro total_intros keeps_intros identities.op_returns sign.op_returns extension_returns)

end
