(* ===== verification/BridgeServer.thy ===== *)
theory BridgeServer
  imports AgentBridge
begin

text \<open>
  The main thread of \<open>wrapper/esp32_agent_bridge.py\<close>: \<open>start_unix_server\<close>, \<open>run\<close>, \<open>shutdown\<close> and \<open>main\<close>.
  The server socket, the file system, the signals and the starting of threads are the record \<open>server_env\<close>.
  A signal is taken to arrive while \<open>accept\<close> waits, where Python runs the handler: \<open>sv_accept\<close> gives
  \<open>None\<close> then. A client's socket with its timeout and its thread are one call, \<open>sv_thread\<close>; what
  the thread does is \<open>handle_client\<close>, and \<open>system_step\<close> puts the threads together.
\<close>

record 'w server_env =
  sv_exists :: "pystr \<Rightarrow> 'w \<Rightarrow> bool"
  sv_unlink :: "pystr \<Rightarrow> 'w \<Rightarrow> (exn + unit) \<times> 'w"
  sv_bind :: "pystr \<Rightarrow> 'w \<Rightarrow> (exn + unit) \<times> 'w"
  sv_listen :: "nat \<Rightarrow> real \<Rightarrow> 'w \<Rightarrow> (exn + unit) \<times> 'w"
  sv_chmod :: "pystr \<Rightarrow> nat \<Rightarrow> 'w \<Rightarrow> (exn + unit) \<times> 'w"
  sv_accept :: "'w \<Rightarrow> (exn + 'w sock_env option) \<times> 'w"
  sv_thread :: "real \<Rightarrow> 'w sock_env \<Rightarrow> 'w \<Rightarrow> (exn + unit) \<times> 'w"
  sv_close :: "'w \<Rightarrow> (exn + unit) \<times> 'w"

abbreviation (input) world_does :: "('w \<Rightarrow> (exn + 'a) \<times> 'w) \<Rightarrow> ('w bridge, 'a) prog" where
  "world_does f \<equiv> on_world (world_call f)"

text \<open>\<open>if os.path.exists(path): os.unlink(path)\<close>\<close>

definition unlink_socket :: "'w server_env \<Rightarrow> pystr \<Rightarrow> ('w bridge, unit) prog" where
  "unlink_socket S path =
     bindP (reads (\<lambda>s. sv_exists S path (br_world s))) (\<lambda>found.
     if found then world_does (sv_unlink S path) else ret ())"

definition shutdown :: "'w serial_env \<Rightarrow> 'w server_env \<Rightarrow> pystr \<Rightarrow> ('w bridge, unit) prog" where
  "shutdown E S path =
     bindP (modifies (\<lambda>s. s\<lparr>br_running := False\<rparr>)) (\<lambda>_.
     bindP (reads br_serial) (\<lambda>port.
     bindP (if port \<noteq> None then world_does (ser_close E) else ret ()) (\<lambda>_.
     bindP (unlink_socket S path) (\<lambda>_.
     raise (SystemExit 0)))))"

definition open_server :: "'w server_env \<Rightarrow> pystr \<Rightarrow> ('w bridge, unit) prog" where
  "open_server S path =
     bindP (unlink_socket S path) (\<lambda>_.
     bindP (world_does (sv_bind S path)) (\<lambda>_.
     bindP (world_does (sv_listen S 5 1)) (\<lambda>_.
     world_does (sv_chmod S path 384))))"

text \<open>One turn of the accept loop: the client whose thread was started, if any.\<close>

definition accept_once :: "'w serial_env \<Rightarrow> 'w server_env \<Rightarrow> pystr \<Rightarrow> ('w bridge, 'w sock_env option) prog" where
  "accept_once E S path = tryP
     (bindP (world_does (sv_accept S)) (\<lambda>arrival. case arrival of
          None \<Rightarrow> bindP (shutdown E S path) (\<lambda>_. ret None)
        | Some client_sock \<Rightarrow> bindP (world_does (sv_thread S 30 client_sock)) (\<lambda>_. ret (Some client_sock))))
     (\<lambda>e. ret None)"

partial_function (option) accept_loop ::
  "'w serial_env \<Rightarrow> 'w server_env \<Rightarrow> pystr \<Rightarrow> 'w bridge \<Rightarrow> ((exn + unit) \<times> 'w bridge) option" where
  "accept_loop E S path s =
     (if \<not> br_running s then Some (Inr (), s)
      else case accept_once E S path s of
          None \<Rightarrow> None
        | Some (Inl e, s') \<Rightarrow> Some (Inl e, s')
        | Some (Inr _, s') \<Rightarrow> accept_loop E S path s')"

definition close_server :: "'w server_env \<Rightarrow> pystr \<Rightarrow> ('w bridge, unit) prog" where
  "close_server S path =
     bindP (world_does (sv_close S)) (\<lambda>_. unlink_socket S path)"

definition start_unix_server :: "'w serial_env \<Rightarrow> 'w server_env \<Rightarrow> pystr \<Rightarrow> ('w bridge, unit) prog" where
  "start_unix_server E S path =
     bindP (open_server S path) (\<lambda>_.
     bindP (accept_loop E S path) (\<lambda>_.
     close_server S path))"

definition run :: "'w serial_env \<Rightarrow> 'w server_env \<Rightarrow> pystr \<Rightarrow> int \<Rightarrow> pystr \<Rightarrow> ('w bridge, unit) prog" where
  "run E S serial_port baudrate path =
     bindP (connect_serial E serial_port baudrate) (\<lambda>connected.
     if \<not> connected then raise (SystemExit 1)
     else start_unix_server E S path)"

text \<open>\<open>main\<close> on the parsed arguments: a new \<open>ESP32AgentBridge\<close>, and \<open>run\<close>.\<close>

definition new_bridge :: "'w \<Rightarrow> 'w bridge" where
  "new_bridge w = \<lparr>br_serial = None, br_lock = False, br_running = True, br_world = w\<rparr>"

definition bridge_main ::
  "'w serial_env \<Rightarrow> 'w server_env \<Rightarrow> pystr \<Rightarrow> pystr \<Rightarrow> int \<Rightarrow> 'w \<Rightarrow> ((exn + unit) \<times> 'w bridge) option" where
  "bridge_main E S serial_port socket_path baudrate w =
     run E S serial_port baudrate socket_path (new_bridge w)"

subsection \<open>The threads together\<close>

text \<open>
  The bridge with the threads of its clients. A step is a turn of the accept loop or a turn of one
  client's loop: the turns of two clients share nothing but the serial port, which they use under the
  lock. A daemon thread ends with the process.
\<close>

record 'w system =
  sy_bridge :: "'w bridge"
  sy_clients :: "'w sock_env list"
  sy_over :: bool

inductive system_step ::
  "'w serial_env \<Rightarrow> 'w server_env \<Rightarrow> pystr \<Rightarrow> 'w system \<Rightarrow> 'w system \<Rightarrow> bool"
  for E :: "'w serial_env" and S :: "'w server_env" and path :: pystr where
  accepted: "\<not> sy_over \<sigma> \<Longrightarrow> br_running (sy_bridge \<sigma>) \<Longrightarrow> accept_once E S path (sy_bridge \<sigma>) = Some (Inr a, b) \<Longrightarrow>
    system_step E S path \<sigma> (\<sigma>\<lparr>sy_bridge := b, sy_clients := sy_clients \<sigma> @ (case a of None \<Rightarrow> [] | Some K \<Rightarrow> [K])\<rparr>)"
| exits: "\<not> sy_over \<sigma> \<Longrightarrow> br_running (sy_bridge \<sigma>) \<Longrightarrow> accept_once E S path (sy_bridge \<sigma>) = Some (Inl e, b) \<Longrightarrow>
    system_step E S path \<sigma> (\<sigma>\<lparr>sy_bridge := b, sy_clients := [], sy_over := True\<rparr>)"
| closes: "\<not> sy_over \<sigma> \<Longrightarrow> \<not> br_running (sy_bridge \<sigma>) \<Longrightarrow> close_server S path (sy_bridge \<sigma>) = Some (r, b) \<Longrightarrow>
    system_step E S path \<sigma> (\<sigma>\<lparr>sy_bridge := b, sy_clients := [], sy_over := True\<rparr>)"
| serves: "\<not> sy_over \<sigma> \<Longrightarrow> br_running (sy_bridge \<sigma>) \<Longrightarrow> K \<in> set (sy_clients \<sigma>) \<Longrightarrow>
    serve_once E K (sy_bridge \<sigma>) = Some (Inr True, b) \<Longrightarrow>
    system_step E S path \<sigma> (\<sigma>\<lparr>sy_bridge := b\<rparr>)"
| leaves: "\<not> sy_over \<sigma> \<Longrightarrow> K \<in> set (sy_clients \<sigma>) \<Longrightarrow>
    (if br_running (sy_bridge \<sigma>) then serve_once E K (sy_bridge \<sigma>) = Some (r, b) \<and> r \<noteq> Inr True
     else b = sy_bridge \<sigma>) \<Longrightarrow>
    world_does (sock_close K) b = Some (q, b') \<Longrightarrow>
    system_step E S path \<sigma> (\<sigma>\<lparr>sy_bridge := b', sy_clients := remove1 K (sy_clients \<sigma>)\<rparr>)"

inductive system_reachable ::
  "'w serial_env \<Rightarrow> 'w server_env \<Rightarrow> pystr \<Rightarrow> 'w bridge \<Rightarrow> 'w system \<Rightarrow> bool"
  for E :: "'w serial_env" and S :: "'w server_env" and path :: pystr and s :: "'w bridge" where
  listening: "open_server S path s = Some (Inr (), b) \<Longrightarrow>
    system_reachable E S path s \<lparr>sy_bridge = b, sy_clients = [], sy_over = False\<rparr>"
| moves: "system_reachable E S path s \<sigma> \<Longrightarrow> system_step E S path \<sigma> \<sigma>' \<Longrightarrow> system_reachable E S path s \<sigma>'"

end
