(* ===== verification/BridgeProps.thy ===== *)
theory BridgeProps
  imports AgentBridge
begin

text \<open>
  What the agent bridge promises: the fields it builds and takes apart are each other's inverses,
  every request to the device returns and leaves the serial lock free, the replies the client
  gets for the replies of the device, how the client loop cuts its input into requests, and
  where the code gives up, loses data or signs less than it was asked to.
\<close>

subsection \<open>Fields\<close>

lemma ssh_stringE:
  assumes "ssh_string data = Inr bs"
  obtains h where "bs = h @ data" "pack_be32 (length data) = Inr h" "length h = 4"
    "unpack_be32 h = Inr (length data)"
  using assms by (auto simp: ssh_string_def bindE_Inr_iff codec_simps)

lemma unpack_at:
  "i = length xs \<Longrightarrow> pack_be32 n = Inr h \<Longrightarrow> unpack_be32 (slice i (i + 4) (xs @ h @ ys)) = Inr n"
  by (simp add: slice_def codec_simps)

lemma unpack_front: "pack_be32 n = Inr h \<Longrightarrow> unpack_be32 (take 4 (h @ ys)) = Inr n"
  by (simp add: codec_simps)

lemma slice_at: "i = length xs \<Longrightarrow> j = i + length d \<Longrightarrow> slice i j (xs @ d @ ys) = d"
  by (simp add: slice_def)

lemma extract_raw_key_fields:
  assumes "ssh_string t = Inr ts" and "ssh_string k = Inr ks"
  shows "extract_raw_key (ts @ ks @ rest) = Inr k"
proof -
  from assms(1) obtain h where h: "ts = h @ t" "pack_be32 (length t) = Inr h" "length h = 4"
    by (rule ssh_stringE)
  from assms(2) obtain g where g: "ks = g @ k" "pack_be32 (length k) = Inr g" "length g = 4"
    by (rule ssh_stringE)
  let ?i = "4 + length t"
  have "unpack_be32 (take 4 (ts @ ks @ rest)) = Inr (length t)"
    using h unpack_front [OF h(2), of "t @ ks @ rest"] by simp
  moreover have "unpack_be32 (slice ?i (?i + 4) (ts @ ks @ rest)) = Inr (length k)"
    using h g unpack_at [of ?i "h @ t" "length k" g "k @ rest"] by simp
  moreover have "slice (?i + 4) (?i + 4 + length k) (ts @ ks @ rest) = k"
    using h g slice_at [of "?i + 4" "h @ t @ g" "?i + 4 + length k" k rest] by simp
  ultimately show ?thesis by (simp add: extract_raw_key_def Let_def)
qed

lemma build_ed25519_key_blob_Inr:
  "build_ed25519_key_blob raw = Inr blob \<longleftrightarrow>
    (\<exists>ts ks. ssh_string (ascii ''ssh-ed25519'') = Inr ts \<and> ssh_string raw = Inr ks \<and> blob = ts @ ks)"
  by (auto simp: build_ed25519_key_blob_def bindE_Inr_iff)

lemma sig_blob_is_key_blob: "build_ed25519_sig_blob = build_ed25519_key_blob"
  by (simp add: fun_eq_iff build_ed25519_sig_blob_def build_ed25519_key_blob_def)

lemma build_ed25519_key_blob_ok:
  "length raw < 2 ^ 32 \<Longrightarrow> \<exists>blob. build_ed25519_key_blob raw = Inr blob \<and> length blob = 19 + length raw"
  using ssh_string_Inr [of raw] ssh_string_Inr [of "ascii ''ssh-ed25519''"]
  by (auto simp: build_ed25519_key_blob_def)

lemma sign_fields_complete:
  assumes "ssh_string blob = Inr b" and "ssh_string d = Inr ds" and "pack_be32 flags = Inr f"
  shows "sign_fields (b @ ds @ f @ rest) = Inr (Some (blob, d, flags))"
proof -
  from assms(1) obtain h where h: "b = h @ blob" "pack_be32 (length blob) = Inr h" "length h = 4"
    by (rule ssh_stringE)
  from assms(2) obtain g where g: "ds = g @ d" "pack_be32 (length d) = Inr g" "length g = 4"
    by (rule ssh_stringE)
  have f: "length f = 4" using assms(3) by (simp add: codec_simps)
  let ?p = "b @ ds @ f @ rest" and ?i = "4 + length blob"
  have "unpack_be32 (slice 0 4 ?p) = Inr (length blob)"
    using h unpack_front [OF h(2)] by simp
  moreover have "unpack_be32 (slice ?i (?i + 4) ?p) = Inr (length d)"
    using h g unpack_at [of ?i "h @ blob" "length d" g "d @ f @ rest"] by simp
  moreover have "unpack_be32 (slice (?i + 4 + length d) (?i + 4 + length d + 4) ?p) = Inr flags"
    using h g assms(3) unpack_at [of "?i + 4 + length d" "h @ blob @ g @ d" flags f rest] by simp
  moreover have "slice 4 ?i ?p = blob"
    using h slice_at [of 4 h ?i blob] by simp
  moreover have "slice (?i + 4) (?i + 4 + length d) ?p = d"
    using h g slice_at [of "?i + 4" "h @ blob @ g" "?i + 4 + length d" d "f @ rest"] by simp
  ultimately show ?thesis
    using h g f by (simp add: sign_fields_def Let_def)
qed

text \<open>
  The declared length of the data is not compared with what is there: a shorter rest is signed,
  with flags 0.
\<close>

lemma sign_fields_short_data:
  assumes "ssh_string blob = Inr b" and "pack_be32 n = Inr g" and "length d \<le> n"
  shows "sign_fields (b @ g @ d) = Inr (Some (blob, d, 0))"
proof -
  from assms(1) obtain h where h: "b = h @ blob" "pack_be32 (length blob) = Inr h" "length h = 4"
    by (rule ssh_stringE)
  have g: "length g = 4" using assms(2) by (simp add: codec_simps)
  let ?p = "b @ g @ d" and ?i = "4 + length blob"
  have "unpack_be32 (slice 0 4 ?p) = Inr (length blob)"
    using h unpack_front [OF h(2)] by simp
  moreover have "unpack_be32 (slice ?i (?i + 4) ?p) = Inr n"
    using h assms(2) unpack_at [of ?i "h @ blob" n g d] by simp
  moreover have "slice 4 ?i ?p = blob"
    using h slice_at [of 4 h ?i blob] by simp
  moreover have "slice (?i + 4) (?i + 4 + n) ?p = d"
    using h g assms(3) by (simp add: slice_def)
  ultimately show ?thesis
    using h g assms(3) by (simp add: sign_fields_def Let_def)
qed

subsection \<open>A bridge on the simulated port\<close>

definition sim_bridge :: "(bytes \<Rightarrow> bytes) \<Rightarrow> sim bridge" where
  "sim_bridge dev = \<lparr>br_serial = Some 5, br_lock = False, br_running = True,
     br_world = \<lparr>sim_clock = 0, sim_in = [], sim_device = dev, sim_out = []\<rparr>\<rparr>"

lemma sim_bridge_sel [simp]:
  "br_serial (sim_bridge dev) = Some 5" "\<not> br_lock (sim_bridge dev)" "br_running (sim_bridge dev)"
  "sim_clock (br_world (sim_bridge dev)) = 0" "sim_in (br_world (sim_bridge dev)) = []"
  "sim_device (br_world (sim_bridge dev)) = dev"
  by (simp_all add: sim_bridge_def)

subsection \<open>Requests return and leave the lock free\<close>

text \<open>
  C2. Every agent request returns, whatever its bytes and whatever the device sends, provided the
  clock runs and the port's \<open>read\<close> obeys its timeout; and whether it returns a reply or raises, the
  serial lock is free afterwards and the \<open>running\<close> flag is as it was.
\<close>

theorem handle_agent_request_returns:
  assumes "live_port E clk coming" and "\<not> br_lock s"
  shows "\<exists>r s'. handle_agent_request E data s = Some (r, s') \<and> \<not> br_lock s'
    \<and> br_running s' = br_running s"
proof -
  have g: "guarded (\<lambda>_. True) False (br_running s) s"
    using assms(2) by (simp add: guarded_def)
  then obtain r s' where run: "handle_agent_request E data s = Some (r, s')"
    using comes_backD [OF request_returns [OF assms(1)]] by blast
  then have "guarded (\<lambda>_. True) False (br_running s) s'"
    using keepsD [OF request_keeps [OF serial_keeps_True]] g by blast
  with run show ?thesis by (auto simp: guarded_def)
qed

theorem handle_agent_request_returns_witness:
  "\<exists>r s'. handle_agent_request sim_env [11] (sim_bridge (\<lambda>_. [])) = Some (r, s') \<and> \<not> br_lock s'
    \<and> br_running s' = br_running (sim_bridge (\<lambda>_. []))"
  by (rule handle_agent_request_returns [OF sim_live]) simp

subsection \<open>One reader, two copies\<close>

text \<open>
  C14. With a port open, \<open>recv_from_esp32\<close> of the bridge agrees with \<open>read_packet\<close> of the key tool:
  the same packet (or none) from the same bytes with the port's timeout restored, no result where
  the other has none, and \<open>None\<close> where the port raises.
\<close>

theorem recv_agrees_with_read_packet:
  assumes "br_serial s = Some old"
  shows "case read_packet E timeout (br_world s) of
      None \<Rightarrow> recv_from_esp32 E timeout s = None
    | Some (Inr x, w) \<Rightarrow> recv_from_esp32 E timeout s = Some (Inr x, s\<lparr>br_world := w\<rparr>)
    | Some (Inl e, w) \<Rightarrow> is_Exception e \<longrightarrow>
        (\<exists>t. recv_from_esp32 E timeout s = Some (Inr None, s\<lparr>br_serial := t, br_world := w\<rparr>))"
  using assms by (rule recv_from_esp32_cases)

theorem recv_agrees_with_read_packet_witness:
  "case read_packet sim_env 10 (br_world (sim_bridge (\<lambda>_. []))) of
      None \<Rightarrow> recv_from_esp32 sim_env 10 (sim_bridge (\<lambda>_. [])) = None
    | Some (Inr x, w) \<Rightarrow> recv_from_esp32 sim_env 10 (sim_bridge (\<lambda>_. [])) =
        Some (Inr x, (sim_bridge (\<lambda>_. []))\<lparr>br_world := w\<rparr>)
    | Some (Inl e, w) \<Rightarrow> is_Exception e \<longrightarrow>
        (\<exists>t. recv_from_esp32 sim_env 10 (sim_bridge (\<lambda>_. [])) =
          Some (Inr None, (sim_bridge (\<lambda>_. []))\<lparr>br_serial := t, br_world := w\<rparr>))"
  by (rule recv_agrees_with_read_packet [of _ 5]) simp

subsection \<open>Listing the key\<close>

lemma identities_reply_key:
  assumes one: "pack_be32 1 = Inr one" and ks: "ssh_string key = Inr ks" and len: "length key < 2 ^ 31"
  shows "\<exists>blob b c. identities_reply 12 (one @ ks @ tail) = Inr ([12] @ one @ b @ c) \<and>
    ssh_string blob = Inr b \<and> build_ed25519_key_blob key = Inr blob \<and>
    ssh_string (ascii ''ESP32-SSH-Agent'') = Inr c"
proof -
  from ks obtain h where h: "ks = h @ key" "pack_be32 (length key) = Inr h" "length h = 4"
    by (rule ssh_stringE)
  have o4: "length one = 4" using one by (simp add: codec_simps)
  obtain blob where blob: "build_ed25519_key_blob key = Inr blob" "length blob < 2 ^ 32"
    using build_ed25519_key_blob_ok [of key] len by auto
  obtain b where b: "ssh_string blob = Inr b"
    using ssh_string_Inr [OF blob(2)] by blast
  obtain c where c: "ssh_string (ascii ''ESP32-SSH-Agent'') = Inr c"
    using ssh_string_Inr [of "ascii ''ESP32-SSH-Agent''"] by auto
  have "unpack_be32 (slice 0 4 (one @ ks @ tail)) = Inr 1"
    using unpack_front [OF one, of "ks @ tail"] by simp
  moreover have "unpack_be32 (slice 4 8 (one @ ks @ tail)) = Inr (length key)"
    using h o4 unpack_at [of 4 one "length key" h "key @ tail"] by simp
  moreover have "slice 8 (8 + length key) (one @ ks @ tail) = key"
    using h o4 slice_at [of 8 "one @ h" "8 + length key" key tail] by simp
  ultimately have "identities_reply 12 (one @ ks @ tail) = Inr ([12] @ one @ b @ c)"
    using blob b c one h o4 by (simp add: identities_reply_def Let_def)
  with blob b c show ?thesis by blast
qed

text \<open>
  C3. \<open>request_identities\<close> end to end: if the device answers the request packet (after any debug
  text without a zero byte) with one key, the agent's reply names one identity whose blob is the
  \<open>ssh-ed25519\<close> blob of that very key, and nothing of the device's answer is left in the buffer.
\<close>

theorem request_identities_end_to_end:
  assumes "buffered_port E calm pend S T" and "answering_port E calm pend device"
    and "T < S + 10" and "calm (br_world s)" and "br_serial s = Some old" and "\<not> br_lock s"
    and "pend (br_world s) = []" and "device (packet_header 11 []) = noise @ fr" and "0 \<notin> set noise"
    and "pack_be32 1 = Inr one" and "ssh_string key = Inr ks"
    and "frame 12 (one @ ks @ tail) = Inr fr" and "length (one @ ks @ tail) < 4096"
  shows "\<exists>blob b c w'. request_identities E s = Some (Inr ([12] @ one @ b @ c), s\<lparr>br_world := w'\<rparr>)
    \<and> ssh_string blob = Inr b \<and> build_ed25519_key_blob key = Inr blob
    \<and> extract_raw_key blob = Inr key
    \<and> ssh_string (ascii ''ESP32-SSH-Agent'') = Inr c \<and> pend w' = []"
proof -
  have "length key < 2 ^ 31"
    using assms(11,13) by (auto simp: codec_simps)
  then obtain blob b c where r: "identities_reply 12 (one @ ks @ tail) = Inr ([12] @ one @ b @ c)"
    "ssh_string blob = Inr b" "build_ed25519_key_blob key = Inr blob"
    "ssh_string (ascii ''ESP32-SSH-Agent'') = Inr c"
    using identities_reply_key [OF assms(10,11)] by blast
  have raw: "extract_raw_key blob = Inr key"
    using r(3) extract_raw_key_fields [where rest = "[]"] by (fastforce simp: build_ed25519_key_blob_Inr)
  from exchange_answered [OF assms(1-6), of 11 "[]" noise fr "[]" 12 "one @ ks @ tail"]
    assms(7-9,12,13)
  obtain w' where w': "pend w' = []"
    "exchange E 11 [] 10 (ret (Inl create_failure)) (\<lambda>r. ret (Inr r)) s =
      with_lock (ret (Inr (Some (12, one @ ks @ tail)))) (s\<lparr>br_world := w'\<rparr>)"
    by fastforce
  show ?thesis
    using w' r raw assms(6)
    by (intro exI [of _ blob] exI [of _ b] exI [of _ c] exI [of _ w'])
      (simp add: exchange_folds run_simps)
qed

theorem request_identities_end_to_end_witness:
  defines "reply \<equiv> [0, 0, 0, 17, 12, 0, 0, 0, 1, 0, 0, 0, 4, 1, 2, 3, 4, 0, 0, 0, 0]"
  shows "\<exists>blob b c w'. request_identities sim_env (sim_bridge (\<lambda>_. ascii ''ok'' @ reply)) =
      Some (Inr ([12] @ [0, 0, 0, 1] @ b @ c), (sim_bridge (\<lambda>_. ascii ''ok'' @ reply))\<lparr>br_world := w'\<rparr>)
    \<and> ssh_string blob = Inr b \<and> build_ed25519_key_blob [1, 2, 3, 4] = Inr blob
    \<and> extract_raw_key blob = Inr [1, 2, 3, 4]
    \<and> ssh_string (ascii ''ESP32-SSH-Agent'') = Inr c \<and> sim_in w' = []"
  by (rule request_identities_end_to_end [OF sim_buffered [where c = 0] sim_answering [where c = 0],
        where noise = "ascii ''ok''" and fr = reply and tail = "[0, 0, 0, 0]"
          and ks = "[0, 0, 0, 4, 1, 2, 3, 4]"])
    (simp_all add: reply_def frame_def ssh_string_def pack_be32_def)

subsection \<open>Signing\<close>

lemma sign_payload_fields:
  assumes "ssh_string t = Inr ts" and "ssh_string key = Inr ks" and "ssh_string msg = Inr d"
  shows "sign_payload (ts @ ks) msg flags = (if flags < 256 then Inr (ks @ d @ [of_nat flags])
    else Inl ValueError)"
  using extract_raw_key_fields [OF assms(1,2), of "[]"] assms
  by (simp add: sign_payload_def byte_of_def)

lemma sign_dispatch:
  assumes "ssh_string blob = Inr b" and "ssh_string msg = Inr d" and "pack_be32 flags = Inr f"
  shows "handle_agent_request E (13 # b @ d @ f) s = sign_request E blob msg flags s"
  using sign_fields_complete [OF assms, of "[]"] by (simp add: handle_agent_request_def run_simps)

lemma sign_request_answered:
  assumes "buffered_port E calm pend S T" and "answering_port E calm pend device"
    and "T < S + 30" and "calm (br_world s)" and "br_serial s = Some old" and "\<not> br_lock s"
    and "pend (br_world s) = []" and "0 \<notin> set noise"
    and "ssh_string t = Inr ts" and "ssh_string key = Inr ks"
    and "ssh_string msg = Inr d" and "flags < 256"
    and "p = ks @ d @ [of_nat flags]" and "device (packet_header 13 p @ p) = noise @ fr"
    and "ssh_string sig = Inr g" and "frame 14 (g @ tail) = Inr fr" and "length (g @ tail) < 4096"
  shows "\<exists>blob r w'. sign_request E (ts @ ks) msg flags s = Some (Inr (14 # r), s\<lparr>br_world := w'\<rparr>)
    \<and> build_ed25519_sig_blob sig = Inr blob \<and> ssh_string blob = Inr r \<and> pend w' = []"
proof -
  from assms(15) obtain h where h: "g = h @ sig" "pack_be32 (length sig) = Inr h" "length h = 4"
    by (rule ssh_stringE)
  obtain blob where blob: "build_ed25519_sig_blob sig = Inr blob" "length blob < 2 ^ 32"
    using build_ed25519_key_blob_ok [of sig] h assms(17) by (auto simp: sig_blob_is_key_blob)
  obtain r where r: "ssh_string blob = Inr r" using ssh_string_Inr [OF blob(2)] by blast
  have "unpack_be32 (slice 0 4 (g @ tail)) = Inr (length sig)"
    using h unpack_front [OF h(2), of "sig @ tail"] by simp
  moreover have "slice 4 (4 + length sig) (g @ tail) = sig"
    using h slice_at [of 4 h "4 + length sig" sig tail] by simp
  ultimately have reply: "sign_reply 14 (g @ tail) = Inr (14 # r)"
    using h blob r by (simp add: sign_reply_def Let_def)
  from exchange_answered [OF assms(1-6), of 13 p noise fr "[]" 14 "g @ tail"] assms(7,8,14,16,17)
  obtain w' where w': "pend w' = []"
    "exchange E 13 p 30 (ret (Inl create_failure)) (\<lambda>r. ret (Inr r)) s =
      with_lock (ret (Inr (Some (14, g @ tail)))) (s\<lparr>br_world := w'\<rparr>)"
    by fastforce
  have "sign_request E (ts @ ks) msg flags s = Some (Inr (14 # r), s\<lparr>br_world := w'\<rparr>)"
    using w' reply assms(6,12,13) sign_payload_fields [OF assms(9,10,11), of flags]
    by (simp add: exchange_folds run_simps)
  with w'(1) blob r show ?thesis by blast
qed



text \<open>
  Sign flags of 256 and more, which the agent protocol allows (the field has 32 bits), are not
  answered at all: \<open>bytes([flags])\<close> raises before anything is sent to the device.
\<close>

theorem sign_flags_over_a_byte_raise:
  assumes "ssh_string t = Inr ts" and "ssh_string key = Inr ks" and "ssh_string (ts @ ks) = Inr b"
    and "ssh_string msg = Inr d" and "pack_be32 flags = Inr f" and "256 \<le> flags"
  shows "handle_agent_request E (13 # b @ d @ f) s = Some (Inl ValueError, s)"
  using sign_dispatch [OF assms(3-5)] sign_payload_fields [OF assms(1,2,4), of flags] assms(6)
  by (simp add: sign_request_def run_simps)

theorem sign_flags_over_a_byte_raise_witness:
  "handle_agent_request sim_env
     (13 # [0, 0, 0, 11, 0, 0, 0, 1, 65, 0, 0, 0, 2, 1, 2] @ [0, 0, 0, 1, 99] @ [0, 0, 1, 0])
     (sim_bridge (\<lambda>_. [])) = Some (Inl ValueError, sim_bridge (\<lambda>_. []))"
  by (rule sign_flags_over_a_byte_raise [where t = "[65]" and key = "[1, 2]" and ts = "[0, 0, 0, 1, 65]"
        and ks = "[0, 0, 0, 2, 1, 2]" and msg = "[99]" and flags = 256])
    (simp_all add: ssh_string_def pack_be32_def)

text \<open>
  A sign request whose data is shorter than its length field says is not refused: the
  device is asked to sign the shorter data, with flags 0.
\<close>

theorem truncated_sign_request_is_signed:
  assumes "ssh_string blob = Inr b" and "pack_be32 n = Inr g" and "length d \<le> n"
  shows "handle_agent_request E (13 # b @ g @ d) s = sign_request E blob d 0 s"
  using sign_fields_short_data [OF assms] by (simp add: handle_agent_request_def run_simps)

theorem truncated_sign_request_is_signed_witness:
  "handle_agent_request sim_env (13 # [0, 0, 0, 1, 65] @ [0, 0, 0, 32] @ [1, 2]) (sim_bridge (\<lambda>_. []))
    = sign_request sim_env [65] [1, 2] 0 (sim_bridge (\<lambda>_. []))"
  by (rule truncated_sign_request_is_signed [where n = 32])
    (simp_all add: ssh_string_def pack_be32_def)

lemma exchange_reply_SomeE:
  assumes "exchange E m data timeout (ret (Inl c)) (\<lambda>r. ret (Inr r)) s = Some (Inr x, s')"
  obtains (unsent) "x = Inl c"
    | (answered) s1 s2 y where "send_to_esp32 E m data (s\<lparr>br_lock := True\<rparr>) = Some (Inr True, s1)"
        "recv_from_esp32 E timeout s1 = Some (Inr y, s2)" "x = Inr y"
  using assms
  by (auto simp: exchange_def run_simps split: if_splits option.splits sum.splits)



text \<open>
  The packet header carries the length of the data modulo \<open>2 ^ 24\<close>: below \<open>2 ^ 24\<close> bytes the device
  reads back the type and the true length, above it the length is cut without an error.
\<close>

theorem packet_header_length:
  "\<exists>a b c. packet_header m data = [m, a, b, c] \<and>
    unpack_be32 [0, a, b, c] = Inr (length data mod 2 ^ 24)"
proof -
  have "length data mod 2 ^ 24 = length data div 65536 mod 256 * 65536
      + length data div 256 mod 256 * 256 + length data mod 256"
    using mod_mult2_eq [of "length data" 256 65536] mod_mult2_eq [of "length data div 256" 256 256]
      div_mult2_eq [of "length data" 256 256] by simp
  then show ?thesis
    by (simp add: packet_header_def Let_def and_255 drop_bit_eq_div unat_of_nat_byte)
qed

text \<open>
  C16. The bridge does not match replies to requests: if a late \<open>SUCCESS\<close> of an earlier request is still
  in the port's buffer, \<open>unlock\<close> reports success for any password, and the device's real answer stays
  in the buffer for the next request.
\<close>

theorem unlock_takes_a_stale_success:
  assumes "buffered_port E calm pend S T" and "answering_port E calm pend device"
    and "T < S + 30" and "calm (br_world s)" and "br_serial s = Some old" and "\<not> br_lock s"
    and "frame 6 late = Inr fr" and "length late < 4096" and "pend (br_world s) = fr"
  shows "\<exists>w'. unlock E password s = Some (Inr [6], s\<lparr>br_world := w'\<rparr>)
    \<and> pend w' = device (packet_header 3 password @ password)"
proof -
  obtain w' where w': "pend w' = device (packet_header 3 password @ password)"
    "unlock E password s = with_lock (ret [6]) (s\<lparr>br_world := w'\<rparr>)"
    unfolding exchange_folds
    using exchange_answered [OF assms(1-6), where m = 3 and data = password and noise = "[]"
        and fr = fr and rest = "device (packet_header 3 password @ password)" and t = 6 and payload = late
        and unsent = "ret [5]" and k = "\<lambda>result. case result of None \<Rightarrow> ret [5]
          | Some (msg_type, _) \<Rightarrow> if msg_type = 6 then ret [6] else ret [5]"] assms(7-9)
    by auto
  then show ?thesis
    using assms(6) by (intro exI [of _ w']) (simp add: run_simps)
qed

theorem unlock_takes_a_stale_success_witness:
  defines "w \<equiv> \<lparr>sim_clock = 0, sim_in = [0, 0, 0, 1, 6], sim_device = (\<lambda>_. [0, 0, 0, 1, 5]), sim_out = []\<rparr>"
  shows "\<exists>w'. unlock sim_env (ascii ''wrong'')
      \<lparr>br_serial = Some 5, br_lock = False, br_running = True, br_world = w\<rparr>
      = Some (Inr [6], \<lparr>br_serial = Some 5, br_lock = False, br_running = True, br_world = w\<rparr>\<lparr>br_world := w'\<rparr>)
    \<and> sim_in w' = [0, 0, 0, 1, 5]"
  using unlock_takes_a_stale_success [OF sim_buffered [where c = 0 and dev = "\<lambda>_. [0, 0, 0, 1, 5]"]
      sim_answering [where c = 0 and dev = "\<lambda>_. [0, 0, 0, 1, 5]"],
      of "\<lparr>br_serial = Some 5, br_lock = False, br_running = True, br_world = w\<rparr>" 5 "[]" "[0, 0, 0, 1, 6]"]
  by (simp add: w_def frame_def ssh_string_def pack_be32_def)

end
