(* ===== verification/ClientLoop.thy ===== *)
theory ClientLoop
  imports BridgeProps
begin

text \<open>
  \<open>handle_client\<close>: how the loop cuts the byte stream of a client into requests. A request whose
  header arrives in one piece is read whole however its body is fragmented, and answered once; the
  loop ends; and a receive timeout inside a request makes the loop read the rest of that request
  as new requests.
\<close>

subsection \<open>A simulated desk\<close>

text \<open>
  The simulated port together with a scripted socket: each receive gives the next entry of the script
  (the rest of an entry that is longer than asked for stays in front), an exception entry is raised,
  and at the end of the script the peer has closed.
\<close>

record desk = sim +
  sk_in :: "(exn + bytes) list"
  sk_out :: bytes

definition desk_sock :: "desk sock_env" where
  "desk_sock = \<lparr>
     sock_recv = (\<lambda>n w. case sk_in w of
         [] \<Rightarrow> (Inr [], w)
       | Inl e # script \<Rightarrow> (Inl e, w\<lparr>sk_in := script\<rparr>)
       | Inr bs # script \<Rightarrow> if length bs \<le> n then (Inr bs, w\<lparr>sk_in := script\<rparr>)
           else (Inr (take n bs), w\<lparr>sk_in := Inr (drop n bs) # script\<rparr>)),
     sock_send = (\<lambda>bs w. (Inr (length bs), w\<lparr>sk_out := sk_out w @ bs\<rparr>)),
     sock_close = (\<lambda>w. (Inr (), w))\<rparr>"

lemma desk_sock_sel [simp]:
  "sock_recv desk_sock n w = (case sk_in w of
      [] \<Rightarrow> (Inr [], w)
    | Inl e # script \<Rightarrow> (Inl e, w\<lparr>sk_in := script\<rparr>)
    | Inr bs # script \<Rightarrow> if length bs \<le> n then (Inr bs, w\<lparr>sk_in := script\<rparr>)
        else (Inr (take n bs), w\<lparr>sk_in := Inr (drop n bs) # script\<rparr>))"
  "sock_send desk_sock bs w = (Inr (length bs), w\<lparr>sk_out := sk_out w @ bs\<rparr>)"
  "sock_close desk_sock w = (Inr (), w)"
  by (simp_all add: desk_sock_def)

definition desk_bridge :: "(bytes \<Rightarrow> bytes) \<Rightarrow> (exn + bytes) list \<Rightarrow> desk bridge" where
  "desk_bridge dev script = \<lparr>br_serial = Some 5, br_lock = False, br_running = True,
     br_world = \<lparr>sim_clock = 0, sim_in = [], sim_device = dev, sim_out = [],
       sk_in = script, sk_out = []\<rparr>\<rparr>"

subsection \<open>Sockets\<close>

text \<open>
  \<open>chunked K inp\<close>: \<open>recv(n)\<close> returns between one and \<open>n\<close> of the bytes \<open>inp w\<close> the peer has
  sent, the first ones.
\<close>

definition chunked :: "'w sock_env \<Rightarrow> ('w \<Rightarrow> bytes) \<Rightarrow> bool" where
  "chunked K inp \<longleftrightarrow> (\<forall>w n. 0 < n \<and> inp w \<noteq> [] \<longrightarrow>
     (\<exists>k w'. 0 < k \<and> k \<le> n \<and> k \<le> length (inp w) \<and>
        sock_recv K n w = (Inr (take k (inp w)), w') \<and> inp w' = drop k (inp w)))"

lemma recv_rest_chunked:
  assumes "chunked K inp" and "length data \<le> len" and "len - length data \<le> length (inp w)"
  shows "\<exists>w'. recv_rest K len data w = Some (Inr (data @ take (len - length data) (inp w)), w')
    \<and> inp w' = drop (len - length data) (inp w)"
  using assms(2,3)
proof (induction "len - length data" arbitrary: data w rule: less_induct)
  case less
  show ?case
  proof (cases "length data < len")
    case False
    then show ?thesis using less.prems by (subst recv_rest.simps) auto
  next
    case True
    let ?n = "len - length data"
    from True less.prems have "0 < ?n" and "inp w \<noteq> []" by auto
    with assms(1) obtain k w1 where k: "0 < k" "k \<le> ?n" "k \<le> length (inp w)"
      "sock_recv K ?n w = (Inr (take k (inp w)), w1)" "inp w1 = drop k (inp w)"
      unfolding chunked_def by blast
    let ?data = "data @ take k (inp w)"
    have len': "length ?data = length data + k" using k by simp
    have "take k (inp w) \<noteq> []" using k by auto
    then have step: "recv_rest K len data w = recv_rest K len ?data w1"
      using True k by (subst recv_rest.simps) simp
    have "len - length ?data < ?n" "length ?data \<le> len" "len - length ?data \<le> length (inp w1)"
      using len' k less.prems by auto
    from less.hyps [OF this] obtain w' where
      w': "recv_rest K len ?data w1 = Some (Inr (?data @ take (len - length ?data) (inp w1)), w')"
      "inp w' = drop (len - length ?data) (inp w1)" by blast
    have "?data @ take (len - length ?data) (inp w1) = data @ take ?n (inp w)"
      using k len' take_add [of k "?n - k" "inp w"] by simp
    moreover have "drop (len - length ?data) (inp w1) = drop ?n (inp w)"
      using k len' by simp
    ultimately show ?thesis using step w' by metis
  qed
qed

text \<open>The second half of the loop's body: handle the request and send the framed reply.\<close>

definition answer :: "'w serial_env \<Rightarrow> 'w sock_env \<Rightarrow> bytes \<Rightarrow> ('w bridge, bool) prog" where
  "answer E K data = bindP (handle_agent_request E data) (\<lambda>response.
     bindP (lift_exn (pack_be32 (length response))) (\<lambda>h.
     bindP (on_world (world_call (sock_send K (h @ response)))) (\<lambda>_.
     ret True)))"

lemma serve_once_request:
  assumes "sock_recv K 4 (br_world s) = (Inr h, w1)" and "pack_be32 len = Inr h" and "len \<le> 65536"
    and "recv_rest K len [] w1 = Some (Inr data, w2)" and "length data = len"
  shows "serve_once E K s =
    tryP (answer E K data) (\<lambda>e. if e = SocketTimeout then ret True else ret False) (s\<lparr>br_world := w2\<rparr>)"
  using assms by (simp add: serve_once_def answer_def run_simps codec_simps)

text \<open>
  One turn of the client loop: when the four bytes of a request's length have been read, the loop
  reads exactly that request, however the stream is cut into pieces, handles exactly those bytes,
  and leaves what follows on the socket for the next turn.
\<close>

theorem serve_once_reads_one_request:
  assumes "chunked K inp" and "sock_recv K 4 (br_world s) = (Inr h, w1)"
    and "pack_be32 (length req) = Inr h" and "length req \<le> 65536" and "inp w1 = req @ rest"
  shows "\<exists>w2. inp w2 = rest \<and> serve_once E K s =
    tryP (answer E K req) (\<lambda>e. if e = SocketTimeout then ret True else ret False) (s\<lparr>br_world := w2\<rparr>)"
proof -
  obtain w2 where w2: "recv_rest K (length req) [] w1 = Some (Inr req, w2)" "inp w2 = rest"
    using recv_rest_chunked [OF assms(1), of "[]" "length req" w1] assms(5) by auto
  then show ?thesis
    using serve_once_request [OF assms(2-4) w2(1)] by blast
qed

text \<open>The scripted socket is chunked while its script has bytes only.\<close>

definition sk_bytes :: "desk \<Rightarrow> bytes" where
  "sk_bytes w = (if \<forall>e \<in> set (sk_in w). \<exists>b. e = Inr b \<and> b \<noteq> []
     then concat (map projr (sk_in w)) else [])"

lemma desk_chunked: "chunked desk_sock sk_bytes"
  unfolding chunked_def
proof (intro allI impI)
  fix w :: desk and n :: nat
  assume a: "0 < n \<and> sk_bytes w \<noteq> []"
  then have good: "\<forall>e \<in> set (sk_in w). \<exists>b. e = Inr b \<and> b \<noteq> []"
    by (auto simp: sk_bytes_def split: if_splits)
  with a obtain bs script where sk: "sk_in w = Inr bs # script" "bs \<noteq> []"
    by (cases "sk_in w") (auto simp: sk_bytes_def)
  show "\<exists>k w'. 0 < k \<and> k \<le> n \<and> k \<le> length (sk_bytes w) \<and>
      sock_recv desk_sock n w = (Inr (take k (sk_bytes w)), w') \<and> sk_bytes w' = drop k (sk_bytes w)"
  proof (cases "length bs \<le> n")
    case True
    then show ?thesis
      using sk good by (intro exI [of _ "length bs"] exI [of _ "w\<lparr>sk_in := script\<rparr>"])
        (auto simp: sk_bytes_def)
  next
    case False
    then show ?thesis
      using sk good a
      by (intro exI [of _ n] exI [of _ "w\<lparr>sk_in := Inr (drop n bs) # script\<rparr>"])
        (auto simp: sk_bytes_def)
  qed
qed

theorem serve_once_reads_one_request_witness:
  defines "s \<equiv> desk_bridge (\<lambda>_. []) [Inr [0, 0, 0, 2], Inr [17], Inr [9], Inr [0, 0]]"
  shows "\<exists>w2. sk_bytes w2 = [0, 0] \<and> serve_once sim_env desk_sock s =
    tryP (answer sim_env desk_sock [17, 9])
      (\<lambda>e. if e = SocketTimeout then ret True else ret False) (s\<lparr>br_world := w2\<rparr>)"
  by (rule serve_once_reads_one_request [OF desk_chunked, where h = "[0, 0, 0, 2]"
        and ?w1.0 = "br_world (desk_bridge (\<lambda>_. []) [Inr [17], Inr [9], Inr [0, 0]])"])
    (simp_all add: s_def desk_bridge_def pack_be32_def sk_bytes_def)

subsection \<open>The loop ends\<close>

text \<open>
  \<open>finite_socket K left\<close>: each receive that returns bytes or times out uses up one of finitely many
  (\<open>left\<close>) such events before the peer closes; sending does not bring new ones.
\<close>

definition finite_socket :: "'w sock_env \<Rightarrow> ('w \<Rightarrow> nat) \<Rightarrow> bool" where
  "finite_socket K left \<longleftrightarrow>
     (\<forall>w n r w'. sock_recv K n w = (r, w') \<longrightarrow> left w' \<le> left w \<and>
        (r = Inl SocketTimeout \<or> (\<exists>b. r = Inr b \<and> b \<noteq> []) \<longrightarrow> left w' < left w)) \<and>
     (\<forall>w bs r w'. sock_send K bs w = (r, w') \<longrightarrow> left w' \<le> left w)"

fun entry_size :: "exn + bytes \<Rightarrow> nat" where
  "entry_size (Inl e) = 1"
| "entry_size (Inr bs) = Suc (length bs)"

lemma desk_finite: "finite_socket desk_sock (\<lambda>w. sum_list (map entry_size (sk_in w)))"
  unfolding finite_socket_def
  by (auto split: list.splits sum.splits if_splits)

lemma desk_quiet: "serial_keeps sim_env (\<lambda>w :: desk. sum_list (map entry_size (sk_in w)) \<le> n)"
  unfolding serial_keeps_def by (auto split: if_splits)

lemma finite_socketD:
  assumes "finite_socket K left"
  shows "sock_recv K n w = (r, w') \<Longrightarrow> left w' \<le> left w"
    and "sock_recv K n w = (Inl SocketTimeout, w') \<Longrightarrow> left w' < left w"
    and "sock_recv K n w = (Inr b, w') \<Longrightarrow> b \<noteq> [] \<Longrightarrow> left w' < left w"
    and "sock_send K bs w = (q, w') \<Longrightarrow> left w' \<le> left w"
  using assms unfolding finite_socket_def by blast+

lemma recv_rest_finite:
  assumes "finite_socket K left"
  shows "\<exists>r w'. recv_rest K len data w = Some (r, w') \<and> left w' \<le> left w"
proof (induction "len - length data" arbitrary: data w rule: less_induct)
  case less
  obtain q w1 where rc: "sock_recv K (len - length data) w = (q, w1)" by fastforce
  have le: "left w1 \<le> left w" using finite_socketD(1) [OF assms rc] .
  show ?case
  proof (cases "length data < len \<and> (\<exists>c. q = Inr c \<and> c \<noteq> [])")
    case True
    then obtain c where c: "q = Inr c" "c \<noteq> []" "length data < len" by auto
    then have "len - length (data @ c) < len - length data"
      by (cases c) auto
    from less.hyps [OF this] obtain r w' where
      "recv_rest K len (data @ c) w1 = Some (r, w')" "left w' \<le> left w1" by blast
    with c rc le show ?thesis by (subst recv_rest.simps) auto
  next
    case False
    with rc le show ?thesis
      by (subst recv_rest.simps) (cases q; auto)
  qed
qed

lemma recv_rest_keeps:
  assumes "finite_socket K left"
  shows "keeps (\<lambda>w. left w \<le> n) (recv_rest K len data)"
proof (rule keepsI)
  fix w r w'
  assume "left w \<le> n" and "recv_rest K len data w = Some (r, w')"
  then show "left w' \<le> n" using recv_rest_finite [OF assms, of len data w] by auto
qed

lemma send_sock_keeps:
  "finite_socket K left \<Longrightarrow> keeps (\<lambda>w. left w \<le> n) (world_call (sock_send K bs))"
  by (rule keepsI) (fastforce simp: run_simps dest: finite_socketD(4))

lemma on_world_returns: "(\<And>w. m w \<noteq> None) \<Longrightarrow> comes_back P (on_world m)"
  by (auto simp: comes_back_def run_simps simp del: not_None_eq split: option.split)

text \<open>The body of the loop after its first receive.\<close>

definition turn :: "'w serial_env \<Rightarrow> 'w sock_env \<Rightarrow> bytes \<Rightarrow> ('w bridge, bool) prog" where
  "turn E K length_data =
     (if length length_data < 4 then ret False
      else bindP (lift_exn (unpack_be32 length_data)) (\<lambda>len.
        if len > 65536 then ret False
        else bindP (on_world (recv_rest K len [])) (\<lambda>data.
          if length data < len then ret False else answer E K data)))"

lemma serve_once_turn:
  "serve_once E K = tryP (bindP (on_world (world_call (sock_recv K 4))) (turn E K))
     (\<lambda>e. if e = SocketTimeout then ret True else ret False)"
  unfolding serve_once_def turn_def answer_def by (rule refl)

lemma turn_keeps:
  assumes "finite_socket K left" and "\<And>n. serial_keeps E (\<lambda>w. left w \<le> n)"
  shows "keeps (guarded (\<lambda>w. left w \<le> n) False r) (turn E K h)"
  unfolding turn_def answer_def
  by (intro keeps_intros keeps_on_world recv_rest_keeps [OF assms(1)] send_sock_keeps [OF assms(1)]
      request_keeps assms(2))

lemma turn_returns:
  assumes "finite_socket K left" and "live_port E clk coming"
  shows "comes_back (guarded (\<lambda>_. True) False r) (turn E K h)"
proof -
  have "recv_rest K len data w \<noteq> None" for len data w
    using recv_rest_finite [OF assms(1), of len data w] by auto
  moreover have "world_call f w \<noteq> None" for f :: "'a \<Rightarrow> (exn + nat) \<times> 'a" and w
    by (simp add: run_simps)
  ultimately show ?thesis
    unfolding turn_def answer_def
    by (intro total_intros keeps_intros keeps_on_world keeps_True on_world_returns
        request_keeps [OF serial_keeps_True] request_returns [OF assms(2)])
qed

lemma serve_once_progress:
  assumes fin: "finite_socket K left" and live: "live_port E clk coming"
    and quiet: "\<And>n. serial_keeps E (\<lambda>w. left w \<le> n)" and "\<not> br_lock s"
  shows "\<exists>r s'. serve_once E K s = Some (r, s') \<and> \<not> br_lock s' \<and> br_running s' = br_running s
    \<and> (r = Inr True \<longrightarrow> left (br_world s') < left (br_world s))"
proof -
  obtain q w1 where rc: "sock_recv K 4 (br_world s) = (q, w1)" by fastforce
  show ?thesis
  proof (cases q)
    case (Inl e)
    then show ?thesis
      using rc assms(4) finite_socketD(2) [OF fin, of 4 "br_world s" w1]
      by (cases "is_Exception e"; cases "e = SocketTimeout") (auto simp: serve_once_turn run_simps)
  next
    case (Inr h)
    show ?thesis
    proof (cases "h = []")
      case True
      then show ?thesis
        using rc Inr assms(4) by (simp add: serve_once_turn turn_def run_simps)
    next
      case False
      let ?s = "s\<lparr>br_world := w1\<rparr>" and ?G = "\<lambda>I. guarded I False (br_running s)"
      from False rc Inr have less: "left w1 < left (br_world s)"
        using finite_socketD(3) [OF fin] by blast
      have "?G (\<lambda>_. True) ?s" using assms(4) by (simp add: guarded_def)
      then obtain p t where t: "turn E K h ?s = Some (p, t)"
        using comes_backD [OF turn_returns [OF fin live]] by blast
      moreover have "?G (\<lambda>w. left w \<le> left w1) ?s" using assms(4) by (simp add: guarded_def)
      ultimately have "?G (\<lambda>w. left w \<le> left w1) t"
        using keepsD [OF turn_keeps [OF fin quiet]] by blast
      with t rc Inr less show ?thesis
        by (cases p) (auto simp: serve_once_turn run_simps guarded_def)
    qed
  qed
qed




subsection \<open>Timeouts inside a request\<close>

text \<open>
  C17. A receive timeout in the middle of a request loses the part that was read: \<open>continue\<close> goes back to
  the top of the loop, which takes the next bytes of the same request for the length of a new one.
  The client's request is never handled, and the bytes inside it are.
\<close>

theorem timeout_inside_request_loses_sync:
  assumes "br_running s" and "sock_recv K 4 (br_world s) = (Inr h, w1)"
    and "pack_be32 len = Inr h" and "len \<le> 65536"
    and "sock_recv K len w1 = (Inr part, w2)" and "part \<noteq> []" and "length part < len"
    and "sock_recv K (len - length part) w2 = (Inl SocketTimeout, w3)"
  shows "client_loop E K s = client_loop E K (s\<lparr>br_world := w3\<rparr>)"
proof -
  have "recv_rest K len part w2 = Some (Inl SocketTimeout, w3)"
    using assms(7,8) by (subst recv_rest.simps) simp
  moreover have "recv_rest K len [] w1 = recv_rest K len part w2"
    using assms(5-7) by (subst recv_rest.simps) simp
  ultimately have "turn E K h (s\<lparr>br_world := w1\<rparr>) = Some (Inl SocketTimeout, s\<lparr>br_world := w3\<rparr>)"
    using assms(3,4) by (simp add: turn_def run_simps codec_simps)
  then have "serve_once E K s = Some (Inr True, s\<lparr>br_world := w3\<rparr>)"
    using assms(2) by (simp add: serve_once_turn run_simps)
  then show ?thesis
    using assms(1) by (subst client_loop.simps) simp
qed

text \<open>
  The witness sends a request of 12 bytes in two pieces with a pause between them; the loop goes on
  with the second piece as if it were a request to remove all identities.
\<close>

theorem timeout_inside_request_loses_sync_witness:
  defines "rest \<equiv> [Inr [0, 0, 0, 1, 19]] :: (exn + bytes) list"
  shows "client_loop sim_env desk_sock
      (desk_bridge (\<lambda>_. []) (Inr [0, 0, 0, 12] # Inr [13, 0, 0, 0, 1, 65, 0] # Inl SocketTimeout # rest))
    = client_loop sim_env desk_sock (desk_bridge (\<lambda>_. []) rest)"
proof -
  let ?w = "\<lambda>script. br_world (desk_bridge (\<lambda>_. []) script)"
  let ?s = "desk_bridge (\<lambda>_. [])
    (Inr [0, 0, 0, 12] # Inr [13, 0, 0, 0, 1, 65, 0] # Inl SocketTimeout # rest)"
  have "client_loop sim_env desk_sock ?s = client_loop sim_env desk_sock (?s\<lparr>br_world := ?w rest\<rparr>)"
    by (rule timeout_inside_request_loses_sync [where h = "[0, 0, 0, 12]" and len = 12
          and part = "[13, 0, 0, 0, 1, 65, 0]"
          and ?w1.0 = "?w (Inr [13, 0, 0, 0, 1, 65, 0] # Inl SocketTimeout # rest)"
          and ?w2.0 = "?w (Inl SocketTimeout # rest)"])
      (simp_all add: desk_bridge_def pack_be32_def)
  then show ?thesis by (simp add: desk_bridge_def)
qed

end
