(* ===== verification/ServerProps.thy ===== *)
theory ServerProps
  imports BridgeServer ClientLoop
begin

text \<open>
  The bridge as a running process: a signal ends it and takes the socket file away, and in every
  state its threads can reach the serial lock is free between their turns, no client waits for
  another for ever, and the process is never stuck.
\<close>

subsection \<open>What the operating system promises\<close>

text \<open>
  Unlinking the socket's file removes it, closing the server socket works, and nothing but \<open>sys.exit\<close>
  raises what is not an \<open>Exception\<close>.
\<close>

definition orderly :: "'w serial_env \<Rightarrow> 'w server_env \<Rightarrow> pystr \<Rightarrow> bool" where
  "orderly E S path \<longleftrightarrow>
     (\<forall>w. \<exists>w'. sv_unlink S path w = (Inr (), w') \<and> \<not> sv_exists S path w') \<and>
     (\<forall>w. \<exists>w'. sv_close S w = (Inr (), w')) \<and>
     (\<forall>w e w'. sv_accept S w = (Inl e, w') \<longrightarrow> is_Exception e) \<and>
     (\<forall>t K w e w'. sv_thread S t K w = (Inl e, w') \<longrightarrow> is_Exception e) \<and>
     (\<forall>w e w'. ser_close E w = (Inl e, w') \<longrightarrow> is_Exception e)"

lemma orderlyD:
  assumes "orderly E S path"
  shows "\<exists>w'. sv_unlink S path w = (Inr (), w') \<and> \<not> sv_exists S path w'" "\<exists>w'. sv_close S w = (Inr (), w')"
    "sv_accept S w = (Inl e, w') \<Longrightarrow> is_Exception e" "sv_thread S t K w = (Inl e, w') \<Longrightarrow> is_Exception e"
    "ser_close E w = (Inl e, w') \<Longrightarrow> is_Exception e"
  using assms unfolding orderly_def by blast+

subsection \<open>The pieces of the main thread\<close>

lemma unlink_socket_run:
  assumes "orderly E S path"
  shows "\<exists>w. unlink_socket S path s = Some (Inr (), s\<lparr>br_world := w\<rparr>) \<and> \<not> sv_exists S path w"
proof (cases "sv_exists S path (br_world s)")
  case True
  obtain w' where "sv_unlink S path (br_world s) = (Inr (), w')" "\<not> sv_exists S path w'"
    using orderlyD(1) [OF assms] by blast
  then show ?thesis using True by (intro exI [of _ w']) (simp add: unlink_socket_def run_simps)
next
  case False
  then show ?thesis by (intro exI [of _ "br_world s"]) (simp add: unlink_socket_def run_simps)
qed

text \<open>A shutdown always ends the loop: either it exits, with the file gone, or the port's \<open>close\<close> raised.\<close>

lemma shutdown_run:
  assumes "orderly E S path"
  obtains (exited) w where "shutdown E S path s = Some (Inl (SystemExit 0), s\<lparr>br_running := False, br_world := w\<rparr>)"
      and "\<not> sv_exists S path w"
    | (failed) e w where "shutdown E S path s = Some (Inl e, s\<lparr>br_running := False, br_world := w\<rparr>)" and "is_Exception e"
proof -
  let ?s = "s\<lparr>br_running := False\<rparr>"
  let ?close = "if br_serial s \<noteq> None then world_does (ser_close E) else ret ()"
  obtain q w where c: "?close ?s = Some (q, ?s\<lparr>br_world := w\<rparr>)" "\<forall>e. q = Inl e \<longrightarrow> is_Exception e"
  proof (cases "br_serial s")
    case None
    then show thesis using that [of "Inr ()" "br_world s"] by (simp add: run_simps)
  next
    case (Some t)
    obtain q w where "ser_close E (br_world s) = (q, w)" by (rule prod.exhaust)
    then show thesis using that [of q w] Some orderlyD(5) [OF assms] by (cases q) (auto simp: run_simps)
  qed
  obtain w' where u: "unlink_socket S path (?s\<lparr>br_world := w\<rparr>) = Some (Inr (), ?s\<lparr>br_world := w'\<rparr>)"
    "\<not> sv_exists S path w'"
    using unlink_socket_run [OF assms, of "?s\<lparr>br_world := w\<rparr>"] by auto
  have "shutdown E S path s = bindP ?close (\<lambda>_. bindP (unlink_socket S path) (\<lambda>_. raise (SystemExit 0))) ?s"
    by (simp add: shutdown_def run_simps)
  then show thesis using c u that by (cases q) (auto simp: bindP_run prog_run)
qed

text \<open>A turn of the accept loop without a signal, and one that a signal interrupts.\<close>

lemma accept_client:
  assumes "orderly E S path" and "sv_accept S (br_world s) = (q, w')" and "q \<noteq> Inr None"
  shows "\<exists>a w. accept_once E S path s = Some (Inr a, s\<lparr>br_world := w\<rparr>) \<and>
    (w = w' \<or> (\<exists>K r. sv_thread S 30 K w' = (r, w))) \<and> (a = None \<or> q = Inr a)"
proof (cases q)
  case (Inl e)
  then have "is_Exception e" using orderlyD(3) [OF assms(1)] assms(2) by blast
  then show ?thesis
    using Inl assms(2) by (intro exI [of _ None] exI [of _ w']) (simp add: accept_once_def run_simps)
next
  case (Inr arrival)
  then obtain K where K: "arrival = Some K" using assms(3) by auto
  obtain r w where th: "sv_thread S 30 K w' = (r, w)" by (rule prod.exhaust)
  show ?thesis
  proof (cases r)
    case (Inl e)
    then have "is_Exception e" using orderlyD(4) [OF assms(1)] th by blast
    then show ?thesis
      using Inl Inr K th assms(2) by (intro exI [of _ None] exI [of _ w]) (auto simp: accept_once_def run_simps)
  next
    case (Inr u)
    then show ?thesis
      using \<open>q = Inr arrival\<close> K th assms(2)
      by (intro exI [of _ "Some K"] exI [of _ w]) (auto simp: accept_once_def run_simps)
  qed
qed

lemma accept_signal:
  assumes "orderly E S path" and "sv_accept S (br_world s) = (Inr None, w')"
  shows "\<exists>w. accept_once E S path s = Some (Inr None, s\<lparr>br_running := False, br_world := w\<rparr>) \<or>
    accept_once E S path s = Some (Inl (SystemExit 0), s\<lparr>br_running := False, br_world := w\<rparr>) \<and> \<not> sv_exists S path w"
proof (rule shutdown_run [OF assms(1), of "s\<lparr>br_world := w'\<rparr>"])
  fix w assume "shutdown E S path (s\<lparr>br_world := w'\<rparr>) =
      Some (Inl (SystemExit 0), s\<lparr>br_world := w', br_running := False, br_world := w\<rparr>)" and "\<not> sv_exists S path w"
  then show ?thesis using assms(2) by (intro exI [of _ w]) (simp add: accept_once_def run_simps)
next
  fix e w assume "shutdown E S path (s\<lparr>br_world := w'\<rparr>) =
      Some (Inl e, s\<lparr>br_world := w', br_running := False, br_world := w\<rparr>)" and "is_Exception e"
  then show ?thesis using assms(2) by (intro exI [of _ w]) (simp add: accept_once_def run_simps)
qed

lemma close_server_run:
  assumes "orderly E S path"
  shows "\<exists>w. close_server S path s = Some (Inr (), s\<lparr>br_world := w\<rparr>) \<and> \<not> sv_exists S path w"
proof -
  obtain w' where "sv_close S (br_world s) = (Inr (), w')" using orderlyD(2) [OF assms] by blast
  moreover obtain w where "unlink_socket S path (s\<lparr>br_world := w'\<rparr>) = Some (Inr (), s\<lparr>br_world := w', br_world := w\<rparr>)"
    "\<not> sv_exists S path w" using unlink_socket_run [OF assms] by blast
  ultimately show ?thesis by (intro exI [of _ w]) (simp add: close_server_def run_simps)
qed

subsection \<open>A signal ends the process\<close>

text \<open>After finitely many clients, timeouts and failed accepts there is a signal.\<close>

definition signal_comes :: "'w server_env \<Rightarrow> ('w \<Rightarrow> nat) \<Rightarrow> bool" where
  "signal_comes S m \<longleftrightarrow>
     (\<forall>w q w'. sv_accept S w = (q, w') \<longrightarrow> q = Inr None \<or> m w' < m w) \<and>
     (\<forall>t K w q w'. sv_thread S t K w = (q, w') \<longrightarrow> m w' \<le> m w)"

lemma accept_loop_ends:
  assumes "orderly E S path" and "signal_comes S m"
  shows "br_running s \<Longrightarrow> \<exists>r s'. accept_loop E S path s = Some (r, s') \<and> \<not> br_running s' \<and>
    (r = Inr () \<or> r = Inl (SystemExit 0) \<and> \<not> sv_exists S path (br_world s'))"
proof (induction "m (br_world s)" arbitrary: s rule: less_induct)
  case less
  obtain q w' where acc: "sv_accept S (br_world s) = (q, w')" by (rule prod.exhaust)
  show ?case
  proof (cases "q = Inr None")
    case True
    then obtain w where "accept_once E S path s = Some (Inr None, s\<lparr>br_running := False, br_world := w\<rparr>) \<or>
        accept_once E S path s = Some (Inl (SystemExit 0), s\<lparr>br_running := False, br_world := w\<rparr>) \<and> \<not> sv_exists S path w"
      using accept_signal [OF assms(1)] acc by blast
    moreover have "accept_loop E S path (s\<lparr>br_running := False, br_world := w\<rparr>) =
        Some (Inr (), s\<lparr>br_running := False, br_world := w\<rparr>)" by (subst accept_loop.simps) simp
    ultimately show ?thesis using less.prems by (subst accept_loop.simps) auto
  next
    case False
    obtain a w where a: "accept_once E S path s = Some (Inr a, s\<lparr>br_world := w\<rparr>)"
      "w = w' \<or> (\<exists>K r. sv_thread S 30 K w' = (r, w))" using accept_client [OF assms(1) acc False] by blast
    have "m w' < m (br_world s)" "m w \<le> m w'"
      using assms(2) acc False a(2) unfolding signal_comes_def by blast+
    then have "m (br_world (s\<lparr>br_world := w\<rparr>)) < m (br_world s)" by simp
    moreover have "br_running (s\<lparr>br_world := w\<rparr>)" using less.prems by simp
    ultimately show ?thesis using less.hyps a(1) less.prems by (subst accept_loop.simps) simp
  qed
qed


text \<open>A machine with clients that come and hang up, and then a signal.\<close>

record hall = sim +
  hl_file :: bool
  hl_waiting :: nat

definition visitor :: "hall sock_env" where
  "visitor = \<lparr>sock_recv = (\<lambda>n w. (Inr [], w)), sock_send = (\<lambda>bs w. (Inr (length bs), w)), sock_close = (\<lambda>w. (Inr (), w))\<rparr>"

definition hall_env :: "hall server_env" where
  "hall_env = \<lparr>
     sv_exists = (\<lambda>p w. hl_file w), sv_unlink = (\<lambda>p w. (Inr (), w\<lparr>hl_file := False\<rparr>)),
     sv_bind = (\<lambda>p w. (Inr (), w\<lparr>hl_file := True\<rparr>)), sv_listen = (\<lambda>n t w. (Inr (), w)),
     sv_chmod = (\<lambda>p mode w. (Inr (), w)),
     sv_accept = (\<lambda>w. if hl_waiting w = 0 then (Inr None, w)
       else (Inr (Some visitor), w\<lparr>hl_waiting := hl_waiting w - 1\<rparr>)),
     sv_thread = (\<lambda>t K w. (Inr (), w)), sv_close = (\<lambda>w. (Inr (), w))\<rparr>"

definition new_hall :: "nat \<Rightarrow> hall" where
  "new_hall n = \<lparr>sim_clock = 0, sim_in = [], sim_device = (\<lambda>_. []), sim_out = [], hl_file = True, hl_waiting = n\<rparr>"

definition open_hall :: "nat \<Rightarrow> hall bridge" where
  "open_hall n = \<lparr>br_serial = Some 5, br_lock = False, br_running = True,
     br_world = (new_hall n)\<lparr>sim_clock := 2\<rparr>\<rparr>"

lemma hall_orderly: "orderly sim_env hall_env path" and hall_signal: "signal_comes hall_env hl_waiting"
  by (auto simp: orderly_def signal_comes_def hall_env_def split: if_splits)

lemma hall_opens:
  "connect_serial sim_env port baud (new_bridge (new_hall n)) =
    Some (Inr True, \<lparr>br_serial = Some 5, br_lock = False, br_running = True, br_world = (new_hall n)\<lparr>sim_clock := 2\<rparr>\<rparr>)"
  "open_server hall_env path (open_hall n) = Some (Inr (), open_hall n)"
  by (simp_all add: connect_serial_def open_server_def unlink_socket_def run_simps new_bridge_def new_hall_def
      open_hall_def hall_env_def)


subsection \<open>The threads together\<close>

lemma turn_keeps_lock: "keeps (guarded (\<lambda>_. True) False r) (turn E K h)"
  unfolding turn_def answer_def
  by (intro keeps_intros keeps_on_world keeps_True request_keeps [OF serial_keeps_True])

lemma serve_once_returns:
  assumes "finite_socket K left" and "live_port E clk coming" and "\<not> br_lock s"
  shows "\<exists>r s'. serve_once E K s = Some (r, s') \<and> \<not> br_lock s' \<and> br_running s' = br_running s"
proof -
  obtain q w where rc: "sock_recv K 4 (br_world s) = (q, w)" by (rule prod.exhaust)
  show ?thesis
  proof (cases q)
    case (Inl e)
    then show ?thesis using rc assms(3) by (cases "is_Exception e") (auto simp: serve_once_turn run_simps)
  next
    case (Inr h)
    have g: "guarded (\<lambda>_. True) False (br_running s) (s\<lparr>br_world := w\<rparr>)" using assms(3) by (simp add: guarded_def)
    then obtain p t where t: "turn E K h (s\<lparr>br_world := w\<rparr>) = Some (p, t)"
      using comes_backD [OF turn_returns [OF assms(1,2)]] by blast
    then have "guarded (\<lambda>_. True) False (br_running s) t" using keepsD [OF turn_keeps_lock] g by blast
    then show ?thesis using rc Inr t by (cases p) (auto simp: serve_once_turn run_simps guarded_def)
  qed
qed

lemma accept_once_returns: "\<exists>r b. accept_once E S path s = Some (r, b)"
proof -
  have "comes_back (\<lambda>_. True) (world_does f)" for f :: "'a \<Rightarrow> (exn + 'b) \<times> 'a"
    by (rule on_world_returns) (simp add: world_run)
  moreover have "comes_back (\<lambda>_. True) (world_does f)" for f :: "'a \<Rightarrow> (exn + 'a sock_env option) \<times> 'a"
    by (rule on_world_returns) (simp add: world_run)
  moreover have "comes_back (\<lambda>_. True) (world_does f)" for f :: "'a \<Rightarrow> (exn + unit) \<times> 'a"
    by (rule on_world_returns) (simp add: world_run)
  ultimately have "comes_back (\<lambda>_. True) (accept_once E S path)"
    unfolding accept_once_def shutdown_def unlink_socket_def by (intro total_intros keeps_True)
  then show ?thesis by (auto dest: comes_backD)
qed

lemma world_keeps_lock: "keeps (\<lambda>s. \<not> br_lock s) (on_world m)"
  by (rule keepsI) (auto simp: bridge_run split: option.splits)

lemma lock_kept:
  "keeps (\<lambda>s. \<not> br_lock s) (accept_once E S path)" "keeps (\<lambda>s. \<not> br_lock s) (open_server S path)"
  "keeps (\<lambda>s. \<not> br_lock s) (close_server S path)"
  unfolding accept_once_def shutdown_def open_server_def close_server_def unlink_socket_def
  by (intro keeps_intros world_keeps_lock; simp)+

lemma accept_exit:
  assumes "orderly E S path" and "accept_once E S path s = Some (Inl e, b)"
  shows "\<not> br_running b \<and> \<not> sv_exists S path (br_world b)"
proof -
  obtain q w' where acc: "sv_accept S (br_world s) = (q, w')" by (rule prod.exhaust)
  show ?thesis
  proof (cases "q = Inr None")
    case True
    then show ?thesis using accept_signal [OF assms(1), of s w'] acc assms(2) by auto
  next
    case False
    then show ?thesis using accept_client [OF assms(1) acc] assms(2) by auto
  qed
qed

lemma accept_new:
  assumes "orderly E S path" and "accept_once E S path s = Some (Inr (Some K), b)"
  shows "\<exists>w'. sv_accept S (br_world s) = (Inr (Some K), w')"
proof -
  obtain q w' where acc: "sv_accept S (br_world s) = (q, w')" by (rule prod.exhaust)
  show ?thesis
  proof (cases "q = Inr None")
    case True
    then show ?thesis using accept_signal [OF assms(1), of s w'] acc assms(2) by auto
  next
    case False
    then show ?thesis using accept_client [OF assms(1) acc] acc assms(2) by auto
  qed
qed

text \<open>The sockets that \<open>accept\<close> gives have finitely many bytes and timeouts to give.\<close>

definition finite_clients :: "'w server_env \<Rightarrow> bool" where
  "finite_clients S \<longleftrightarrow> (\<forall>w K w'. sv_accept S w = (Inr (Some K), w') \<longrightarrow> (\<exists>left. finite_socket K left))"

definition system_ok :: "'w server_env \<Rightarrow> pystr \<Rightarrow> 'w system \<Rightarrow> bool" where
  "system_ok S path \<sigma> \<longleftrightarrow> \<not> br_lock (sy_bridge \<sigma>) \<and> (\<forall>K \<in> set (sy_clients \<sigma>). \<exists>left. finite_socket K left) \<and>
     (sy_over \<sigma> \<longrightarrow> \<not> br_running (sy_bridge \<sigma>) \<and> \<not> sv_exists S path (br_world (sy_bridge \<sigma>)))"

lemma system_step_ok:
  assumes "orderly E S path" and "finite_clients S" and "live_port E clk coming"
    and "system_step E S path \<sigma> \<sigma>'" and "system_ok S path \<sigma>"
  shows "system_ok S path \<sigma>'"
  using assms(4)
proof (cases rule: system_step.cases)
  case (accepted a b)
  have "\<not> br_lock b" using keepsD [OF lock_kept(1) accepted(4)] assms(5) by (simp add: system_ok_def)
  moreover have "\<exists>left. finite_socket K left" if "a = Some K" for K
    using accept_new [OF assms(1), of "sy_bridge \<sigma>" K b] accepted(4) that assms(2) unfolding finite_clients_def by blast
  ultimately show ?thesis
    using accepted(1,2) assms(5) by (cases a) (auto simp: system_ok_def)
next
  case (exits e b)
  have "\<not> br_lock b" using keepsD [OF lock_kept(1) exits(4)] assms(5) by (simp add: system_ok_def)
  then show ?thesis using accept_exit [OF assms(1) exits(4)] exits(1) by (simp add: system_ok_def)
next
  case (closes r b)
  then obtain w where "b = (sy_bridge \<sigma>)\<lparr>br_world := w\<rparr>" "\<not> sv_exists S path w"
    using close_server_run [OF assms(1), of "sy_bridge \<sigma>"] by auto
  then show ?thesis using closes(1,3) assms(5) by (simp add: system_ok_def)
next
  case (serves K b)
  obtain left where "finite_socket K left" using serves(4) assms(5) unfolding system_ok_def by blast
  from serve_once_returns [OF this assms(3), of "sy_bridge \<sigma>"] have "\<not> br_lock b"
    using serves(5) assms(5) by (auto simp: system_ok_def)
  then show ?thesis using serves(1,2) assms(5) by (simp add: system_ok_def)
next
  case (leaves K r b q b')
  obtain left where "finite_socket K left" using leaves(3) assms(5) unfolding system_ok_def by blast
  from serve_once_returns [OF this assms(3), of "sy_bridge \<sigma>"] have "\<not> br_lock b"
    using leaves(4) assms(5) by (auto simp: system_ok_def split: if_splits)
  then have "\<not> br_lock b'" using keepsD [OF world_keeps_lock leaves(5)] by simp
  then show ?thesis using leaves(1,2) assms(5) by (auto simp: system_ok_def dest: set_mp [OF set_remove1_subset])
qed

lemma system_reachable_ok:
  assumes "orderly E S path" and "finite_clients S" and "live_port E clk coming" and "\<not> br_lock s"
    and "system_reachable E S path s \<sigma>"
  shows "system_ok S path \<sigma>"
  using assms(5)
proof (induction rule: system_reachable.induct)
  case (listening b)
  then show ?case using keepsD [OF lock_kept(2) listening] assms(4) by (simp add: system_ok_def)
next
  case (moves \<sigma> \<sigma>')
  then show ?case using system_step_ok [OF assms(1-3)] by blast
qed

lemma never_stuck:
  assumes "orderly E S path" and "\<not> sy_over \<sigma>"
  shows "\<exists>\<sigma>'. system_step E S path \<sigma> \<sigma>'"
proof (cases "br_running (sy_bridge \<sigma>)")
  case True
  obtain r b where "accept_once E S path (sy_bridge \<sigma>) = Some (r, b)" using accept_once_returns by blast
  then show ?thesis
    using accepted [OF assms(2) True] exits [OF assms(2) True] by (cases r) blast+
next
  case False
  then show ?thesis using closes [OF assms(2) False] close_server_run [OF assms(1)] by blast
qed



end
