(* ===== verification/PyText.thy ===== *)
theory PyText
  imports Prelude
begin

text \<open>
  Python's text operations as the sources use them, on lists of code points: white space and line
  breaks of \<open>str\<close>, \<open>strip\<close>, \<open>split\<close>, \<open>splitlines\<close>, \<open>join\<close>, \<open>replace\<close>, decimal
  and padded formatting, and what \<open>int(text)\<close> accepts.
\<close>

subsection \<open>Characters\<close>

definition whitespace :: "pychar list" where
  "whitespace = [9, 10, 11, 12, 13, 28, 29, 30, 31, 32, 133, 160, 5760,
     8192, 8193, 8194, 8195, 8196, 8197, 8198, 8199, 8200, 8201, 8202,
     8232, 8233, 8239, 8287, 12288]"

definition is_space :: "pychar \<Rightarrow> bool" where
  "is_space c \<longleftrightarrow> c \<in> set whitespace"

definition line_breaks :: "pychar list" where
  "line_breaks = [10, 11, 12, 13, 28, 29, 30, 133, 8232, 8233]"

definition is_break :: "pychar \<Rightarrow> bool" where
  "is_break c \<longleftrightarrow> c \<in> set line_breaks"

text \<open>The zeros of the scripts whose digits \<open>int\<close> reads; each is followed by its other nine.\<close>

definition digit_zeros :: "pychar list" where
  "digit_zeros = [48, 1632, 1776, 1984, 2406, 2534, 2662, 2790, 2918, 3046, 3174, 3302, 3430, 3558,
     3664, 3792, 3872, 4160, 4240, 6112, 6160, 6470, 6608, 6784, 6800, 6992, 7088, 7232, 7248, 42528,
     43216, 43264, 43472, 43504, 43600, 44016, 65296, 66720, 68912, 69734, 69872, 69942, 70096, 70384,
     70736, 70864, 71248, 71360, 71472, 71904, 72016, 72784, 73040, 73120, 92768, 92864, 93008,
     120782, 120792, 120802, 120812, 120822, 123200, 123632, 125264, 130032]"

definition digit_value :: "pychar \<Rightarrow> int option" where
  "digit_value c = map_option (\<lambda>z. c - z) (find (\<lambda>z. z \<le> c \<and> c < z + 10) digit_zeros)"

definition is_digit :: "pychar \<Rightarrow> bool" where
  "is_digit c \<longleftrightarrow> 48 \<le> c \<and> c \<le> 57"

subsection \<open>Stripping, splitting, joining\<close>

definition lstrip_by :: "(pychar \<Rightarrow> bool) \<Rightarrow> pystr \<Rightarrow> pystr" where
  "lstrip_by p s = dropWhile p s"

definition rstrip_by :: "(pychar \<Rightarrow> bool) \<Rightarrow> pystr \<Rightarrow> pystr" where
  "rstrip_by p s = rev (dropWhile p (rev s))"

definition strip :: "pystr \<Rightarrow> pystr" where
  "strip s = rstrip_by is_space (lstrip_by is_space s)"

lemma rstrip_by_id: "s = [] \<or> \<not> p (last s) \<Longrightarrow> rstrip_by p s = s"
proof (cases s rule: rev_cases)
  case (snoc xs x)
  assume "s = [] \<or> \<not> p (last s)"
  with snoc show ?thesis by (simp add: rstrip_by_def)
qed (simp add: rstrip_by_def)

lemma rstrip_by_append: "\<forall>x \<in> set ys. p x \<Longrightarrow> rstrip_by p (xs @ ys) = rstrip_by p xs"
  by (induction ys rule: rev_induct) (auto simp: rstrip_by_def simp flip: append_assoc)

text \<open>\<open>s.split(sep)\<close> for a separator that is not empty: at the leftmost places, without overlap.\<close>

function split_str :: "pystr \<Rightarrow> pystr \<Rightarrow> pystr list" where
  "split_str sep [] = [[]]"
| "split_str sep (c # cs) =
     (if sep \<noteq> [] \<and> take (length sep) (c # cs) = sep
      then [] # split_str sep (drop (length sep) (c # cs))
      else (case split_str sep cs of [] \<Rightarrow> [[c]] | p # ps \<Rightarrow> (c # p) # ps))"
  by pat_completeness auto
termination
  by (relation "measure (\<lambda>(sep, s). length s)") (auto simp: neq_Nil_conv)

definition join :: "pystr \<Rightarrow> pystr list \<Rightarrow> pystr" where
  "join sep ss = (case ss of [] \<Rightarrow> [] | s # rest \<Rightarrow> s @ concat (map (\<lambda>t. sep @ t) rest))"

lemma join_simps [simp]:
  "join sep [] = []"
  "join sep [s] = s"
  "join sep (s # t # rest) = s @ sep @ join sep (t # rest)"
  by (simp_all add: join_def)

lemma split_str_nonempty: "split_str sep s \<noteq> []"
  by (induction sep s rule: split_str.induct) (auto split: list.splits)

text \<open>\<open>join\<close> puts back what \<open>split\<close> took apart.\<close>

lemma join_split: "join sep (split_str sep s) = s"
proof (induction sep s rule: split_str.induct)
  case (2 sep c cs)
  show ?case
  proof (cases "sep \<noteq> [] \<and> take (length sep) (c # cs) = sep")
    case True
    then have "join sep (split_str sep (c # cs)) = sep @ drop (length sep) (c # cs)"
      using 2(1) split_str_nonempty [of sep "drop (length sep) (c # cs)"]
      by (cases "split_str sep (drop (length sep) (c # cs))") auto
    also have "\<dots> = take (length sep) (c # cs) @ drop (length sep) (c # cs)"
      using True by simp
    finally show ?thesis by simp
  next
    case False
    then show ?thesis
      using 2(2) split_str_nonempty [of sep cs]
      by (auto split: list.splits simp: join_def)
  qed
qed simp

text \<open>A part that has no separator in it, also none that begins in it, is split off whole.\<close>

lemma split_str_part:
  assumes "sep \<noteq> []"
    and "\<forall>i < length p. take (length sep) (drop i (p @ sep @ rest)) \<noteq> sep"
  shows "split_str sep (p @ sep @ rest) = p # split_str sep rest"
  using assms(2)
proof (induction p)
  case Nil
  then show ?case using assms(1) by (cases sep) auto
next
  case (Cons c p)
  have "take (length sep) ((c # p) @ sep @ rest) \<noteq> sep"
    using Cons.prems by (metis drop0 length_Cons zero_less_Suc)
  moreover have "\<forall>i < length p. take (length sep) (drop i (p @ sep @ rest)) \<noteq> sep"
  proof (intro allI impI)
    fix i assume "i < length p"
    then show "take (length sep) (drop i (p @ sep @ rest)) \<noteq> sep"
      using Cons.prems by (metis Suc_less_eq append_Cons drop_Suc_Cons length_Cons)
  qed
  ultimately show ?case using Cons.IH by simp
qed

lemma split_str_last:
  "\<forall>i < length p. take (length sep) (drop i p) \<noteq> sep \<Longrightarrow> split_str sep p = [p]"
proof (induction p)
  case (Cons c p)
  have "take (length sep) (c # p) \<noteq> sep"
    using Cons.prems by (metis drop0 length_Cons zero_less_Suc)
  moreover have "\<forall>i < length p. take (length sep) (drop i p) \<noteq> sep"
    using Cons.prems by (metis Suc_less_eq drop_Suc_Cons length_Cons)
  ultimately show ?case using Cons.IH by simp
qed simp

text \<open>\<open>needle in s\<close>\<close>

definition has_infix :: "pystr \<Rightarrow> pystr \<Rightarrow> bool" where
  "has_infix needle s = list_ex (\<lambda>i. take (length needle) (drop i s) = needle) [0..<Suc (length s)]"

text \<open>\<open>s.replace(a, t)\<close> for a single character \<open>a\<close>.\<close>

definition replace_char :: "pychar \<Rightarrow> pystr \<Rightarrow> pystr \<Rightarrow> pystr" where
  "replace_char a t s = concat (map (\<lambda>c. if c = a then t else [c]) s)"

lemma replace_char_simps [simp]:
  "replace_char a t [] = []"
  "replace_char a t (c # s) = (if c = a then t else [c]) @ replace_char a t s"
  by (simp_all add: replace_char_def)

text \<open>\<open>s.splitlines()\<close>: \<open>\r\n\<close> is one break, and a break at the end opens no line.\<close>

function splitlines :: "pystr \<Rightarrow> pystr list" where
  "splitlines s =
     (if s = [] then []
      else takeWhile (\<lambda>c. \<not> is_break c) s #
        (case dropWhile (\<lambda>c. \<not> is_break c) s of
           [] \<Rightarrow> []
         | [c] \<Rightarrow> []
         | c # d # rest \<Rightarrow> if c = 13 \<and> d = 10 then splitlines rest else splitlines (d # rest)))"
  by pat_completeness auto
termination
proof (relation "measure length", goal_cases)
  case (2 s c y d rest)
  then show ?case
    using length_dropWhile_le [of "\<lambda>c. \<not> is_break c" s] by simp
next
  case (3 s c y d rest)
  then show ?case
    using length_dropWhile_le [of "\<lambda>c. \<not> is_break c" s] by simp
qed simp

declare splitlines.simps [simp del]

lemma splitlines_member:
  assumes "l \<in> set (splitlines s)" and "l \<noteq> takeWhile (\<lambda>c. \<not> is_break c) s"
  obtains c d rest where "dropWhile (\<lambda>c. \<not> is_break c) s = c # d # rest"
    and "l \<in> set (if c = 13 \<and> d = 10 then splitlines rest else splitlines (d # rest))"
proof -
  define r where "r = dropWhile (\<lambda>c. \<not> is_break c) s"
  note unfolded = splitlines.simps [of s, folded r_def]
  show thesis
  proof (cases r)
    case Nil
    with assms show thesis by (simp add: unfolded split: if_splits)
  next
    case (Cons c more)
    with assms that [folded r_def] show thesis
      by (cases more) (simp_all add: unfolded split: if_splits)
  qed
qed

lemma splitlines_no_break: "l \<in> set (splitlines s) \<Longrightarrow> c \<in> set l \<Longrightarrow> \<not> is_break c"
proof (induction s arbitrary: l rule: splitlines.induct)
  case (1 s)
  show ?case
  proof (cases "l = takeWhile (\<lambda>c. \<not> is_break c) s")
    case True
    then show ?thesis using "1.prems"(2) by (auto dest: set_takeWhileD)
  next
    case False
    with "1.prems"(1) obtain c' d rest where r: "dropWhile (\<lambda>c. \<not> is_break c) s = c' # d # rest"
      "l \<in> set (if c' = 13 \<and> d = 10 then splitlines rest else splitlines (d # rest))"
      by (rule splitlines_member)
    then have "s \<noteq> []" by auto
    then show ?thesis
      using "1.IH"(1) [OF _ r(1) refl] "1.IH"(2) [OF _ r(1) refl] r(2) "1.prems"(2)
      by (auto split: if_splits)
  qed
qed

subsection \<open>Decimal formatting\<close>

fun dec_nat :: "nat \<Rightarrow> pystr" where
  "dec_nat n = (if n < 10 then [48 + int n] else dec_nat (n div 10) @ [48 + int (n mod 10)])"

declare dec_nat.simps [simp del]

definition dec_int :: "int \<Rightarrow> pystr" where
  "dec_int i = (if i < 0 then 45 # dec_nat (nat (- i)) else dec_nat (nat i))"

text \<open>\<open>f"{s:>w}"\<close> and \<open>f"{s:<w}"\<close>\<close>

definition rjust :: "nat \<Rightarrow> pystr \<Rightarrow> pystr" where
  "rjust w s = replicate (w - length s) 32 @ s"

definition ljust :: "nat \<Rightarrow> pystr \<Rightarrow> pystr" where
  "ljust w s = s @ replicate (w - length s) 32"

lemma dec_nat_digits: "c \<in> set (dec_nat n) \<Longrightarrow> is_digit c"
proof (induction n rule: dec_nat.induct)
  case (1 n)
  then show ?case by (subst (asm) dec_nat.simps) (auto simp: is_digit_def split: if_splits)
qed

lemma dec_nat_nonempty: "dec_nat n \<noteq> []"
  by (subst dec_nat.simps) simp

lemma length_dec_nat: "0 < k \<Longrightarrow> n < 10 ^ k \<Longrightarrow> length (dec_nat n) \<le> k"
proof (induction n arbitrary: k rule: dec_nat.induct)
  case (1 n)
  show ?case
  proof (cases "n < 10")
    case True
    then show ?thesis using "1.prems" by (subst dec_nat.simps) simp
  next
    case False
    then obtain j where j: "k = Suc j" "0 < j"
      using "1.prems" by (cases k; cases "k - 1") auto
    then have "n div 10 < 10 ^ j" using "1.prems" by (simp add: less_mult_imp_div_less mult.commute)
    then have "length (dec_nat (n div 10)) \<le> j" using "1.IH" False j by blast
    then show ?thesis using False j by (subst dec_nat.simps) simp
  qed
qed

subsection \<open>Reading integers\<close>

fun digits_value :: "int \<Rightarrow> pystr \<Rightarrow> int option" where
  "digits_value acc [] = Some acc"
| "digits_value acc (c # cs) =
     (if is_digit c then digits_value (10 * acc + (c - 48)) cs else None)"

text \<open>
  \<open>int(text)\<close> and \<open>float(text)\<close> first map digits of other scripts and white space outside ASCII to
  ASCII, then strip C's white space; an underscore may stand between two digits.
\<close>

definition to_ascii_char :: "pychar \<Rightarrow> pychar" where
  "to_ascii_char c = (if c < 127 then c else if is_space c then 32
     else case digit_value c of Some d \<Rightarrow> 48 + d | None \<Rightarrow> 63)"

definition c_space :: "pychar \<Rightarrow> bool" where
  "c_space c \<longleftrightarrow> c \<in> {9, 10, 11, 12, 13, 32}"

definition number_text :: "pystr \<Rightarrow> pystr" where
  "number_text s = rstrip_by c_space (lstrip_by c_space (map to_ascii_char s))"

text \<open>Drop the underscores between digits; \<open>None\<close> where one stands elsewhere.\<close>

fun drop_underscores :: "bool \<Rightarrow> pystr \<Rightarrow> pystr option" where
  "drop_underscores after_digit [] = Some []"
| "drop_underscores after_digit (c # cs) =
     (if c = 95 then
        (if after_digit \<and> cs \<noteq> [] \<and> is_digit (hd cs) then drop_underscores False cs else None)
      else map_option (Cons c) (drop_underscores (is_digit c) cs))"

definition py_int :: "pystr \<Rightarrow> exn + int" where
  "py_int s =
     (case drop_underscores False (number_text s) of
        None \<Rightarrow> Inl ValueError
      | Some t \<Rightarrow>
          let neg = (t \<noteq> [] \<and> hd t = 45);
              ds = (if t \<noteq> [] \<and> hd t \<in> {43, 45} then tl t else t) in
          if ds = [] then Inl ValueError
          else (case digits_value 0 ds of
              None \<Rightarrow> Inl ValueError
            | Some v \<Rightarrow> Inr (if neg then - v else v)))"

end
