(* ===== verification/Codecs.thy ===== *)
theory Codecs
  imports PyText Wire
begin

text \<open>
  The text encodings of bytes that the scripts use: \<open>bytes.hex\<close> and \<open>bytes.fromhex\<close>,
  \<open>base64.b64encode\<close>, and UTF-8 (\<open>encode\<close>, and \<open>decode\<close> with \<open>errors='ignore'\<close>), with the
  contract of a text codec and its interpretations.
\<close>

text \<open>A text codec gives back the bytes it wrote.\<close>

locale text_codec =
  fixes enc :: "bytes \<Rightarrow> pystr" and dec :: "pystr \<Rightarrow> exn + bytes"
  assumes dec_enc: "dec (enc b) = Inr b"
begin

lemma enc_inj: "enc a = enc b \<Longrightarrow> a = b"
  by (metis dec_enc sum.inject(2))

end

subsection \<open>Hexadecimal\<close>

definition nibble_char :: "nat \<Rightarrow> pychar" where
  "nibble_char n = (if n < 10 then 48 + int n else 87 + int n)"

definition char_nibble :: "pychar \<Rightarrow> nat option" where
  "char_nibble c =
     (if 48 \<le> c \<and> c \<le> 57 then Some (nat (c - 48))
      else if 97 \<le> c \<and> c \<le> 102 then Some (nat (c - 87))
      else if 65 \<le> c \<and> c \<le> 70 then Some (nat (c - 55))
      else None)"

definition bytes_hex :: "bytes \<Rightarrow> pystr" where
  "bytes_hex b = concat (map (\<lambda>x. [nibble_char (unat x div 16), nibble_char (unat x mod 16)]) b)"

fun fromhex :: "pystr \<Rightarrow> exn + bytes" where
  "fromhex [] = Inr []"
| "fromhex [c] = (if c_space c then Inr [] else Inl ValueError)"
| "fromhex (c # d # cs) =
     (if c_space c then fromhex (d # cs)
      else case (char_nibble c, char_nibble d) of
          (Some h, Some l) \<Rightarrow> bindE (fromhex cs) (\<lambda>b. Inr (of_nat (16 * h + l) # b))
        | _ \<Rightarrow> Inl ValueError)"

lemma char_nibble_char: "n < 16 \<Longrightarrow> char_nibble (nibble_char n) = Some n"
  by (auto simp: char_nibble_def nibble_char_def)

lemma nibble_not_space: "n < 16 \<Longrightarrow> \<not> c_space (nibble_char n)"
  by (auto simp: c_space_def nibble_char_def)

lemma fromhex_hex: "fromhex (bytes_hex b) = Inr b"
proof (induction b)
  case (Cons x b)
  have "unat x < 256" using unsigned_less [of x] by simp
  then have "unat x div 16 < 16" by (simp add: less_mult_imp_div_less)
  then have "fromhex (bytes_hex (x # b)) = Inr (of_nat (16 * (unat x div 16) + unat x mod 16) # b)"
    using Cons.IH by (simp add: bytes_hex_def char_nibble_char nibble_not_space del: of_nat_add of_nat_mult)
  then show ?case by simp
qed (simp add: bytes_hex_def)

interpretation hexadecimal: text_codec bytes_hex fromhex
  by unfold_locales (rule fromhex_hex)

lemma length_bytes_hex: "length (bytes_hex b) = 2 * length b"
  by (induction b) (simp_all add: bytes_hex_def)

subsection \<open>Base 64\<close>

definition b64_char :: "nat \<Rightarrow> pychar" where
  "b64_char n =
     (if n < 26 then 65 + int n else if n < 52 then 71 + int n else if n < 62 then int n - 4
      else if n = 62 then 43 else 47)"

fun b64encode :: "bytes \<Rightarrow> pystr" where
  "b64encode [] = []"
| "b64encode [a] = [b64_char (unat a div 4), b64_char (unat a mod 4 * 16), 61, 61]"
| "b64encode [a, b] =
     [b64_char (unat a div 4), b64_char (unat a mod 4 * 16 + unat b div 16),
      b64_char (unat b mod 16 * 4), 61]"
| "b64encode (a # b # c # rest) =
     [b64_char (unat a div 4), b64_char (unat a mod 4 * 16 + unat b div 16),
      b64_char (unat b mod 16 * 4 + unat c div 64), b64_char (unat c mod 64)] @ b64encode rest"

text \<open>The reading of the standard, to say what the encoding means.\<close>

definition char_b64 :: "pychar \<Rightarrow> nat option" where
  "char_b64 c =
     (if 65 \<le> c \<and> c \<le> 90 then Some (nat (c - 65))
      else if 97 \<le> c \<and> c \<le> 122 then Some (nat (c - 71))
      else if 48 \<le> c \<and> c \<le> 57 then Some (nat (c + 4))
      else if c = 43 then Some 62 else if c = 47 then Some 63 else None)"

fun b64decode :: "pystr \<Rightarrow> exn + bytes" where
  "b64decode [] = Inr []"
| "b64decode (p # q # r # s # rest) =
     (case (char_b64 p, char_b64 q) of
        (Some i, Some j) \<Rightarrow>
          (case (char_b64 r, char_b64 s) of
             (Some k, Some l) \<Rightarrow> bindE (b64decode rest) (\<lambda>b. Inr
               (of_nat (i * 4 + j div 16) # of_nat (j mod 16 * 16 + k div 4) # of_nat (k mod 4 * 64 + l) # b))
           | (Some k, None) \<Rightarrow> if s = 61 \<and> rest = []
               then Inr [of_nat (i * 4 + j div 16), of_nat (j mod 16 * 16 + k div 4)] else Inl ValueError
           | (None, _) \<Rightarrow> if r = 61 \<and> s = 61 \<and> rest = []
               then Inr [of_nat (i * 4 + j div 16)] else Inl ValueError)
      | _ \<Rightarrow> Inl ValueError)"
| "b64decode _ = Inl ValueError"

lemma char_b64_char: "n < 64 \<Longrightarrow> char_b64 (b64_char n) = Some n"
  by (auto simp: char_b64_def b64_char_def)

lemma char_b64_pad: "char_b64 61 = None"
  by (simp add: char_b64_def)

lemma byte_lt: "unat (x :: byte) < 256"
  using unsigned_less [of x] by simp

lemma sextet_bounds:
  "unat (a :: byte) div 4 < 64" "unat a mod 4 * 16 < 64"
  "unat a mod 4 * 16 + unat (b :: byte) div 16 < 64" "unat b mod 16 * 4 < 64"
  "unat b mod 16 * 4 + unat (c :: byte) div 64 < 64" "unat c mod 64 < 64"
proof -
  have "unat a div 4 < 64" "unat b div 16 < 16" "unat c div 64 < 4" "unat a mod 4 < 4"
    "unat b mod 16 < 16" "unat c mod 64 < 64"
    using byte_lt [of a] byte_lt [of b] byte_lt [of c] by (simp_all add: less_mult_imp_div_less)
  then show "unat a div 4 < 64" "unat a mod 4 * 16 < 64" "unat a mod 4 * 16 + unat b div 16 < 64"
    "unat b mod 16 * 4 < 64" "unat b mod 16 * 4 + unat c div 64 < 64" "unat c mod 64 < 64"
    by linarith+
qed

lemma high_bits:
  "unat (b :: byte) div 16 div 16 = 0" "unat b div 64 div 4 = 0"
  "unat b div 16 mod 16 = unat b div 16" "unat b div 64 mod 4 = unat b div 64"
proof -
  have "unat b div 16 < 16" "unat b div 64 < 4"
    using byte_lt [of b] by (simp_all add: less_mult_imp_div_less)
  then show "unat b div 16 div 16 = 0" "unat b div 64 div 4 = 0"
    "unat b div 16 mod 16 = unat b div 16" "unat b div 64 mod 4 = unat b div 64" by simp_all
qed

lemma b64decode_encode: "b64decode (b64encode b) = Inr b"
  by (induction b rule: b64encode.induct)
    (simp_all add: char_b64_char char_b64_pad sextet_bounds high_bits del: of_nat_add of_nat_mult)

interpretation base64: text_codec b64encode b64decode
  by unfold_locales (rule b64decode_encode)

subsection \<open>UTF-8\<close>

text \<open>\<open>s.encode('utf-8')\<close>; the error for a surrogate is a \<open>ValueError\<close>.\<close>

definition utf8_char :: "pychar \<Rightarrow> exn + bytes" where
  "utf8_char c =
     (if c < 0x80 then Inr [of_int c]
      else if c < 0x800 then Inr [of_int (0xC0 + c div 64), of_int (0x80 + c mod 64)]
      else if 0xD800 \<le> c \<and> c \<le> 0xDFFF then Inl ValueError
      else if c < 0x10000 then
        Inr [of_int (0xE0 + c div 4096), of_int (0x80 + c div 64 mod 64), of_int (0x80 + c mod 64)]
      else Inr [of_int (0xF0 + c div 262144), of_int (0x80 + c div 4096 mod 64),
        of_int (0x80 + c div 64 mod 64), of_int (0x80 + c mod 64)])"

fun utf8_encode :: "pystr \<Rightarrow> exn + bytes" where
  "utf8_encode [] = Inr []"
| "utf8_encode (c # s) = bindE (utf8_char c) (\<lambda>a. bindE (utf8_encode s) (\<lambda>b. Inr (a @ b)))"

text \<open>
  \<open>b.decode('utf-8', errors='ignore')\<close>: a lead byte says how many bytes follow and where the first
  of them lies; where they do not, the part that could have begun a character is dropped.
\<close>

definition utf8_lead :: "nat \<Rightarrow> nat \<times> nat \<times> nat" where
  "utf8_lead n =
     (if 0xC2 \<le> n \<and> n \<le> 0xDF then (1, 0x80, 0xBF)
      else if n = 0xE0 then (2, 0xA0, 0xBF)
      else if n = 0xED then (2, 0x80, 0x9F)
      else if 0xE1 \<le> n \<and> n \<le> 0xEF then (2, 0x80, 0xBF)
      else if n = 0xF0 then (3, 0x90, 0xBF)
      else if n = 0xF4 then (3, 0x80, 0x8F)
      else if 0xF1 \<le> n \<and> n \<le> 0xF3 then (3, 0x80, 0xBF)
      else (0, 0, 0))"

fun followers :: "nat \<Rightarrow> nat \<Rightarrow> nat \<Rightarrow> bytes \<Rightarrow> nat" where
  "followers (Suc k) lo hi (x # xs) =
     (if lo \<le> unat x \<and> unat x \<le> hi then Suc (followers k 0x80 0xBF xs) else 0)"
| "followers _ _ _ _ = 0"

function utf8_ignore :: "bytes \<Rightarrow> pystr" where
  "utf8_ignore [] = []"
| "utf8_ignore (b # bs) =
     (if unat b < 0x80 then int (unat b) # utf8_ignore bs
      else case utf8_lead (unat b) of (k, lo, hi) \<Rightarrow>
        let n = followers k lo hi bs in
        if 0 < k \<and> n = k
        then int (foldl (\<lambda>v x. v * 64 + unat x mod 64) (unat b mod 2 ^ (6 - k)) (take k bs)) #
          utf8_ignore (drop k bs)
        else utf8_ignore (drop n bs))"
  by pat_completeness auto
termination
  by (relation "measure length") auto

end
