(* ===== verification/KeyTool.thy ===== *)
theory KeyTool
  imports SerialLink Codecs
begin

text \<open>
  \<open>wrapper/esp32_keytool.py\<close>: the command line tool that sends one command to the ESP32 and reports
  the answer. The record \<open>tool\<close> is the lines printed so far and the outside world; \<open>str(e)\<close> of a
  library's exception and the help text of \<open>argparse\<close> are arguments. \<open>read_packet\<close> is in
  \<open>SerialLink\<close>.
\<close>

abbreviation (input) PROTOCOL_SIGN_CHALLENGE :: byte where "PROTOCOL_SIGN_CHALLENGE \<equiv> 1"
abbreviation (input) PROTOCOL_GET_PUBLIC_KEY :: byte where "PROTOCOL_GET_PUBLIC_KEY \<equiv> 2"
abbreviation (input) TOOL_UNLOCK :: byte where "TOOL_UNLOCK \<equiv> 3"
abbreviation (input) TOOL_LOCK :: byte where "TOOL_LOCK \<equiv> 4"
abbreviation (input) PROTOCOL_GENERATE_ENCRYPTED :: byte where "PROTOCOL_GENERATE_ENCRYPTED \<equiv> 5"

abbreviation (input) TOOL_FAILURE :: byte where "TOOL_FAILURE \<equiv> 5"
abbreviation (input) TOOL_SUCCESS :: byte where "TOOL_SUCCESS \<equiv> 6"
abbreviation (input) TOOL_SIGN_RESPONSE :: byte where "TOOL_SIGN_RESPONSE \<equiv> 14"
abbreviation (input) TOOL_LOCKED :: byte where "TOOL_LOCKED \<equiv> 32"

record 'w tool =
  tl_out :: "pystr list"
  tl_world :: 'w

definition in_world :: "('w, 'a) prog \<Rightarrow> ('w tool, 'a) prog" where
  "in_world m = (\<lambda>s. case m (tl_world s) of
      None \<Rightarrow> None
    | Some (r, w) \<Rightarrow> Some (r, s\<lparr>tl_world := w\<rparr>))"

definition say :: "pystr \<Rightarrow> ('w tool, unit) prog" where
  "say line = modifies (\<lambda>s. s\<lparr>tl_out := tl_out s @ [line]\<rparr>)"

lemma tool_run [run_simps]:
  "in_world m s = (case m (tl_world s) of None \<Rightarrow> None | Some (r, w) \<Rightarrow> Some (r, s\<lparr>tl_world := w\<rparr>))"
  "say line s = Some (Inr (), s\<lparr>tl_out := tl_out s @ [line]\<rparr>)"
  by (simp_all add: in_world_def say_def run_simps)

subsection \<open>Packets\<close>

definition tool_header :: "byte \<Rightarrow> bytes \<Rightarrow> exn + bytes" where
  "tool_header msg_type data = bindE (pack_be32 (length data)) (\<lambda>h. Inr ([msg_type] @ slice 1 4 h))"

definition send_packet :: "'w serial_env \<Rightarrow> byte \<Rightarrow> bytes \<Rightarrow> ('w, unit) prog" where
  "send_packet E msg_type data =
     bindP (lift_exn (tool_header msg_type data)) (\<lambda>header.
     bindP (world_call (ser_write E (header @ data))) (\<lambda>_.
     world_call (ser_flush E)))"

text \<open>\<open>serial.Serial(...)\<close>, \<open>time.sleep(2)\<close>, \<open>ser.reset_input_buffer()\<close>\<close>

definition open_port :: "'w serial_env \<Rightarrow> pystr \<Rightarrow> int \<Rightarrow> real \<Rightarrow> ('w, unit) prog" where
  "open_port E port baudrate timeout =
     bindP (world_call (ser_open E port baudrate timeout)) (\<lambda>_.
     bindP (world_call (\<lambda>w. (Inr (), time_sleep E 2 w))) (\<lambda>_.
     world_call (ser_reset E)))"

text \<open>\<open>send_packet\<close>, \<open>read_packet\<close>, \<open>ser.close()\<close>\<close>

definition talk :: "'w serial_env \<Rightarrow> byte \<Rightarrow> bytes \<Rightarrow> real \<Rightarrow> ('w, (byte \<times> bytes) option) prog" where
  "talk E msg_type data timeout =
     bindP (send_packet E msg_type data) (\<lambda>_.
     bindP (read_packet E timeout) (\<lambda>reply.
     bindP (world_call (ser_close E)) (\<lambda>_.
     ret reply)))"

text \<open>\<open>type=...\<close> and \<open>len=...\<close> in the messages, for the pair \<open>(None, None)\<close> too.\<close>

definition type_text :: "(byte \<times> bytes) option \<Rightarrow> pystr" where
  "type_text reply = (case reply of None \<Rightarrow> lit ''None'' | Some (t, _) \<Rightarrow> dec_nat (unat t))"

definition len_text :: "(byte \<times> bytes) option \<Rightarrow> pystr" where
  "len_text reply = (case reply of None \<Rightarrow> lit ''0'' | Some (_, data) \<Rightarrow> dec_nat (length data))"

definition report_error :: "(exn \<Rightarrow> pystr) \<Rightarrow> 'a \<Rightarrow> exn \<Rightarrow> ('w tool, 'a) prog" where
  "report_error X failed e = bindP (say (lit ''[!] Error: '' @ X e)) (\<lambda>_. ret failed)"

subsection \<open>The commands\<close>

text \<open>\<open>while time.time() < timeout: line = ser.readline()...\<close>: whether success was reported.\<close>

partial_function (option) keygen_wait ::
  "'w serial_env \<Rightarrow> real \<Rightarrow> 'w tool \<Rightarrow> ((exn + bool) \<times> 'w tool) option" where
  "keygen_wait E deadline s =
     (case time_time E (tl_world s) of (t, w1) \<Rightarrow>
       if \<not> t < deadline then Some (Inr False, s\<lparr>tl_world := w1\<rparr>)
       else (case ser_readline E 2 w1 of
           (Inl e, w2) \<Rightarrow> Some (Inl e, s\<lparr>tl_world := w2\<rparr>)
         | (Inr raw, w2) \<Rightarrow>
             if has_infix (lit ''Key generation successful'') (strip (utf8_ignore raw)) then
               Some (Inr True, s\<lparr>tl_world := w2, tl_out := tl_out s @ [lit ''[+] Key generated successfully'']\<rparr>)
             else if has_infix (lit ''Ed25519 key generated'') (strip (utf8_ignore raw)) then
               keygen_wait E deadline
                 (s\<lparr>tl_world := w2, tl_out := tl_out s @ [lit ''[+] Key generation started'']\<rparr>)
             else keygen_wait E deadline (s\<lparr>tl_world := w2\<rparr>)))"

definition given :: "pystr option \<Rightarrow> bool" where
  "given x = (case x of None \<Rightarrow> False | Some s \<Rightarrow> s \<noteq> [])"

definition generate_key ::
  "'w serial_env \<Rightarrow> (exn \<Rightarrow> pystr) \<Rightarrow> pystr \<Rightarrow> pystr option \<Rightarrow> int \<Rightarrow> ('w tool, bool) prog" where
  "generate_key E X port password baudrate = tryP
     (bindP (in_world (open_port E port baudrate 2)) (\<lambda>_.
      if given password then
        bindP (say (lit ''Generating encrypted key on ESP32...'')) (\<lambda>_.
        bindP (lift_exn (utf8_encode (the password))) (\<lambda>pw.
        bindP (in_world (talk E PROTOCOL_GENERATE_ENCRYPTED pw 30)) (\<lambda>reply.
        if map_option fst reply = Some TOOL_SUCCESS then
          bindP (say (lit ''[+] Encrypted key generated successfully'')) (\<lambda>_. ret True)
        else
          bindP (say (lit ''[-] Key generation failed: type='' @ type_text reply)) (\<lambda>_. ret False))))
      else
        bindP (say (lit ''Sending keygen command via serial...'')) (\<lambda>_.
        bindP (in_world (the_time E)) (\<lambda>t.
        bindP (keygen_wait E (t + 30)) (\<lambda>_.
        bindP (in_world (world_call (ser_close E))) (\<lambda>_.
        ret True))))))
     (report_error X False)"

definition get_public_key ::
  "'w serial_env \<Rightarrow> (exn \<Rightarrow> pystr) \<Rightarrow> pystr \<Rightarrow> int \<Rightarrow> ('w tool, bytes option) prog" where
  "get_public_key E X port baudrate = tryP
     (bindP (in_world (open_port E port baudrate 5)) (\<lambda>_.
      bindP (in_world (talk E PROTOCOL_GET_PUBLIC_KEY [] 10)) (\<lambda>reply.
      if (case reply of Some (t, data) \<Rightarrow> t = PROTOCOL_GET_PUBLIC_KEY \<and> data \<noteq> [] \<and> length data \<ge> 32
          | None \<Rightarrow> False) then
        let pubkey = take 32 (snd (the reply));
            key_type = ascii ''ssh-ed25519'' in
        bindP (lift_exn (pack_be32 (length key_type))) (\<lambda>tn.
        bindP (lift_exn (pack_be32 (length pubkey))) (\<lambda>kn.
        let blob = tn @ key_type @ kn @ pubkey in
        bindP (say (lit ''ssh-ed25519 '' @ b64encode blob)) (\<lambda>_.
        ret (Some pubkey))))
      else
        bindP (say (lit ''[!] Failed to get public key: type='' @ type_text reply @ lit '', len='' @ len_text reply))
          (\<lambda>_. ret None))))
     (report_error X None)"

definition unlock_agent ::
  "'w serial_env \<Rightarrow> (exn \<Rightarrow> pystr) \<Rightarrow> pystr \<Rightarrow> pystr \<Rightarrow> int \<Rightarrow> ('w tool, bool) prog" where
  "unlock_agent E X port password baudrate = tryP
     (bindP (in_world (open_port E port baudrate 5)) (\<lambda>_.
      bindP (say (lit ''Sending unlock command...'')) (\<lambda>_.
      bindP (lift_exn (utf8_encode password)) (\<lambda>pw.
      bindP (in_world (talk E TOOL_UNLOCK pw 30)) (\<lambda>reply.
      if map_option fst reply = Some TOOL_SUCCESS then
        bindP (say (lit ''[+] Agent unlocked successfully'')) (\<lambda>_. ret True)
      else
        bindP (say (lit ''[-] Unlock failed (wrong password?)'')) (\<lambda>_. ret False))))))
     (report_error X False)"

definition lock_agent ::
  "'w serial_env \<Rightarrow> (exn \<Rightarrow> pystr) \<Rightarrow> pystr \<Rightarrow> int \<Rightarrow> ('w tool, bool) prog" where
  "lock_agent E X port baudrate = tryP
     (bindP (in_world (open_port E port baudrate 5)) (\<lambda>_.
      bindP (say (lit ''Sending lock command...'')) (\<lambda>_.
      bindP (in_world (talk E TOOL_LOCK [] 10)) (\<lambda>reply.
      if map_option fst reply = Some TOOL_SUCCESS then
        bindP (say (lit ''[+] Agent locked'')) (\<lambda>_. ret True)
      else
        bindP (say (lit ''[-] Lock failed'')) (\<lambda>_. ret False)))))
     (report_error X False)"

definition sign_challenge ::
  "'w serial_env \<Rightarrow> (exn \<Rightarrow> pystr) \<Rightarrow> pystr \<Rightarrow> pystr \<Rightarrow> int \<Rightarrow> ('w tool, bytes option) prog" where
  "sign_challenge E X port challenge_hex baudrate =
     (case fromhex challenge_hex of
        Inl e \<Rightarrow> bindP (say (lit ''[!] Invalid hex challenge'')) (\<lambda>_. ret None)
      | Inr challenge \<Rightarrow> tryP
          (bindP (in_world (open_port E port baudrate 30)) (\<lambda>_.
           bindP (in_world (talk E PROTOCOL_SIGN_CHALLENGE challenge 30)) (\<lambda>reply.
           if (case reply of Some (t, data) \<Rightarrow> t = TOOL_SIGN_RESPONSE \<and> data \<noteq> [] \<and> length data \<ge> 64
               | None \<Rightarrow> False) then
             let signature = take 64 (snd (the reply)) in
             bindP (say (lit ''[+] Signature: '' @ bytes_hex signature)) (\<lambda>_. ret (Some signature))
           else if map_option fst reply = Some TOOL_LOCKED then
             bindP (say (lit ''[!] Agent is locked. Unlock it first with --unlock'')) (\<lambda>_. ret None)
           else if map_option fst reply = Some TOOL_FAILURE then
             bindP (say (lit ''[!] ESP32 returned failure'')) (\<lambda>_. ret None)
           else
             bindP (say (lit ''[!] Unexpected response: type='' @ type_text reply @ lit '', len='' @ len_text reply))
               (\<lambda>_. ret None))))
          (report_error X None))"

subsection \<open>The command line\<close>

record tool_args =
  ta_port :: pystr
  ta_baudrate :: int
  ta_generate :: bool
  ta_get_key :: bool
  ta_sign :: "pystr option"
  ta_password :: "pystr option"
  ta_unlock :: bool
  ta_lock :: bool

definition exit_with :: "bool \<Rightarrow> ('w tool, unit) prog" where
  "exit_with ok = raise (SystemExit (if ok then 0 else 1))"

definition tool_main ::
  "'w serial_env \<Rightarrow> (exn \<Rightarrow> pystr) \<Rightarrow> pystr \<Rightarrow> tool_args \<Rightarrow> ('w tool, unit) prog" where
  "tool_main E X help_text a =
     (if \<not> ta_generate a \<and> \<not> ta_get_key a \<and> \<not> given (ta_sign a) \<and> \<not> ta_unlock a \<and> \<not> ta_lock a then
        bindP (say help_text) (\<lambda>_. exit_with False)
      else if ta_generate a then
        bindP (generate_key E X (ta_port a) (ta_password a) (ta_baudrate a)) (\<lambda>ok.
        if ok then bindP (say (lit ''[+] Key generation complete'')) (\<lambda>_. exit_with True)
        else bindP (say (lit ''[-] Key generation failed'')) (\<lambda>_. exit_with False))
      else if ta_unlock a then
        (if \<not> given (ta_password a) then
           bindP (say (lit ''[!] --password is required for --unlock'')) (\<lambda>_. exit_with False)
         else bindP (unlock_agent E X (ta_port a) (the (ta_password a)) (ta_baudrate a)) exit_with)
      else if ta_lock a then
        bindP (lock_agent E X (ta_port a) (ta_baudrate a)) exit_with
      else if ta_get_key a then
        bindP (get_public_key E X (ta_port a) (ta_baudrate a)) (\<lambda>key.
        exit_with (case key of None \<Rightarrow> False | Some k \<Rightarrow> k \<noteq> []))
      else if given (ta_sign a) then
        bindP (sign_challenge E X (ta_port a) (the (ta_sign a)) (ta_baudrate a)) (\<lambda>sig.
        exit_with (case sig of None \<Rightarrow> False | Some k \<Rightarrow> k \<noteq> []))
      else ret ())"

end
