(* ===== verification/KeyToolProps.thy ===== *)
theory KeyToolProps
  imports KeyTool BridgeProps
begin

text \<open>
  What the key tool does with the device's answers: the packets and the key blob are those of the
  bridge, each command end to end, generating a key without a password, and the exit status.
\<close>

subsection \<open>Opening and talking\<close>

text \<open>
  \<open>opening_port E ready calm pend\<close>: from a world with \<open>ready\<close> the port opens, and after the pause
  and \<open>reset_input_buffer\<close> nothing is waiting; a calm port can be closed.
\<close>

definition opening_port ::
  "'w serial_env \<Rightarrow> ('w \<Rightarrow> bool) \<Rightarrow> ('w \<Rightarrow> bool) \<Rightarrow> ('w \<Rightarrow> bytes) \<Rightarrow> bool" where
  "opening_port E ready calm pend \<longleftrightarrow>
     (\<forall>w port baud t. ready w \<longrightarrow> (\<exists>w1 w2. ser_open E port baud t w = (Inr (), w1) \<and>
        ser_reset E (time_sleep E 2 w1) = (Inr (), w2) \<and> calm w2 \<and> pend w2 = [])) \<and>
     (\<forall>w. calm w \<longrightarrow> (\<exists>w'. ser_close E w = (Inr (), w')))"

lemma sim_opening: "opening_port sim_env (\<lambda>w. sim_clock w = c \<and> sim_device w = dev)
    (\<lambda>w. sim_clock w = c + 2 \<and> sim_device w = dev) sim_in"
  by (auto simp: opening_port_def)

lemma open_port_run:
  assumes "opening_port E ready calm pend" and "ready w"
  obtains w' where "open_port E port baud t w = Some (Inr (), w')" "calm w'" "pend w' = []"
proof -
  from assms obtain w1 w2 where "ser_open E port baud t w = (Inr (), w1)"
    "ser_reset E (time_sleep E 2 w1) = (Inr (), w2)" "calm w2" "pend w2 = []"
    unfolding opening_port_def by blast
  then show thesis by (intro that [of w2]) (simp_all add: open_port_def run_simps)
qed

lemma tool_header_bits:
  assumes "n < 2 ^ 32"
  shows "\<exists>h. pack_be32 n = Inr h \<and> slice 1 4 h =
    [of_nat (drop_bit 16 n AND 255), of_nat (drop_bit 8 n AND 255), of_nat (n AND 255)]"
proof -
  have "(of_nat (m AND 255) :: byte) = of_nat m" for m :: nat
    by (simp add: word_unat_eq_iff unat_of_nat_byte and_255)
  then show ?thesis
    using assms by (simp add: pack_be32_def slice_def drop_bit_eq_div)
qed

text \<open>
  The two copies of the packet format agree: for data of less than \<open>2 ^ 32\<close> bytes the key tool's
  \<open>send_packet\<close> writes the header that the bridge's \<open>send_to_esp32\<close> writes.
\<close>

theorem tool_header_is_bridge_header:
  assumes "length data < 2 ^ 32"
  shows "tool_header msg_type data = Inr (packet_header msg_type data)"
  using tool_header_bits [OF assms] by (auto simp: tool_header_def packet_header_def Let_def)

theorem tool_header_is_bridge_header_witness:
  "tool_header 3 (ascii ''secret'') = Inr (packet_header 3 (ascii ''secret''))"
  by (rule tool_header_is_bridge_header) simp

lemma talk_answered:
  assumes "opening_port E ready calm pend" and "buffered_port E calm pend S T"
    and "answering_port E calm pend device" and "T < S + timeout"
    and "calm w" and "pend w = []" and "length data < 2 ^ 32"
    and "device (packet_header m data @ data) = noise @ fr @ rest" and "0 \<notin> set noise"
    and "frame t payload = Inr fr" and "length payload < 4096"
  shows "\<exists>w'. talk E m data timeout w = Some (Inr (Some (t, payload)), w')"
proof -
  have "tool_header m data = Inr (packet_header m data)"
    using tool_header_bits [OF assms(7)] by (auto simp: tool_header_def packet_header_def Let_def)
  moreover obtain w1 w2 where w2: "ser_write E (packet_header m data @ data) w = (Inr (), w1)"
    "ser_flush E w1 = (Inr (), w2)" "calm w2" "pend w2 = noise @ fr @ rest"
    using assms(3,5,6,8) unfolding answering_port_def by (metis append_Nil)
  ultimately have sent: "send_packet E m data w = Some (Inr (), w2)"
    by (simp add: send_packet_def run_simps)
  obtain w3 where w3: "read_packet E timeout w2 = Some (Inr (Some (t, payload)), w3)" "calm w3"
    using tool_reader.accepts [OF assms(2,4) w2(3) assms(9-11) w2(4)] by blast
  then obtain w4 where "ser_close E w3 = (Inr (), w4)"
    using assms(1) unfolding opening_port_def by blast
  with sent w3 show ?thesis by (simp add: talk_def run_simps)
qed

lemma open_and_talk:
  assumes "opening_port E ready calm pend" and "buffered_port E calm pend S T"
    and "answering_port E calm pend device" and "T < S + timeout"
    and "ready (tl_world s)" and "length data < 2 ^ 32"
    and "device (packet_header m data @ data) = noise @ fr @ rest" and "0 \<notin> set noise"
    and "frame t payload = Inr fr" and "length payload < 4096"
  obtains w w' where "open_port E port baud t0 (tl_world s) = Some (Inr (), w)"
    and "talk E m data timeout w = Some (Inr (Some (t, payload)), w')"
proof -
  obtain w where w: "open_port E port baud t0 (tl_world s) = Some (Inr (), w)" "calm w" "pend w = []"
    using assms(1,5) by (rule open_port_run)
  with talk_answered [OF assms(1-4) w(2,3) assms(6-10)] that show thesis by blast
qed

subsection \<open>The commands end to end\<close>

text \<open>
  C13. \<open>get_public_key\<close> end to end: if the device answers with a public key of 32 bytes (and maybe more
  bytes), the tool returns the key and prints the one-line key file whose blob is, in base 64, the
  blob under which the bridge offers the same key.
\<close>

theorem get_public_key_end_to_end:
  assumes "opening_port E ready calm pend" and "buffered_port E calm pend S T"
    and "answering_port E calm pend device" and "T < S + 10" and "ready (tl_world s)"
    and "device (packet_header 2 []) = noise @ fr @ rest" and "0 \<notin> set noise"
    and "frame 2 (key @ extra) = Inr fr" and "length (key @ extra) < 4096" and "length key = 32"
  shows "\<exists>blob w'. get_public_key E X port baud s = Some (Inr (Some key),
      \<lparr>tl_out = tl_out s @ [lit ''ssh-ed25519 '' @ b64encode blob], tl_world = w'\<rparr>)
    \<and> build_ed25519_key_blob key = Inr blob \<and> b64decode (b64encode blob) = Inr blob"
proof -
  obtain w w' where run: "open_port E port baud 5 (tl_world s) = Some (Inr (), w)"
    "talk E 2 [] 10 w = Some (Inr (Some (2, key @ extra)), w')"
    by (rule open_and_talk [OF assms(1-5), of "[]" 2 noise fr rest 2 "key @ extra" port baud 5])
      (use assms(6-9) in simp_all)
  obtain tn kn where h: "pack_be32 (length (ascii ''ssh-ed25519'')) = Inr tn" "pack_be32 32 = Inr kn"
    using pack_be32_Inr [of "length (ascii ''ssh-ed25519'')"] pack_be32_Inr [of 32] by auto
  then have "build_ed25519_key_blob key = Inr (tn @ ascii ''ssh-ed25519'' @ kn @ key)"
    using assms(10) by (simp add: build_ed25519_key_blob_def ssh_string_def del: ascii_Cons)
  moreover have "key \<noteq> []" using assms(10) by auto
  ultimately show ?thesis
    using run h assms(10) by (cases s) (simp add: get_public_key_def run_simps Let_def base64.dec_enc del: ascii_Cons)
qed

definition sim_tool :: "(bytes \<Rightarrow> bytes) \<Rightarrow> sim tool" where
  "sim_tool dev = \<lparr>tl_out = [], tl_world = \<lparr>sim_clock = 0, sim_in = [], sim_device = dev, sim_out = []\<rparr>\<rparr>"

lemma sim_tool_sel [simp]:
  "tl_out (sim_tool dev) = []" "sim_clock (tl_world (sim_tool dev)) = 0"
  "sim_device (tl_world (sim_tool dev)) = dev"
  by (simp_all add: sim_tool_def)

theorem get_public_key_end_to_end_witness:
  defines "dev \<equiv> \<lambda>_ :: bytes. [0, 0, 0, 33, 2] @ replicate 32 7"
  shows "\<exists>blob w'. get_public_key sim_env (\<lambda>_. []) [] 115200 (sim_tool dev) = Some (Inr (Some (replicate 32 7)),
      \<lparr>tl_out = tl_out (sim_tool dev) @ [lit ''ssh-ed25519 '' @ b64encode blob], tl_world = w'\<rparr>)
    \<and> build_ed25519_key_blob (replicate 32 7) = Inr blob \<and> b64decode (b64encode blob) = Inr blob"
  by (rule get_public_key_end_to_end [OF sim_opening [where c = 0] sim_buffered sim_answering,
        where noise = "[]" and extra = "[]" and fr = "[0, 0, 0, 33, 2] @ replicate 32 7" and rest = "[]"])
    (simp_all add: dev_def frame_def ssh_string_def pack_be32_def)

text \<open>
  \<open>sign_challenge\<close> end to end: the hexadecimal text of a challenge reaches the device as the
  challenge's bytes, and the first 64 bytes of a signature that comes back are returned and printed
  as the hexadecimal text that reads back to them.
\<close>

theorem sign_challenge_end_to_end:
  assumes "opening_port E ready calm pend" and "buffered_port E calm pend S T"
    and "answering_port E calm pend device" and "T < S + 30" and "ready (tl_world s)"
    and "length challenge < 2 ^ 32"
    and "device (packet_header 1 challenge @ challenge) = noise @ fr @ rest" and "0 \<notin> set noise"
    and "frame 14 (sig @ extra) = Inr fr" and "length (sig @ extra) < 4096" and "length sig = 64"
  shows "\<exists>w'. sign_challenge E X port (bytes_hex challenge) baud s = Some (Inr (Some sig),
      \<lparr>tl_out = tl_out s @ [lit ''[+] Signature: '' @ bytes_hex sig], tl_world = w'\<rparr>)
    \<and> fromhex (bytes_hex sig) = Inr sig"
proof -
  obtain w w' where run: "open_port E port baud 30 (tl_world s) = Some (Inr (), w)"
    "talk E 1 challenge 30 w = Some (Inr (Some (14, sig @ extra)), w')"
    by (rule open_and_talk [OF assms(1-5), of challenge 1 noise fr rest 14 "sig @ extra" port baud 30])
      (use assms(6-10) in simp_all)
  moreover have "sig \<noteq> []" using assms(11) by auto
  ultimately show ?thesis
    using assms(11) by (cases s) (simp add: sign_challenge_def run_simps Let_def hexadecimal.dec_enc)
qed

theorem sign_challenge_end_to_end_witness:
  defines "dev \<equiv> \<lambda>_ :: bytes. [0, 0, 0, 65, 14] @ replicate 64 9"
  shows "\<exists>w'. sign_challenge sim_env (\<lambda>_. []) [] (bytes_hex [171, 205]) 115200 (sim_tool dev) =
      Some (Inr (Some (replicate 64 9)),
        \<lparr>tl_out = tl_out (sim_tool dev) @ [lit ''[+] Signature: '' @ bytes_hex (replicate 64 9)], tl_world = w'\<rparr>)
    \<and> fromhex (bytes_hex (replicate 64 9)) = Inr (replicate 64 9)"
  by (rule sign_challenge_end_to_end [OF sim_opening [where c = 0] sim_buffered sim_answering,
        where noise = "[]" and extra = "[]" and fr = "[0, 0, 0, 65, 14] @ replicate 64 9" and rest = "[]"])
    (simp_all add: dev_def frame_def ssh_string_def pack_be32_def)

text \<open>
  \<open>unlock_agent\<close> reports success exactly when the device's first answer after the unlock packet
  is \<open>SUCCESS\<close>: what was in the input buffer before is thrown away, unlike in the bridge.
\<close>

theorem unlock_agent_reports_the_answer:
  assumes "opening_port E ready calm pend" and "buffered_port E calm pend S T"
    and "answering_port E calm pend device" and "T < S + 30" and "ready (tl_world s)"
    and "utf8_encode password = Inr pw" and "length pw < 2 ^ 32"
    and "device (packet_header 3 pw @ pw) = noise @ fr @ rest" and "0 \<notin> set noise"
    and "frame t payload = Inr fr" and "length payload < 4096"
  shows "\<exists>s'. unlock_agent E X port password baud s = Some (Inr (t = 6), s')"
proof -
  obtain w w' where run: "open_port E port baud 5 (tl_world s) = Some (Inr (), w)"
    "talk E 3 pw 30 w = Some (Inr (Some (t, payload)), w')"
    by (rule open_and_talk [OF assms(1-5), of pw 3 noise fr rest t payload port baud 5])
      (use assms(7-11) in simp_all)
  with assms(6) show ?thesis by (simp add: unlock_agent_def run_simps)
qed

theorem unlock_agent_reports_the_answer_witness:
  defines "s \<equiv> sim_tool (\<lambda>_. [0, 0, 0, 1, 5])\<lparr>tl_world := \<lparr>sim_clock = 0, sim_in = [0, 0, 0, 1, 6],
    sim_device = \<lambda>_. [0, 0, 0, 1, 5], sim_out = []\<rparr>\<rparr>"
  shows "\<exists>s'. unlock_agent sim_env (\<lambda>_. []) [] (lit ''pw'') 115200 s = Some (Inr ((5 :: byte) = 6), s')"
  by (rule unlock_agent_reports_the_answer [OF sim_opening [where c = 0 and dev = "\<lambda>_. [0, 0, 0, 1, 5]"]
        sim_buffered sim_answering, where noise = "[]" and payload = "[]" and fr = "[0, 0, 0, 1, 5]"
          and rest = "[]" and pw = "[112, 119]"])
    (simp_all add: s_def frame_def ssh_string_def pack_be32_def utf8_char_def)

subsection \<open>Generating a key without a password\<close>

text \<open>
  \<open>silent_port E clk lines I\<close>: a port that works (no call raises) and a clock that does not go back;
  \<open>readline\<close> returns a line, of which only \<open>lines d w\<close> come up to a time \<open>d\<close>, or waits for its
  timeout; and no call but \<open>write\<close> and \<open>flush\<close> touches \<open>I\<close>.
\<close>

definition silent_port ::
  "'w serial_env \<Rightarrow> ('w \<Rightarrow> real) \<Rightarrow> (real \<Rightarrow> 'w \<Rightarrow> nat) \<Rightarrow> ('w \<Rightarrow> bool) \<Rightarrow> bool" where
  "silent_port E clk lines I \<longleftrightarrow>
     (\<forall>w port baud t. I w \<longrightarrow> (\<exists>w'. ser_open E port baud t w = (Inr (), w') \<and> I w')) \<and>
     (\<forall>w t. I w \<longrightarrow> I (time_sleep E t w)) \<and>
     (\<forall>w. I w \<longrightarrow> (\<exists>w'. ser_reset E w = (Inr (), w') \<and> I w')) \<and>
     (\<forall>w. I w \<longrightarrow> (\<exists>w'. ser_close E w = (Inr (), w') \<and> I w')) \<and>
     (\<forall>w. I w \<longrightarrow> (\<exists>w'. time_time E w = (clk w', w') \<and> I w' \<and> clk w \<le> clk w' \<and>
        (\<forall>d. lines d w' \<le> lines d w))) \<and>
     (\<forall>w t. I w \<longrightarrow> (\<exists>b w'. ser_readline E t w = (Inr b, w') \<and> I w' \<and> clk w \<le> clk w' \<and>
        (clk w + t \<le> clk w' \<and> (\<forall>d. lines d w' \<le> lines d w) \<or> (\<forall>d. lines d w' < lines d w \<or> d \<le> clk w'))))"

lemma silent_portD:
  assumes "silent_port E clk lines I" and "I w"
  shows "\<exists>w'. ser_open E port baud t w = (Inr (), w') \<and> I w'"
    and "I (time_sleep E t w)"
    and "\<exists>w'. ser_reset E w = (Inr (), w') \<and> I w'"
    and "\<exists>w'. ser_close E w = (Inr (), w') \<and> I w'"
    and "\<exists>w'. time_time E w = (clk w', w') \<and> I w' \<and> clk w \<le> clk w' \<and> (\<forall>d. lines d w' \<le> lines d w)"
    and "\<exists>b w'. ser_readline E t w = (Inr b, w') \<and> I w' \<and> clk w \<le> clk w' \<and>
        (clk w + t \<le> clk w' \<and> (\<forall>d. lines d w' \<le> lines d w) \<or> (\<forall>d. lines d w' < lines d w \<or> d \<le> clk w'))"
proof -
  note d = assms(1) [unfolded silent_port_def]
  show "\<exists>w'. ser_open E port baud t w = (Inr (), w') \<and> I w'"
    by (rule d [THEN conjunct1, rule_format, OF assms(2)])
  show "I (time_sleep E t w)"
    by (rule d [THEN conjunct2, THEN conjunct1, rule_format, OF assms(2)])
  show "\<exists>w'. ser_reset E w = (Inr (), w') \<and> I w'"
    by (rule d [THEN conjunct2, THEN conjunct2, THEN conjunct1, rule_format, OF assms(2)])
  show "\<exists>w'. ser_close E w = (Inr (), w') \<and> I w'"
    by (rule d [THEN conjunct2, THEN conjunct2, THEN conjunct2, THEN conjunct1, rule_format, OF assms(2)])
  show "\<exists>w'. time_time E w = (clk w', w') \<and> I w' \<and> clk w \<le> clk w' \<and> (\<forall>d. lines d w' \<le> lines d w)"
    by (rule d [THEN conjunct2, THEN conjunct2, THEN conjunct2, THEN conjunct2, THEN conjunct1, rule_format, OF assms(2)])
  show "\<exists>b w'. ser_readline E t w = (Inr b, w') \<and> I w' \<and> clk w \<le> clk w' \<and>
        (clk w + t \<le> clk w' \<and> (\<forall>d. lines d w' \<le> lines d w) \<or> (\<forall>d. lines d w' < lines d w \<or> d \<le> clk w'))"
    by (rule d [THEN conjunct2, THEN conjunct2, THEN conjunct2, THEN conjunct2, THEN conjunct2, rule_format, OF assms(2)])
qed

text \<open>How many turns of the loop are left: the lines to come and the timeouts up to the deadline.\<close>

definition turns_left :: "('w \<Rightarrow> real) \<Rightarrow> (real \<Rightarrow> 'w \<Rightarrow> nat) \<Rightarrow> real \<Rightarrow> 'w \<Rightarrow> nat" where
  "turns_left clk lines d w = lines d w + nat \<lceil>(d - clk w) / 2\<rceil>"

lemma waiting_shrinks:
  fixes d c c' :: real
  assumes "c < d" and "c + 2 \<le> c'"
  shows "nat \<lceil>(d - c') / 2\<rceil> < nat \<lceil>(d - c) / 2\<rceil>"
proof -
  have "(d - c') / 2 \<le> (d - c) / 2 - 1" using assms by (simp add: field_simps)
  then have "\<lceil>(d - c') / 2\<rceil> \<le> \<lceil>(d - c) / 2\<rceil> - 1"
    by (metis ceiling_diff_one ceiling_mono)
  moreover have "0 < \<lceil>(d - c) / 2\<rceil>" using assms by simp
  ultimately show ?thesis by simp
qed

lemma waiting_mono: "c \<le> c' \<Longrightarrow> nat \<lceil>(d - c') / 2\<rceil> \<le> nat \<lceil>(d - c) / 2\<rceil>" for d c c' :: real
  by (intro nat_mono ceiling_mono) simp

lemma turn_shrinks:
  assumes "c0 \<le> clk w1" and "lines d w1 \<le> l0" and "clk w1 < d" and "clk w1 \<le> clk w2"
    and "clk w1 + 2 \<le> clk w2 \<and> (\<forall>d. lines d w2 \<le> lines d w1) \<or> (\<forall>d. lines d w2 < lines d w1 \<or> d \<le> clk w2)"
    and "clk w2 < d"
  shows "turns_left clk lines d w2 < l0 + nat \<lceil>(d - c0) / 2\<rceil>"
proof -
  have mono: "nat \<lceil>(d - clk w1) / 2\<rceil> \<le> nat \<lceil>(d - c0) / 2\<rceil>" using assms(1) by (rule waiting_mono)
  from assms(5) show ?thesis
  proof
    assume "clk w1 + 2 \<le> clk w2 \<and> (\<forall>d. lines d w2 \<le> lines d w1)"
    then have "nat \<lceil>(d - clk w2) / 2\<rceil> < nat \<lceil>(d - clk w1) / 2\<rceil>" "lines d w2 \<le> lines d w1"
      using assms(3) waiting_shrinks by blast+
    then show ?thesis using mono assms(2) unfolding turns_left_def by linarith
  next
    assume "\<forall>d. lines d w2 < lines d w1 \<or> d \<le> clk w2"
    then have "lines d w2 < lines d w1" using assms(6) by fastforce
    moreover have "nat \<lceil>(d - clk w2) / 2\<rceil> \<le> nat \<lceil>(d - clk w1) / 2\<rceil>"
      using assms(4) by (rule waiting_mono)
    ultimately show ?thesis using mono assms(2) unfolding turns_left_def by linarith
  qed
qed

lemma keygen_wait_expired:
  assumes "silent_port E clk lines I" and "I (tl_world s)" and "d \<le> clk (tl_world s)"
  shows "\<exists>r s'. keygen_wait E d s = Some (Inr r, s') \<and> I (tl_world s')"
proof -
  obtain w' where "time_time E (tl_world s) = (clk w', w')" "I w'" "clk (tl_world s) \<le> clk w'"
    using silent_portD(5) [OF assms(1,2)] by blast
  then show ?thesis using assms(3) by (subst keygen_wait.simps) auto
qed

lemma keygen_wait_silent:
  assumes silent: "silent_port E clk lines I" and "I (tl_world s)"
  shows "\<exists>r s'. keygen_wait E d s = Some (Inr r, s') \<and> I (tl_world s')"
  using assms(2)
proof (induction "turns_left clk lines d (tl_world s)" arbitrary: s rule: less_induct)
  case less
  obtain w1 where w1: "time_time E (tl_world s) = (clk w1, w1)" "I w1" "clk (tl_world s) \<le> clk w1"
    "lines d w1 \<le> lines d (tl_world s)"
    using silent_portD(5) [OF silent less.prems] by blast
  obtain b w2 where w2: "ser_readline E 2 w1 = (Inr b, w2)" "I w2" "clk w1 \<le> clk w2"
    "clk w1 + 2 \<le> clk w2 \<and> (\<forall>d. lines d w2 \<le> lines d w1) \<or> (\<forall>d. lines d w2 < lines d w1 \<or> d \<le> clk w2)"
    using silent_portD(6) [OF silent w1(2), of 2] by blast
  have go_on: "\<exists>r s'. keygen_wait E d u = Some (Inr r, s') \<and> I (tl_world s')"
    if "tl_world u = w2" "clk w1 < d" for u
  proof (cases "clk w2 < d")
    case True
    then have "turns_left clk lines d (tl_world u) < turns_left clk lines d (tl_world s)"
      using turn_shrinks [OF w1(3,4) that(2) w2(3,4)] that(1) by (simp add: turns_left_def)
    then show ?thesis using less.hyps w2(2) that(1) by blast
  next
    case False
    then show ?thesis using keygen_wait_expired [OF silent] w2(2) that(1) by simp
  qed
  show ?case
  proof (cases "clk w1 < d")
    case True
    note step = go_on [OF _ True]
    show ?thesis
      using w1 w2 True step [of "s\<lparr>tl_world := w2\<rparr>"]
        step [of "s\<lparr>tl_world := w2, tl_out := tl_out s @ [lit ''[+] Key generation started'']\<rparr>"]
      by (subst keygen_wait.simps) (auto simp del: lit_Cons)
  next
    case False
    with w1 show ?thesis by (subst keygen_wait.simps) auto
  qed
qed

text \<open>
  Without a password \<open>generate_key\<close> sends the device nothing and reports success all the same:
  on a port that works it returns \<open>True\<close> after its 30 seconds at the latest, whatever the device
  prints, and nothing that only \<open>write\<close> and \<open>flush\<close> can change has changed.
\<close>

theorem generate_key_without_password:
  assumes "silent_port E clk lines I" and "I (tl_world s)" and "\<not> given password"
  shows "\<exists>s'. generate_key E X port password baud s = Some (Inr True, s') \<and> I (tl_world s')"
proof -
  obtain w1 where w1: "ser_open E port baud 2 (tl_world s) = (Inr (), w1)" "I w1"
    using silent_portD(1) [OF assms(1,2)] by blast
  obtain w2 where w2: "ser_reset E (time_sleep E 2 w1) = (Inr (), w2)" "I w2"
    using silent_portD(3) [OF assms(1) silent_portD(2) [OF assms(1) w1(2)]] by blast
  define l where "l = tl_out s @ [lit ''Sending keygen command via serial...'']"
  obtain w3 where w3: "time_time E w2 = (clk w3, w3)" "I w3"
    using silent_portD(5) [OF assms(1) w2(2)] by blast
  obtain r s4 where s4: "keygen_wait E (clk w3 + 30) (s\<lparr>tl_out := l, tl_world := w3\<rparr>) = Some (Inr r, s4)"
    "I (tl_world s4)"
    using keygen_wait_silent [OF assms(1), of "s\<lparr>tl_out := l, tl_world := w3\<rparr>" "clk w3 + 30"] w3(2) by auto
  obtain w5 where w5: "ser_close E (tl_world s4) = (Inr (), w5)" "I w5"
    using silent_portD(4) [OF assms(1) s4(2)] by blast
  have "keygen_wait E (clk w3 + 30) (s\<lparr>tl_world := w3, tl_out := l\<rparr>) = Some (Inr r, s4)"
    using s4(1) by (cases s) simp
  with w1 w2 w3 s4 w5 assms(3) show ?thesis
    by (intro exI [of _ "s4\<lparr>tl_world := w5\<rparr>"])
      (simp add: generate_key_def open_port_def run_simps l_def del: lit_Cons)
qed

lemma sim_silent: "silent_port sim_env sim_clock (\<lambda>_ _. 0) (\<lambda>w. sim_out w = out)"
  by (auto simp: silent_port_def sim_env_def)

theorem generate_key_without_password_witness:
  "\<exists>s'. generate_key sim_env (\<lambda>_. []) [] None 115200 (sim_tool (\<lambda>_. [])) = Some (Inr True, s') \<and>
    sim_out (tl_world s') = []"
  by (rule generate_key_without_password [OF sim_silent]) (simp_all add: sim_tool_def given_def)

subsection \<open>The exit status\<close>

text \<open>
  \<open>tame_env E\<close>: the calls raise nothing but \<open>Exception\<close>s. \<open>mild m\<close> says the same of a program;
  \<open>tells b P m\<close> says that \<open>m\<close> ends by printing a line, a line of success exactly if its result
  has \<open>P\<close>, and that it raises nothing unless \<open>b\<close>.
\<close>

definition mild :: "('s, 'a) prog \<Rightarrow> bool" where
  "mild m \<longleftrightarrow> (\<forall>s e s'. m s = Some (Inl e, s') \<longrightarrow> is_Exception e)"

definition tame_env :: "'w serial_env \<Rightarrow> bool" where
  "tame_env E \<longleftrightarrow>
     (\<forall>p b t. mild (world_call (ser_open E p b t))) \<and> mild (world_call (ser_reset E)) \<and>
     (\<forall>t n. mild (world_call (ser_read E t n))) \<and> (\<forall>t. mild (world_call (ser_readline E t))) \<and>
     (\<forall>d. mild (world_call (ser_write E d))) \<and> mild (world_call (ser_flush E)) \<and>
     mild (world_call (ser_close E))"

definition success_line :: "pystr \<Rightarrow> bool" where
  "success_line l \<longleftrightarrow> take 3 l = lit ''[+]'' \<or> take 12 l = lit ''ssh-ed25519 ''"

definition tells :: "bool \<Rightarrow> ('a \<Rightarrow> bool) \<Rightarrow> ('w tool, 'a) prog \<Rightarrow> bool" where
  "tells may P m \<longleftrightarrow> (\<forall>s r s'. m s = Some (r, s') \<longrightarrow> (case r of
      Inr x \<Rightarrow> tl_out s' \<noteq> [] \<and> (P x \<longleftrightarrow> success_line (last (tl_out s')))
    | Inl e \<Rightarrow> may \<and> is_Exception e))"

named_theorems mild_intros \<open>programs that raise nothing but \<open>Exception\<close>s\<close>

lemma mild_basic [mild_intros]:
  "mild (ret x)" "mild (reads f)" "mild (say l)" "mild (the_time E)"
  by (auto simp: mild_def run_simps split: prod.splits)

lemma mild_bindP [mild_intros]: "mild m \<Longrightarrow> (\<And>x. mild (k x)) \<Longrightarrow> mild (bindP m k)"
  unfolding mild_def by (blast elim: bindP_SomeE)

lemma mild_if [mild_intros]: "(b \<Longrightarrow> mild m) \<Longrightarrow> (\<not> b \<Longrightarrow> mild n) \<Longrightarrow> mild (if b then m else n)"
  by simp

lemma mild_in_world [mild_intros]: "mild m \<Longrightarrow> mild (in_world m)"
  by (auto simp: mild_def run_simps split: option.splits)

lemma mild_lift: "(\<And>e. r = Inl e \<Longrightarrow> is_Exception e) \<Longrightarrow> mild (lift_exn r)"
  by (auto simp: mild_def run_simps)

lemma mild_calls [mild_intros]:
  assumes "tame_env E"
  shows "mild (world_call (ser_open E p b t))" "mild (world_call (ser_reset E))"
    "mild (world_call (ser_read E t n))" "mild (world_call (ser_write E d))"
    "mild (world_call (ser_flush E))" "mild (world_call (ser_close E))"
    "mild (world_call (\<lambda>w. (Inr (), time_sleep E t w)))"
  using assms by (simp_all add: tame_env_def) (simp add: mild_def run_simps)

lemma mildD: "mild (world_call f) \<Longrightarrow> f w = (Inl e, w') \<Longrightarrow> is_Exception e"
  unfolding mild_def run_simps by blast

lemma pack_be32_raises: "pack_be32 n = Inl e \<Longrightarrow> is_Exception e"
  by (auto simp: pack_be32_def split: if_splits)

lemma unpack_be32_raises: "unpack_be32 b = Inl e \<Longrightarrow> is_Exception e"
  by (cases b rule: unpack_be32.cases) auto

lemma utf8_encode_raises: "utf8_encode s = Inl e \<Longrightarrow> is_Exception e"
  by (induction s) (auto simp: utf8_char_def bindE_def split: if_splits sum.splits)

lemma tool_header_raises: "tool_header m d = Inl e \<Longrightarrow> is_Exception e"
  using pack_be32_raises by (auto simp: tool_header_def bindE_def split: sum.splits)

lemma scan_header_raises:
  assumes "scan_header E d t h w = Some y"
  shows "fst y = Inl e \<longrightarrow> tame_env E \<longrightarrow> is_Exception e"
proof (rule scan_header.raw_induct [where P = "\<lambda>E d t h w y. fst y = Inl e \<longrightarrow> tame_env E \<longrightarrow> is_Exception e",
    OF _ assms], intro impI, goal_cases)
  case (1 f E d t h w y)
  have ih: "is_Exception e" if "f E d t h' w' = Some y" for h' w'
    using 1(1) [OF that] 1(3,4) by blast
  obtain yr yw where y: "y = (yr, yw)" by fastforce
  obtain c w1 where c: "time_time E w = (c, w1)" by fastforce
  obtain q w2 where q: "ser_read E t 1 w1 = (q, w2)" by fastforce
  show ?case
  proof (cases q)
    case (Inl x)
    then have "is_Exception x" using q mildD [OF mild_calls(3) [OF 1(4)]] by blast
    then show ?thesis
      by (cases "c < d") (use 1(2,3) c q y Inl in \<open>auto simp del: One_nat_def\<close>)
  next
    case (Inr b)
    then show ?thesis
      using 1(2,3) c q by (auto split: if_splits intro: ih simp del: One_nat_def)
  qed
qed

lemma keygen_wait_raises:
  assumes "keygen_wait E d s = Some y"
  shows "fst y = Inl e \<longrightarrow> tame_env E \<longrightarrow> is_Exception e"
proof (rule keygen_wait.raw_induct [where P = "\<lambda>E d s y. fst y = Inl e \<longrightarrow> tame_env E \<longrightarrow> is_Exception e",
    OF _ assms], intro impI, goal_cases)
  case (1 f E d s y)
  have ih: "is_Exception e" if "f E d s' = Some y" for s'
    using 1(1) [OF that] 1(3,4) by blast
  obtain yr yw where y: "y = (yr, yw)" by fastforce
  obtain c w1 where c: "time_time E (tl_world s) = (c, w1)" by fastforce
  obtain q w2 where q: "ser_readline E 2 w1 = (q, w2)" by fastforce
  show ?case
  proof (cases q)
    case (Inl x)
    have "mild (world_call (ser_readline E 2))" using 1(4) by (simp add: tame_env_def)
    from mildD [OF this, of w1 x w2] have "is_Exception x" using q Inl by simp
    then show ?thesis
      by (cases "c < d") (use 1(2,3) c q y Inl in auto)
  next
    case (Inr raw)
    define a where "a = has_infix (lit ''Key generation successful'') (strip (utf8_ignore raw))"
    define b where "b = has_infix (lit ''Ed25519 key generated'') (strip (utf8_ignore raw))"
    show ?thesis
    proof (cases "c < d \<and> \<not> a")
      case True
      with 1(2) c q Inr obtain s' where "f E d s' = Some y"
        by (cases b) (simp_all del: lit_Cons flip: a_def b_def)
      then show ?thesis by (rule ih)
    next
      case False
      then show ?thesis
        using 1(2,3) c q y Inr by (cases "c < d") (auto simp del: lit_Cons simp flip: a_def b_def)
    qed
  qed
qed

lemma mild_scan_header [mild_intros]: "tame_env E \<Longrightarrow> mild (scan_header E d t h)"
  using scan_header_raises by (fastforce simp: mild_def)

lemma mild_keygen_wait [mild_intros]: "tame_env E \<Longrightarrow> mild (keygen_wait E d)"
  using keygen_wait_raises by (fastforce simp: mild_def)

lemma mild_open_port [mild_intros]: "tame_env E \<Longrightarrow> mild (open_port E p b t)"
  unfolding open_port_def by (intro mild_intros)

lemma mild_talk [mild_intros]: "tame_env E \<Longrightarrow> mild (talk E m d t)"
  unfolding talk_def send_packet_def read_packet_def Let_def
  by (intro mild_intros mild_lift tool_header_raises unpack_be32_raises)

lemma tells_bind: "mild m \<Longrightarrow> (\<And>x. tells True P (k x)) \<Longrightarrow> tells True P (bindP m k)"
  unfolding tells_def mild_def by (fastforce elim!: bindP_SomeE)

lemma tells_say: "P r = success_line l \<Longrightarrow> tells b P (bindP (say l) (\<lambda>_. ret r))"
  by (auto simp: tells_def run_simps)

lemma tells_try: "tells True P m \<Longrightarrow> (\<And>e. tells False P (h e)) \<Longrightarrow> tells False P (tryP m h)"
  unfolding tells_def by (fastforce elim!: tryP_SomeE split: sum.splits)

lemma tells_world: "mild m \<Longrightarrow> (\<And>x. tells True P (k x)) \<Longrightarrow> tells True P (bindP (in_world m) k)"
  by (intro tells_bind mild_intros)

lemma tells_lift:
  "(\<And>e. r = Inl e \<Longrightarrow> is_Exception e) \<Longrightarrow> (\<And>x. tells True P (k x)) \<Longrightarrow> tells True P (bindP (lift_exn r) k)"
  by (intro tells_bind mild_lift)

lemma tells_say_more:
  "tells True P (bindP m k) \<Longrightarrow> tells True P (bindP (say l) (\<lambda>_. bindP m k))"
  by (rule tells_bind) (simp_all add: mild_basic)

lemma tells_case_sum:
  "(\<And>e. x = Inl e \<Longrightarrow> tells b P (f e)) \<Longrightarrow> (\<And>y. x = Inr y \<Longrightarrow> tells b P (g y)) \<Longrightarrow>
    tells b P (case x of Inl e \<Rightarrow> f e | Inr y \<Rightarrow> g y)"
  by (cases x) auto

lemma tells_if: "(b \<Longrightarrow> tells x P m) \<Longrightarrow> (\<not> b \<Longrightarrow> tells x P n) \<Longrightarrow> tells x P (if b then m else n)"
  by simp

lemma tells_error: "\<not> P failed \<Longrightarrow> tells False P (report_error X failed e)"
  unfolding report_error_def by (rule tells_say) (simp add: success_line_def)

lemmas tells_intros =
  tells_try tells_say tells_world tells_lift tells_say_more tells_case_sum tells_if tells_error

lemma unlock_agent_tells: "tame_env E \<Longrightarrow> tells False id (unlock_agent E X p pw b)"
  unfolding unlock_agent_def
  by (intro tells_intros mild_open_port mild_talk utf8_encode_raises) (simp_all add: success_line_def)

lemma lock_agent_tells: "tame_env E \<Longrightarrow> tells False id (lock_agent E X p b)"
  unfolding lock_agent_def
  by (intro tells_intros mild_open_port mild_talk) (simp_all add: success_line_def)

definition some_bytes :: "bytes option \<Rightarrow> bool" where
  "some_bytes x = (case x of None \<Rightarrow> False | Some b \<Rightarrow> b \<noteq> [])"

lemma get_public_key_tells: "tame_env E \<Longrightarrow> tells False some_bytes (get_public_key E X p b)"
  unfolding get_public_key_def Let_def
  by (intro tells_intros mild_open_port mild_talk pack_be32_raises)
    (auto simp: success_line_def some_bytes_def split: option.splits)

lemma sign_challenge_tells: "tame_env E \<Longrightarrow> tells False some_bytes (sign_challenge E X p c b)"
  unfolding sign_challenge_def Let_def
  by (intro tells_intros mild_open_port mild_talk)
    (auto simp: success_line_def some_bytes_def split: option.splits)

lemma try_report: "mild m \<Longrightarrow> tryP m (report_error X x) s \<noteq> Some (Inl e, s')"
proof
  assume "mild m" and "tryP m (report_error X x) s = Some (Inl e, s')"
  from this(2) this(1) show False
    by (cases rule: tryP_SomeE) (auto simp: mild_def report_error_def run_simps)
qed

lemma generate_key_quiet:
  assumes "tame_env E"
  shows "generate_key E X p pw b s \<noteq> Some (Inl e, s')"
  unfolding generate_key_def
  by (intro try_report mild_intros mild_lift utf8_encode_raises assms)

lemma exit_after:
  assumes "tells False P m" and "bindP m (\<lambda>x. exit_with (P x)) s = Some (r, s')"
  shows "\<exists>ok. r = Inl (SystemExit (if ok then 0 else 1)) \<and> tl_out s' \<noteq> [] \<and>
    (ok \<longleftrightarrow> success_line (last (tl_out s')))"
  using assms(2)
proof (cases rule: bindP_SomeE)
  case (raised e)
  then show ?thesis using assms(1) by (fastforce simp: tells_def)
next
  case (went_on x t)
  then show ?thesis using assms(1) by (fastforce simp: tells_def exit_with_def run_simps)
qed

lemma say_and_exit:
  assumes "bindP (say l) (\<lambda>_. exit_with ok) s = Some (r, s')" and "ok = success_line l"
  shows "\<exists>ok. r = Inl (SystemExit (if ok then 0 else 1)) \<and> tl_out s' \<noteq> [] \<and>
    (ok \<longleftrightarrow> success_line (last (tl_out s')))"
  using assms by (auto simp: exit_with_def run_simps)

text \<open>
  C12. The exit status of the tool agrees with what it printed: whatever the arguments, the device and
  the port do, if the tool ends, it ends by \<open>sys.exit\<close>, with 0 exactly when its last line is a line of
  success (\<open>[+] ...\<close> or the public key) and with 1 otherwise.
\<close>

theorem exit_status_matches_last_line:
  assumes "tame_env E" and "\<not> success_line help_text"
    and "tool_main E X help_text a s = Some (r, s')"
  shows "\<exists>ok. r = Inl (SystemExit (if ok then 0 else 1)) \<and> tl_out s' \<noteq> [] \<and>
    (ok \<longleftrightarrow> success_line (last (tl_out s')))"
proof -
  note run = assms(3) [unfolded tool_main_def]
  consider "\<not> ta_generate a \<and> \<not> ta_get_key a \<and> \<not> given (ta_sign a) \<and> \<not> ta_unlock a \<and> \<not> ta_lock a"
    | "ta_generate a" | "\<not> ta_generate a" "ta_unlock a" | "\<not> ta_generate a" "\<not> ta_unlock a" "ta_lock a"
    | "\<not> ta_generate a" "\<not> ta_unlock a" "\<not> ta_lock a" "ta_get_key a"
    | "\<not> ta_generate a" "\<not> ta_unlock a" "\<not> ta_lock a" "\<not> ta_get_key a" "given (ta_sign a)" by blast
  then show ?thesis
  proof cases
    case 1
    then have "bindP (say help_text) (\<lambda>_. exit_with False) s = Some (r, s')" using run by simp
    then show ?thesis using assms(2) by (intro say_and_exit [of help_text False]) simp_all
  next
    case 2
    with run obtain ok t where "end": "(if ok then bindP (say (lit ''[+] Key generation complete'')) (\<lambda>_. exit_with True)
        else bindP (say (lit ''[-] Key generation failed'')) (\<lambda>_. exit_with False)) t = Some (r, s')"
      using generate_key_quiet [OF assms(1)] by (auto elim!: bindP_SomeE simp del: lit_Cons)
    show ?thesis
    proof (cases ok)
      case True
      with "end" show ?thesis
        by (intro say_and_exit [of "lit ''[+] Key generation complete''" True t]) (simp_all add: success_line_def)
    next
      case False
      with "end" show ?thesis
        by (intro say_and_exit [of "lit ''[-] Key generation failed''" False t]) (simp_all add: success_line_def)
    qed
  next
    case 3
    show ?thesis
    proof (cases "given (ta_password a)")
      case True
      with 3 run exit_after [OF unlock_agent_tells [OF assms(1)]] show ?thesis by simp
    next
      case False
      with 3 run show ?thesis
        by (intro say_and_exit [of "lit ''[!] --password is required for --unlock''" False s])
          (simp_all add: success_line_def)
    qed
  next
    case 4
    then show ?thesis using run exit_after [OF lock_agent_tells [OF assms(1)]] by simp
  next
    case 5
    then show ?thesis
      using run exit_after [OF get_public_key_tells [OF assms(1)]] by (simp add: some_bytes_def)
  next
    case 6
    then show ?thesis
      using run exit_after [OF sign_challenge_tells [OF assms(1)]] by (simp add: some_bytes_def)
  qed
qed

lemma sim_tame: "tame_env sim_env"
  by (auto simp: tame_env_def mild_def run_simps sim_env_def split: if_splits)

theorem exit_status_matches_last_line_witness:
  defines "a \<equiv> \<lparr>ta_port = [], ta_baudrate = 115200, ta_generate = False, ta_get_key = False, ta_sign = None,
    ta_password = None, ta_unlock = True, ta_lock = False\<rparr>"
  defines "s' \<equiv> sim_tool (\<lambda>_. [])\<lparr>tl_out := [lit ''[!] --password is required for --unlock'']\<rparr>"
  shows "\<exists>ok. Inl (SystemExit 1) = (Inl (SystemExit (if ok then 0 else 1)) :: exn + unit) \<and> tl_out s' \<noteq> [] \<and>
    (ok \<longleftrightarrow> success_line (last (tl_out s')))"
proof (rule exit_status_matches_last_line [OF sim_tame])
  show "\<not> success_line (lit ''usage: esp32_keytool.py'')" by (simp add: success_line_def)
  show "tool_main sim_env (\<lambda>_. []) (lit ''usage: esp32_keytool.py'') a (sim_tool (\<lambda>_. [])) =
      Some (Inl (SystemExit 1), s')"
    by (simp add: tool_main_def a_def s'_def given_def exit_with_def run_simps)
qed

end
