(* ===== verification/DbAccess.thy ===== *)
theory DbAccess
  imports Effects Codecs
begin

text \<open>
  \<open>src/ai/db_access.py\<close>: the connection that pipes SQL into the \<open>sqlcipher\<close> shell and reads its
  output back. The shell is a parameter (\<open>sql_env\<close>): called with its arguments and its input it gives
  the return code, the standard output and the standard error, or raises. A row is the list of its
  fields; a \<open>float\<close> is kept as the text it was read from, and \<open>str\<close> of one is a parameter too.
\<close>

datatype pyval = VNone | VInt int | VFloat pystr | VStr pystr | VBytes bytes

record 'w sql_env =
  sq_password :: "pystr option"
  sq_path :: pystr
  sq_call :: "pystr list \<Rightarrow> pystr \<Rightarrow> 'w \<Rightarrow> (exn + int \<times> pystr \<times> pystr) \<times> 'w"
  fl_str :: "pystr \<Rightarrow> pystr"

record 'w db =
  db_closed :: bool
  db_world :: 'w

definition db_call :: "('w \<Rightarrow> (exn + 'a) \<times> 'w) \<Rightarrow> ('w db, 'a) prog" where
  "db_call f = (\<lambda>s. case f (db_world s) of (r, w) \<Rightarrow> Some (r, s\<lparr>db_world := w\<rparr>))"

lemma db_call_run [run_simps]:
  "db_call f s = (case f (db_world s) of (r, w) \<Rightarrow> Some (r, s\<lparr>db_world := w\<rparr>))"
  by (simp add: db_call_def)

subsection \<open>Numbers in text\<close>

definition lower_char :: "pychar \<Rightarrow> pychar" where
  "lower_char c = (if 65 \<le> c \<and> c \<le> 90 then c + 32 else c)"

definition unsigned_text :: "pystr \<Rightarrow> pystr" where
  "unsigned_text t = (if t \<noteq> [] \<and> hd t \<in> {43, 45} then tl t else t)"

text \<open>A decimal without sign: digits before and after the point, exponent; \<open>None\<close> for other text.\<close>

definition decimal_parts :: "pystr \<Rightarrow> (pystr \<times> pystr \<times> pystr) option" where
  "decimal_parts u =
     (let ds = takeWhile is_digit u;
          r = dropWhile is_digit u;
          point = (r \<noteq> [] \<and> hd r = 46);
          fs = (if point then takeWhile is_digit (tl r) else []);
          r2 = (if point then dropWhile is_digit (tl r) else r) in
      if ds = [] \<and> fs = [] then None
      else if r2 = [] then Some (ds, fs, [])
      else if lower_char (hd r2) = 101 \<and> unsigned_text (tl r2) \<noteq> []
          \<and> list_all is_digit (unsigned_text (tl r2)) then Some (ds, fs, tl r2)
      else None)"

text \<open>\<open>float(text)\<close>, as far as it does not raise.\<close>

definition py_float :: "pystr \<Rightarrow> exn + pystr" where
  "py_float s =
     (case drop_underscores False (number_text s) of
        None \<Rightarrow> Inl ValueError
      | Some t \<Rightarrow>
          if map lower_char (unsigned_text t) \<in> {lit ''inf'', lit ''infinity'', lit ''nan''}
            \<or> decimal_parts (unsigned_text t) \<noteq> None
          then Inr t else Inl ValueError)"

text \<open>Whether the double nearest to a decimal is zero.\<close>

definition float_is_zero :: "pystr \<Rightarrow> bool" where
  "float_is_zero t =
     (case decimal_parts (unsigned_text t) of
        None \<Rightarrow> False
      | Some (ds, fs, ex) \<Rightarrow>
          let m = the (digits_value 0 (ds @ fs));
              e = (if ex = [] then 0 else if hd ex = 45 then - the (digits_value 0 (tl ex))
                   else the (digits_value 0 (unsigned_text ex)));
              k = int (length fs) - e in
          m = 0 \<or> (0 < k \<and> m * 2 ^ 1075 \<le> 10 ^ nat k))"

definition truthy :: "pyval \<Rightarrow> bool" where
  "truthy v = (case v of
      VNone \<Rightarrow> False | VInt i \<Rightarrow> i \<noteq> 0 | VFloat t \<Rightarrow> \<not> float_is_zero t | VStr s \<Rightarrow> s \<noteq> [] | VBytes b \<Rightarrow> b \<noteq> [])"

subsection \<open>The connection\<close>

definition SEP :: pystr where
  "SEP = lit ''||<SEP>||''"

definition newline :: pystr where
  "newline = [10]"

definition shell_input :: "pystr option \<Rightarrow> pystr \<Rightarrow> pystr" where
  "shell_input password sql =
     lit ''.headers off'' @ newline @
     lit ''.separator \"'' @ SEP @ lit ''\"'' @ newline @
     lit ''.output /dev/null'' @ newline @
     lit ''PRAGMA key=\"'' @ (case password of None \<Rightarrow> lit ''None'' | Some p \<Rightarrow> p) @ lit ''\";'' @ newline @
     lit ''SELECT count(*) FROM sqlite_master;'' @ newline @
     lit ''.output stdout'' @ newline @
     rstrip_by (\<lambda>c. c = 59) sql @ lit '';'' @ newline"

definition db_run :: "'w sql_env \<Rightarrow> pystr \<Rightarrow> ('w db, pystr) prog" where
  "db_run E sql = bindP (reads db_closed) (\<lambda>closed.
     if closed then raise (RuntimeError (lit ''Connection is closed''))
     else bindP (db_call (sq_call E [lit ''sqlcipher'', sq_path E] (shell_input (sq_password E) sql)))
       (\<lambda>(returncode, stdout, stderr).
         if returncode \<noteq> 0 then raise (RuntimeError (lit ''sqlcipher error: '' @ strip stderr))
         else ret stdout))"

text \<open>One value as an SQL literal.\<close>

definition sql_literal :: "('w sql_env) \<Rightarrow> pyval \<Rightarrow> pystr" where
  "sql_literal E v = (case v of
      VNone \<Rightarrow> lit ''NULL''
    | VInt i \<Rightarrow> dec_int i
    | VFloat t \<Rightarrow> fl_str E t
    | VBytes b \<Rightarrow> [88, 39] @ bytes_hex b @ [39]
    | VStr s \<Rightarrow> [39] @ replace_char 39 [39, 39] s @ [39])"

fun bind_params :: "('w sql_env) \<Rightarrow> pystr \<Rightarrow> pyval list \<Rightarrow> exn + pystr" where
  "bind_params E [] params = Inr []"
| "bind_params E (c # sql) params =
     (if c = 63 then
        (case params of
           [] \<Rightarrow> Inl StopIteration
         | val # params \<Rightarrow> bindE (bind_params E sql params) (\<lambda>result. Inr (sql_literal E val @ result)))
      else bindE (bind_params E sql params) (\<lambda>result. Inr (c # result)))"

text \<open>\<open>if params: sql = self._bind_params(sql, params)\<close>\<close>

definition bound_sql :: "'w sql_env \<Rightarrow> pystr \<Rightarrow> pyval list \<Rightarrow> ('w db, pystr) prog" where
  "bound_sql E sql params = (if params \<noteq> [] then lift_exn (bind_params E sql params) else ret sql)"

definition convert :: "pystr \<Rightarrow> pyval" where
  "convert val = (case py_int val of
      Inr i \<Rightarrow> VInt i
    | Inl _ \<Rightarrow> (case py_float val of Inr t \<Rightarrow> VFloat t | Inl _ \<Rightarrow> VStr val))"

definition parse_rows :: "pystr \<Rightarrow> pyval list list" where
  "parse_rows output =
     (if strip output = [] then []
      else map (\<lambda>line. map convert (split_str SEP line))
        (filter (\<lambda>line. line \<noteq> []) (split_str newline (rstrip_by (\<lambda>c. c = 10) output))))"

definition execute :: "'w sql_env \<Rightarrow> pystr \<Rightarrow> pyval list \<Rightarrow> ('w db, pyval list list) prog" where
  "execute E sql params =
     bindP (bound_sql E sql params) (\<lambda>sql.
     bindP (db_run E sql) (\<lambda>output.
     ret (parse_rows output)))"

fun first_int :: "pystr list \<Rightarrow> int option" where
  "first_int [] = None"
| "first_int (line # lines) =
     (if strip line \<noteq> [] then (case py_int (strip line) of Inr i \<Rightarrow> Some i | Inl _ \<Rightarrow> first_int lines)
      else first_int lines)"

definition insert_script :: "pystr \<Rightarrow> pystr" where
  "insert_script sql = rstrip_by (\<lambda>c. c = 59) sql @ lit '';'' @ newline @ lit ''SELECT last_insert_rowid();''"

definition execute_insert :: "'w sql_env \<Rightarrow> pystr \<Rightarrow> pyval list \<Rightarrow> ('w db, int option) prog" where
  "execute_insert E sql params =
     bindP (bound_sql E sql params) (\<lambda>sql.
     bindP (db_run E (insert_script sql)) (\<lambda>output.
     ret (first_int (splitlines (strip output)))))"

definition execute_update :: "'w sql_env \<Rightarrow> pystr \<Rightarrow> pyval list \<Rightarrow> ('w db, unit) prog" where
  "execute_update E sql params =
     bindP (bound_sql E sql params) (\<lambda>sql.
     bindP (db_run E sql) (\<lambda>_.
     ret ()))"

definition db_close :: "('w db, unit) prog" where
  "db_close = modifies (\<lambda>s. s\<lparr>db_closed := True\<rparr>)"

definition get_connection :: "'w sql_env \<Rightarrow> ('w db, unit) prog" where
  "get_connection E =
     bindP (modifies (\<lambda>s. s\<lparr>db_closed := False\<rparr>)) (\<lambda>_.
     bindP (execute E (lit ''SELECT count(*) FROM sqlite_master'') []) (\<lambda>rows.
     if rows = [] then raise (RuntimeError (lit ''Failed to open database '' @ [8212] @ lit '' wrong password?''))
     else ret ()))"

text \<open>
  \<open>own_conn = conn is None ... try: m finally: if own_conn: conn.close()\<close>: with \<open>own\<close> the body runs
  on a connection of its own, and the caller's is as it was.
\<close>

definition with_conn :: "'w sql_env \<Rightarrow> bool \<Rightarrow> ('w db, 'a) prog \<Rightarrow> ('w db, 'a) prog" where
  "with_conn E own m =
     (if \<not> own then m
      else (\<lambda>s. case bindP (get_connection E) (\<lambda>_. finallyP m db_close) s of
          None \<Rightarrow> None
        | Some (r, s') \<Rightarrow> Some (r, s'\<lparr>db_closed := db_closed s\<rparr>)))"

subsection \<open>Queries\<close>

type_synonym row = "(pystr \<times> pyval) list"

definition session_columns :: "pystr list" where
  "session_columns = [lit ''session_id'', lit ''user_id'', lit ''container_id'', lit ''event_type'', lit ''timestamp'']"

definition sessions_query :: "pyval \<Rightarrow> int option \<Rightarrow> pystr \<times> pyval list" where
  "sessions_query user_id since =
     (let sql = lit ''SELECT session_id, user_id, container_id, event_type, timestamp FROM sessions WHERE 1=1'';
          by_user = truthy user_id;
          by_time = (since \<noteq> None \<and> since \<noteq> Some 0) in
      (sql @ (if by_user then lit '' AND user_id = ?'' else []) @
         (if by_time then lit '' AND timestamp >= ?'' else []) @ lit '' ORDER BY timestamp ASC'',
       (if by_user then [user_id] else []) @ (if by_time then [VInt (the since)] else [])))"

definition get_sessions :: "'w sql_env \<Rightarrow> bool \<Rightarrow> pyval \<Rightarrow> int option \<Rightarrow> ('w db, row list) prog" where
  "get_sessions E own user_id since = with_conn E own
     (case sessions_query user_id since of (sql, params) \<Rightarrow>
       bindP (execute E sql params) (\<lambda>rows. ret (map (zip session_columns) rows)))"

definition get_all_users :: "'w sql_env \<Rightarrow> bool \<Rightarrow> ('w db, pyval list) prog" where
  "get_all_users E own = with_conn E own
     (bindP (execute E (lit ''SELECT user_id FROM users'') []) (\<lambda>rows. ret (map hd rows)))"

definition insert_anomaly_report ::
  "'w sql_env \<Rightarrow> bool \<Rightarrow> pyval \<Rightarrow> pystr \<Rightarrow> pystr \<Rightarrow> pystr \<Rightarrow> pystr \<Rightarrow> ('w db, int option) prog" where
  "insert_anomaly_report E own user_id anomaly_type severity summary details_json = with_conn E own
     (execute_insert E (lit ''INSERT INTO anomaly_reports(user_id, anomaly_type, severity, summary, details_json) ''
        @ lit ''VALUES(?,?,?,?,?)'')
      [user_id, VStr anomaly_type, VStr severity, VStr summary, VStr details_json])"

definition pending_columns :: "pystr list" where
  "pending_columns = [lit ''report_id'', lit ''user_id'', lit ''anomaly_type'', lit ''severity'', lit ''summary'',
     lit ''details_json'', lit ''created'']"

definition get_pending_anomalies :: "'w sql_env \<Rightarrow> bool \<Rightarrow> ('w db, row list) prog" where
  "get_pending_anomalies E own = with_conn E own
     (bindP (execute E (lit ''SELECT report_id, user_id, anomaly_type, severity, summary, details_json, ''
        @ lit ''datetime(created_at, '' @ [39] @ lit ''unixepoch'' @ [39] @ lit '') as created ''
        @ lit ''FROM anomaly_reports WHERE status = '' @ [39] @ lit ''pending'' @ [39]
        @ lit '' ORDER BY created_at DESC'') [])
      (\<lambda>rows. ret (map (zip pending_columns) rows)))"

definition command_report_insert :: pystr where
  "command_report_insert =
     lit ''INSERT INTO command_reports(anomaly_report_id, user_id, container_id, analysis_text, risk_level) '' @
     lit ''VALUES(?,?,?,?,?)''"

definition insert_command_report ::
  "'w sql_env \<Rightarrow> bool \<Rightarrow> pyval \<Rightarrow> pyval \<Rightarrow> pyval \<Rightarrow> pystr \<Rightarrow> pystr \<Rightarrow> ('w db, int option) prog" where
  "insert_command_report E own anomaly_id user_id container_id analysis risk_level = with_conn E own
     (execute_insert E command_report_insert [anomaly_id, user_id, container_id, VStr analysis, VStr risk_level])"

definition update_anomaly_status :: "'w sql_env \<Rightarrow> bool \<Rightarrow> pyval \<Rightarrow> pystr \<Rightarrow> ('w db, unit) prog" where
  "update_anomaly_status E own report_id status = with_conn E own
     (execute_update E (lit ''UPDATE anomaly_reports SET status = ? WHERE report_id = ?'') [VStr status, report_id])"

text \<open>\<open>str(v)\<close> of a field, which is never \<open>bytes\<close>\<close>

definition str_val :: "'w sql_env \<Rightarrow> pyval \<Rightarrow> pystr" where
  "str_val E v = (case v of VInt i \<Rightarrow> dec_int i | VFloat t \<Rightarrow> fl_str E t | VStr s \<Rightarrow> s
     | VNone \<Rightarrow> lit ''None'' | VBytes b \<Rightarrow> [])"

definition get_container_key :: "'w sql_env \<Rightarrow> bool \<Rightarrow> pyval \<Rightarrow> pyval \<Rightarrow> ('w db, bytes option) prog" where
  "get_container_key E own user_id container_id = with_conn E own
     (bindP (execute E (lit ''SELECT hex(container_key) FROM containers WHERE user_id = ? AND container_id = ?'')
        [user_id, container_id])
      (\<lambda>rows. if rows \<noteq> [] \<and> truthy (hd (hd rows))
         then bindP (lift_exn (fromhex (str_val E (hd (hd rows))))) (\<lambda>key. ret (Some key))
         else ret None))"

definition report_columns :: "pystr list" where
  "report_columns = pending_columns @ [lit ''status'']"

definition report_query :: pystr where
  "report_query =
     lit ''SELECT report_id, user_id, anomaly_type, severity, summary, details_json, '' @
     lit ''datetime(created_at, '' @ [39] @ lit ''unixepoch'' @ [39] @ lit '') as created, status '' @
     lit ''FROM anomaly_reports WHERE report_id = ?''"

definition get_anomaly_report :: "'w sql_env \<Rightarrow> bool \<Rightarrow> pyval \<Rightarrow> ('w db, row option) prog" where
  "get_anomaly_report E own report_id = with_conn E own
     (bindP (execute E report_query [report_id])
      (\<lambda>rows. ret (if rows \<noteq> [] then Some (zip report_columns (hd rows)) else None)))"

subsection \<open>Fields in a line\<close>

text \<open>\<open>row["key"]\<close> and \<open>row[i]\<close>\<close>

definition row_item :: "row \<Rightarrow> pystr \<Rightarrow> exn + pyval" where
  "row_item r k = (case map_of r k of None \<Rightarrow> Inl KeyError | Some v \<Rightarrow> Inr v)"

definition nth_field :: "pyval list \<Rightarrow> nat \<Rightarrow> exn + pyval" where
  "nth_field r i = (if i < length r then Inr (r ! i) else Inl IndexError)"

text \<open>\<open>f"{v:<w}"\<close>, and a row of such fields, each with a space after it.\<close>

definition format_field :: "'w sql_env \<Rightarrow> nat \<Rightarrow> pyval \<Rightarrow> exn + pystr" where
  "format_field E w v = (case v of
      VInt i \<Rightarrow> Inr (ljust w (dec_int i))
    | VFloat t \<Rightarrow> Inr (ljust w (fl_str E t))
    | VStr s \<Rightarrow> Inr (ljust w s)
    | VNone \<Rightarrow> Inl TypeError
    | VBytes b \<Rightarrow> Inl TypeError)"

fun format_fields :: "'w sql_env \<Rightarrow> (nat \<times> (exn + pyval)) list \<Rightarrow> exn + pystr" where
  "format_fields E [] = Inr []"
| "format_fields E ((w, v) # rest) =
     bindE v (\<lambda>v. bindE (format_field E w v) (\<lambda>s. bindE (format_fields E rest) (\<lambda>line. Inr (s @ [32] @ line))))"

fun each_line :: "('r \<Rightarrow> exn + pystr) \<Rightarrow> 'r list \<Rightarrow> exn + pystr list" where
  "each_line f [] = Inr []"
| "each_line f (r # rows) = bindE (f r) (\<lambda>line. bindE (each_line f rows) (\<lambda>lines. Inr (line # lines)))"

end
