(* ===== verification/Json.thy ===== *)
theory Json
  imports PyText
begin

text \<open>
  Python's \<open>json\<close> as the sources use it: \<open>loads\<close> (strict), \<open>dumps\<close> with its defaults and
  \<open>dump\<close> with \<open>indent=2, ensure_ascii=False\<close>. A \<open>float\<close> is kept as its text. The parser has fuel,
  with \<open>None\<close> where it runs out; \<open>json_loads_total\<close> shows that the fuel \<open>json_loads\<close> gives it is
  enough. Not modelled: the interpreter's limits on recursion depth and on the digits of one integer.
\<close>

datatype json =
    JNull
  | JBool bool
  | JInt int
  | JFloat pystr
  | JStr pystr
  | JList "json list"
  | JDict "(pystr \<times> json) list"

text \<open>\<open>d[k] = v\<close> keeps the place of a key that is there; \<open>d.get(k)\<close>.\<close>

fun dict_put :: "'k \<Rightarrow> 'v \<Rightarrow> ('k \<times> 'v) list \<Rightarrow> ('k \<times> 'v) list" where
  "dict_put k v [] = [(k, v)]"
| "dict_put k v ((k', v') # d) = (if k' = k then (k, v) # d else (k', v') # dict_put k v d)"

lemma dict_put_new: "k \<notin> fst ` set d \<Longrightarrow> dict_put k v d = d @ [(k, v)]"
  by (induction d) auto

lemma map_of_dict_put [simp]: "map_of (dict_put k v d) = (map_of d)(k \<mapsto> v)"
  by (induction d) auto

lemma dict_put_keys: "set (map fst (dict_put k v d)) = insert k (set (map fst d))"
  by (induction k v d rule: dict_put.induct) (auto simp del: set_map)

lemma dict_put_distinct: "distinct (map fst d) \<Longrightarrow> distinct (map fst (dict_put k v d))"
  by (induction k v d rule: dict_put.induct) (auto simp: dict_put_keys simp del: set_map)

subsection \<open>Scanning\<close>

definition json_ws :: "pychar \<Rightarrow> bool" where
  "json_ws c \<longleftrightarrow> c = 32 \<or> c = 9 \<or> c = 10 \<or> c = 13"

definition skip_ws :: "pystr \<Rightarrow> pystr" where
  "skip_ws s = dropWhile json_ws s"

lemma length_skip_ws: "length (skip_ws s) \<le> length s"
  by (simp add: skip_ws_def length_dropWhile_le)

lemma skip_ws_append: "\<forall>c \<in> set w. json_ws c \<Longrightarrow> skip_ws (w @ s) = skip_ws s"
  by (induction w) (auto simp: skip_ws_def)

lemma skip_ws_id: "\<not> json_ws c \<Longrightarrow> skip_ws (c # s) = c # s"
  by (simp add: skip_ws_def)

definition hex_value :: "pychar \<Rightarrow> int option" where
  "hex_value c =
     (if 48 \<le> c \<and> c \<le> 57 then Some (c - 48)
      else if 97 \<le> c \<and> c \<le> 102 then Some (c - 87)
      else if 65 \<le> c \<and> c \<le> 70 then Some (c - 55)
      else None)"

fun hex4 :: "pystr \<Rightarrow> int option" where
  "hex4 (a # b # c # d # rest) =
     (case (hex_value a, hex_value b, hex_value c, hex_value d) of
        (Some w, Some x, Some y, Some z) \<Rightarrow> Some (4096 * w + 256 * x + 16 * y + z)
      | _ \<Rightarrow> None)"
| "hex4 _ = None"

definition simple_escape :: "pychar \<Rightarrow> pychar option" where
  "simple_escape e = map_of
     [(34, 34), (92, 92), (47, 47), (98, 8), (102, 12), (110, 10), (114, 13), (116, 9)] e"

definition high_surrogate :: "int \<Rightarrow> bool" where
  "high_surrogate u \<longleftrightarrow> 0xD800 \<le> u \<and> u \<le> 0xDBFF"

definition low_surrogate :: "int \<Rightarrow> bool" where
  "low_surrogate u \<longleftrightarrow> 0xDC00 \<le> u \<and> u \<le> 0xDFFF"

text \<open>The second half of a surrogate pair, if the text goes on with one.\<close>

definition low_half :: "pystr \<Rightarrow> int option" where
  "low_half s = (if take 2 s = [92, 117] then
      (case hex4 (drop 2 s) of Some u \<Rightarrow> if low_surrogate u then Some u else None | None \<Rightarrow> None)
    else None)"

text \<open>A string from after its opening quote: the string and what follows the closing quote.\<close>

function scanstring :: "pystr \<Rightarrow> (pystr \<times> pystr) option" where
  "scanstring [] = None"
| "scanstring (c # cs) =
     (if c = 34 then Some ([], cs)
      else if c = 92 then
        (if cs = [] then None
         else if hd cs = 117 then
           (case hex4 (tl cs) of
              None \<Rightarrow> None
            | Some u \<Rightarrow>
                (case (if high_surrogate u then low_half (drop 5 cs) else None) of
                   Some u2 \<Rightarrow> map_option (\<lambda>(t, r). ((0x10000 + (u - 0xD800) * 0x400 + (u2 - 0xDC00)) # t, r))
                     (scanstring (drop 11 cs))
                 | None \<Rightarrow> map_option (\<lambda>(t, r). (u # t, r)) (scanstring (drop 5 cs))))
         else
           (case simple_escape (hd cs) of
              None \<Rightarrow> None
            | Some x \<Rightarrow> map_option (\<lambda>(t, r). (x # t, r)) (scanstring (tl cs))))
      else if c < 32 then None
      else map_option (\<lambda>(t, r). (c # t, r)) (scanstring cs))"
  by pat_completeness auto
termination
  by (relation "measure length") auto

declare scanstring.simps [simp del]

lemma scanstring_shorter: "scanstring s = Some (t, r) \<Longrightarrow> length r < length s"
proof (induction s arbitrary: t r rule: measure_induct_rule [of length])
  case (less s)
  have part: "length r < length s" if "scanstring s' = Some (a, r)" "length s' < length s" for s' a
    using less.IH [OF that(2,1)] that(2) by simp
  show ?case
  proof (cases s)
    case (Cons c cs)
    with less.prems show ?thesis
      by (auto simp: scanstring.simps(2) split: if_splits option.splits dest!: part)
  qed (use less.prems in \<open>simp add: scanstring.simps\<close>)
qed

text \<open>A number, by the longest match of the number pattern.\<close>

definition scan_digits :: "pystr \<Rightarrow> pystr" where
  "scan_digits s = takeWhile is_digit s"

definition int_part :: "pystr \<Rightarrow> pystr" where
  "int_part s =
     (let sign = (if s \<noteq> [] \<and> hd s = 45 then [45] else []);
          ds = scan_digits (drop (length sign) s) in
      if ds = [] then [] else if hd ds = 48 then sign @ [48] else sign @ ds)"

definition frac_part :: "pystr \<Rightarrow> pystr" where
  "frac_part s = (if s \<noteq> [] \<and> hd s = 46 \<and> scan_digits (tl s) \<noteq> [] then 46 # scan_digits (tl s) else [])"

definition exp_part :: "pystr \<Rightarrow> pystr" where
  "exp_part s =
     (if s \<noteq> [] \<and> (hd s = 101 \<or> hd s = 69) then
        let sign = (if tl s \<noteq> [] \<and> (hd (tl s) = 43 \<or> hd (tl s) = 45) then [hd (tl s)] else []);
            ds = scan_digits (drop (length sign) (tl s)) in
        if ds = [] then [] else hd s # sign @ ds
      else [])"

definition int_of_text :: "pystr \<Rightarrow> int" where
  "int_of_text s = (if hd s = 45 then - the (digits_value 0 (tl s)) else the (digits_value 0 s))"

definition scan_number :: "pystr \<Rightarrow> (json \<times> pystr) option" where
  "scan_number s =
     (let i = int_part s;
          f = frac_part (drop (length i) s);
          e = exp_part (drop (length (i @ f)) s) in
      if i = [] then None
      else Some (if f = [] \<and> e = [] then JInt (int_of_text i) else JFloat (i @ f @ e),
        drop (length (i @ f @ e)) s))"

lemma scan_number_shorter: "scan_number s = Some (v, r) \<Longrightarrow> length r < length s"
proof -
  assume a: "scan_number s = Some (v, r)"
  then have "int_part s \<noteq> []" by (auto simp: scan_number_def Let_def split: if_splits)
  moreover from this have "s \<noteq> []" by (auto simp: int_part_def scan_digits_def Let_def)
  ultimately show ?thesis using a by (auto simp: scan_number_def Let_def)
qed

subsection \<open>Parsing\<close>

type_synonym 'a parse = "(exn + 'a \<times> pystr) option"

abbreviation bad :: "'a parse" where "bad \<equiv> Some (Inl JSONDecodeError)"
abbreviation good :: "'a \<Rightarrow> pystr \<Rightarrow> 'a parse" where "good v r \<equiv> Some (Inr (v, r))"

definition then_parse :: "'a parse \<Rightarrow> ('a \<Rightarrow> pystr \<Rightarrow> 'b parse) \<Rightarrow> 'b parse" where
  "then_parse p k = (case p of None \<Rightarrow> None | Some (Inl e) \<Rightarrow> Some (Inl e) | Some (Inr (v, r)) \<Rightarrow> k v r)"

lemma then_parse_simps [simp]:
  "then_parse None k = None"
  "then_parse (Some (Inl e)) k = Some (Inl e)"
  "then_parse (good v r) k = k v r"
  by (simp_all add: then_parse_def)

definition lift_scan :: "('a \<times> pystr) option \<Rightarrow> 'a parse" where
  "lift_scan p = (case p of None \<Rightarrow> bad | Some (v, r) \<Rightarrow> good v r)"

text \<open>The constants of \<open>scan_once\<close>, tried where no number is found.\<close>

definition json_word :: "pystr \<Rightarrow> (json \<times> pystr) option" where
  "json_word s =
     (if take 4 s = lit ''null'' then Some (JNull, drop 4 s)
      else if take 4 s = lit ''true'' then Some (JBool True, drop 4 s)
      else if take 5 s = lit ''false'' then Some (JBool False, drop 5 s)
      else if take 3 s = lit ''NaN'' then Some (JFloat (lit ''NaN''), drop 3 s)
      else if take 8 s = lit ''Infinity'' then Some (JFloat (lit ''Infinity''), drop 8 s)
      else if take 9 s = lit ''-Infinity'' then Some (JFloat (lit ''-Infinity''), drop 9 s)
      else None)"

lemma json_word_shorter: "json_word s = Some (v, r) \<Longrightarrow> length r < length s"
  by (cases "s = []") (auto simp: json_word_def split: if_splits)

fun json_value :: "nat \<Rightarrow> pystr \<Rightarrow> json parse"
and json_items :: "nat \<Rightarrow> json list \<Rightarrow> pystr \<Rightarrow> json parse"
and json_members :: "nat \<Rightarrow> (pystr \<times> json) list \<Rightarrow> pystr \<Rightarrow> json parse" where
  "json_value 0 s = None"
| "json_value (Suc n) s =
     (if s = [] then bad
      else if hd s = 34 then then_parse (lift_scan (scanstring (tl s))) (\<lambda>t r. good (JStr t) r)
      else if hd s = 123 then
        (let r = skip_ws (tl s) in
         if r \<noteq> [] \<and> hd r = 125 then good (JDict []) (tl r) else json_members n [] r)
      else if hd s = 91 then
        (let r = skip_ws (tl s) in
         if r \<noteq> [] \<and> hd r = 93 then good (JList []) (tl r) else json_items n [] r)
      else case scan_number s of
          Some (v, r) \<Rightarrow> good v r
        | None \<Rightarrow> lift_scan (json_word s))"
| "json_items 0 acc s = None"
| "json_items (Suc n) acc s =
     then_parse (json_value n s) (\<lambda>v r.
       let r = skip_ws r in
       if r = [] then bad
       else if hd r = 93 then good (JList (acc @ [v])) (tl r)
       else if hd r = 44 then json_items n (acc @ [v]) (skip_ws (tl r))
       else bad)"
| "json_members 0 acc s = None"
| "json_members (Suc n) acc s =
     (if s = [] \<or> hd s \<noteq> 34 then bad
      else then_parse (lift_scan (scanstring (tl s))) (\<lambda>k r.
        let r = skip_ws r in
        if r = [] \<or> hd r \<noteq> 58 then bad
        else then_parse (json_value n (skip_ws (tl r))) (\<lambda>v r.
          let r = skip_ws r in
          if r = [] then bad
          else if hd r = 125 then good (JDict (dict_put k v acc)) (tl r)
          else if hd r = 44 then json_members n (dict_put k v acc) (skip_ws (tl r))
          else bad)))"

text \<open>\<open>json.loads(s)\<close>\<close>

definition json_loads :: "pystr \<Rightarrow> exn + json" where
  "json_loads s =
     (if s \<noteq> [] \<and> hd s = 0xFEFF then Inl JSONDecodeError
      else case json_value (Suc (2 * length s)) (skip_ws s) of
          None \<Rightarrow> Inl JSONDecodeError
        | Some (Inl e) \<Rightarrow> Inl e
        | Some (Inr (v, r)) \<Rightarrow> if skip_ws r = [] then Inr v else Inl JSONDecodeError)"

subsection \<open>The fuel is enough\<close>

text \<open>
  \<open>settles n p\<close>: the parse \<open>p\<close> has a result; a value leaves less than \<open>n\<close> characters, and the only
  error is \<open>JSONDecodeError\<close>.
\<close>

definition settles :: "nat \<Rightarrow> 'a parse \<Rightarrow> bool" where
  "settles n p \<longleftrightarrow> p \<noteq> None \<and> (\<forall>v r. p = good v r \<longrightarrow> length r < n) \<and>
     (\<forall>e. p = Some (Inl e) \<longrightarrow> e = JSONDecodeError)"

lemma settles_simps [simp]:
  "settles n bad" "settles n (good v r) \<longleftrightarrow> length r < n"
  by (auto simp: settles_def)

lemma settles_mono: "settles m p \<Longrightarrow> m \<le> n \<Longrightarrow> settles n p"
  by (auto simp: settles_def)

lemma settles_then:
  "settles m p \<Longrightarrow> (\<And>v r. length r < m \<Longrightarrow> settles n (k v r)) \<Longrightarrow> settles n (then_parse p k)"
  by (cases p) (auto simp: settles_def then_parse_def split: sum.splits)

lemma settles_lift: "(\<And>v r. p = Some (v, r) \<Longrightarrow> length r < n) \<Longrightarrow> settles n (lift_scan p)"
  by (auto simp: lift_scan_def split: option.splits)

lemma skip_tl_shorter: "s \<noteq> [] \<Longrightarrow> length (skip_ws (tl s)) < length s"
  using length_skip_ws [of "tl s"] by (cases s) auto

lemma tl_skip_shorter: "skip_ws s \<noteq> [] \<Longrightarrow> length (tl (skip_ws s)) < length s"
  using length_skip_ws [of s] by (cases "skip_ws s") auto

lemma settles_members:
  assumes "\<And>s. 2 * length s < n \<Longrightarrow> settles (length s) (json_value n s)"
    and "\<And>d s. 2 * length s < n \<Longrightarrow> settles (length s) (json_members n d s)"
    and "2 * length s < Suc n"
  shows "settles (length s) (json_members (Suc n) d s)"
proof (cases "s = [] \<or> hd s \<noteq> 34")
  case False
  note smaller = length_skip_ws [THEN le_less_trans] skip_tl_shorter [THEN less_trans]
    tl_skip_shorter [THEN less_trans]
  have "settles (length (tl s)) (lift_scan (scanstring (tl s)))"
    by (rule settles_lift) (rule scanstring_shorter)
  then show ?thesis
  proof (simp only: json_members.simps Let_def if_not_P [OF False], rule settles_then, goal_cases)
    case (1 k r)
    show ?case
    proof (cases "skip_ws r = [] \<or> hd (skip_ws r) \<noteq> 58")
      case r: False
      define r1 where "r1 = skip_ws (tl (skip_ws r))"
      have r1: "length r1 < length r" "length r < length s"
        using r 1 skip_tl_shorter [of "skip_ws r"] length_skip_ws [of r] by (auto simp: r1_def)
      have "settles (length r1) (json_value n r1)" using assms(1,3) r1 by simp
      then show ?thesis
        unfolding if_not_P [OF r] r1_def [symmetric]
      proof (rule settles_then, goal_cases)
        case (1 v r2)
        define r3 where "r3 = skip_ws r2"
        have "length r3 < length s" using 1 r1 length_skip_ws [of r2] by (simp add: r3_def)
        moreover have "settles (length s) (json_members n (dict_put k v d) (skip_ws (tl r3)))" if "r3 \<noteq> []"
          by (rule settles_mono [OF assms(2)])
            (use skip_tl_shorter [OF that] calculation assms(3) in simp_all)
        ultimately show ?case unfolding r3_def [symmetric] by (cases r3) auto
      qed
    qed auto
  qed
qed auto

lemma settles_items:
  assumes "\<And>s. 2 * length s < n \<Longrightarrow> settles (length s) (json_value n s)"
    and "\<And>acc s. 2 * length s + 1 < n \<Longrightarrow> settles (length s) (json_items n acc s)"
    and "2 * length s + 1 < Suc n"
  shows "settles (length s) (json_items (Suc n) acc s)"
proof -
  have "settles (length s) (json_value n s)" using assms(1,3) by simp
  then show ?thesis
  proof (simp only: json_items.simps Let_def, rule settles_then, goal_cases)
    case (1 v r)
    define r1 where "r1 = skip_ws r"
    have "length r1 < length s" using 1 length_skip_ws [of r] by (simp add: r1_def)
    moreover have "settles (length s) (json_items n (acc @ [v]) (skip_ws (tl r1)))" if "r1 \<noteq> []"
      by (rule settles_mono [OF assms(2)])
        (use skip_tl_shorter [OF that] calculation assms(3) in simp_all)
    ultimately show ?case unfolding r1_def [symmetric] by (cases r1) auto
  qed
qed

lemma settles_value:
  assumes "\<And>acc s. 2 * length s + 1 < n \<Longrightarrow> settles (length s) (json_items n acc s)"
    and "\<And>d s. 2 * length s < n \<Longrightarrow> settles (length s) (json_members n d s)"
    and "2 * length s < Suc n"
  shows "settles (length s) (json_value (Suc n) s)"
proof (cases "s = []")
  case False
  define r where "r = skip_ws (tl s)"
  have r: "length r < length s" using False by (simp add: r_def skip_tl_shorter)
  have "settles (length s) (json_members n [] r)"
    by (rule settles_mono [OF assms(2)]) (use r assms(3) in simp_all)
  moreover have "settles (length s) (json_items n [] r)"
    by (rule settles_mono [OF assms(1)]) (use r assms(3) in simp_all)
  moreover have "settles (length s) (then_parse (lift_scan (scanstring (tl s))) (\<lambda>t r. good (JStr t) r))"
    by (rule settles_then [of "length (tl s)"])
      (use False in \<open>auto intro!: settles_lift dest: scanstring_shorter\<close>)
  moreover have "settles (length s) (case scan_number s of
      Some (v, r) \<Rightarrow> good v r | None \<Rightarrow> lift_scan (json_word s))"
    by (auto split: option.splits intro!: settles_lift dest: scan_number_shorter json_word_shorter)
  moreover have "length (tl r) < length s" using r by simp
  ultimately show ?thesis
    using False by (cases "r = []") (auto simp: Let_def simp flip: r_def)
qed simp

lemma parse_settles:
  "(\<forall>s. 2 * length s < n \<longrightarrow> settles (length s) (json_value n s)) \<and>
   (\<forall>acc s. 2 * length s + 1 < n \<longrightarrow> settles (length s) (json_items n acc s)) \<and>
   (\<forall>d s. 2 * length s < n \<longrightarrow> settles (length s) (json_members n d s))"
proof (induction n)
  case (Suc n)
  then show ?case
    using settles_value [of n] settles_items [of n] settles_members [of n] by blast
qed simp

lemma json_loads_settles: "settles (length (skip_ws s)) (json_value (Suc (2 * length s)) (skip_ws s))"
  using parse_settles [of "Suc (2 * length s)"] length_skip_ws [of s] by (simp del: json_value.simps)

lemma json_loads_total: "json_value (Suc (2 * length s)) (skip_ws s) \<noteq> None"
  using json_loads_settles [of s] by (simp add: settles_def del: json_value.simps)

lemma json_loads_error: "json_loads s = Inl e \<Longrightarrow> e = JSONDecodeError"
  using json_loads_settles [of s]
  by (auto simp: settles_def json_loads_def simp del: json_value.simps
      split: if_splits option.splits sum.splits)

text \<open>More fuel changes nothing.\<close>

lemma then_parse_mono:
  assumes "then_parse p k = Some x" and "\<And>y. p = Some y \<Longrightarrow> q = Some y"
    and "\<And>v r. k v r = Some x \<Longrightarrow> l v r = Some x"
  shows "then_parse q l = Some x"
  using assms by (auto simp: then_parse_def split: option.splits sum.splits)

lemma fuel_step:
  assumes v: "\<And>s x. json_value n s = Some x \<Longrightarrow> json_value m s = Some x"
    and i: "\<And>acc s x. json_items n acc s = Some x \<Longrightarrow> json_items m acc s = Some x"
    and d: "\<And>d s x. json_members n d s = Some x \<Longrightarrow> json_members m d s = Some x"
  shows "json_value (Suc n) s = Some x \<Longrightarrow> json_value (Suc m) s = Some x"
    and "json_items (Suc n) acc s = Some x \<Longrightarrow> json_items (Suc m) acc s = Some x"
    and "json_members (Suc n) e s = Some x \<Longrightarrow> json_members (Suc m) e s = Some x"
proof -
  show "json_value (Suc n) s = Some x \<Longrightarrow> json_value (Suc m) s = Some x"
    by (auto simp: Let_def split: if_splits intro: i d)
  show "json_items (Suc n) acc s = Some x \<Longrightarrow> json_items (Suc m) acc s = Some x"
    unfolding json_items.simps
    by (erule then_parse_mono) (auto simp: Let_def split: if_splits intro: i v)
  assume a: "json_members (Suc n) e s = Some x"
  show "json_members (Suc m) e s = Some x"
  proof (cases "s = [] \<or> hd s \<noteq> 34")
    case False
    show ?thesis
      using a unfolding json_members.simps if_not_P [OF False]
      by (rule then_parse_mono)
        (auto simp: Let_def split: if_splits intro: v d elim!: then_parse_mono)
  qed (use a in auto)
qed

lemma more_fuel:
  "(\<forall>s x. json_value n s = Some x \<longrightarrow> json_value (Suc n) s = Some x) \<and>
   (\<forall>acc s x. json_items n acc s = Some x \<longrightarrow> json_items (Suc n) acc s = Some x) \<and>
   (\<forall>d s x. json_members n d s = Some x \<longrightarrow> json_members (Suc n) d s = Some x)"
proof (induction n)
  case (Suc n)
  then show ?case using fuel_step [of n "Suc n"] by blast
qed simp

lemma more_fuel_le:
  assumes "json_value n s = Some x" and "n \<le> m"
  shows "json_value m s = Some x"
  using assms(2,1) by (induction rule: dec_induct) (use more_fuel in blast)+

lemma more_fuel_items:
  assumes "json_items n acc s = Some x" and "n \<le> m"
  shows "json_items m acc s = Some x"
  using assms(2,1) by (induction rule: dec_induct) (use more_fuel in blast)+

lemma more_fuel_members:
  assumes "json_members n d s = Some x" and "n \<le> m"
  shows "json_members m d s = Some x"
  using assms(2,1) by (induction rule: dec_induct) (use more_fuel in blast)+

text \<open>So a parse with any fuel is the parse of \<open>json_loads\<close>.\<close>

lemma json_loads_by:
  assumes "json_value n (skip_ws s) = good v r" and "skip_ws r = []" and "s = [] \<or> hd s \<noteq> 0xFEFF"
  shows "json_loads s = Inr v"
proof -
  let ?k = "Suc (2 * length s)"
  obtain x where x: "json_value ?k (skip_ws s) = Some x" using json_loads_total [of s] by auto
  have "x = Inr (v, r)"
    using more_fuel_le [OF x, of "max n ?k"] more_fuel_le [OF assms(1), of "max n ?k"] by simp
  then show ?thesis using x assms(2,3) by (auto simp: json_loads_def)
qed

end
