(* ===== verification/JsonText.thy ===== *)
theory JsonText
  imports Json
begin

text \<open>
  \<open>json.dumps\<close> and \<open>json.dump\<close>: one printer over a layout (how a character is escaped, what stands
  between items and before the first and after the last), the layouts of the two calls the sources
  make, the contract of a layout as a locale, and the round trip through \<open>json_loads\<close>, proved once in
  the locale and given to both layouts.
\<close>

subsection \<open>Escapes\<close>

definition hex_digit :: "int \<Rightarrow> pychar" where
  "hex_digit n = (if n < 10 then 48 + n else 87 + n)"

definition u_escape :: "int \<Rightarrow> pystr" where
  "u_escape u = [92, 117, hex_digit (u div 4096 mod 16), hex_digit (u div 256 mod 16),
     hex_digit (u div 16 mod 16), hex_digit (u mod 16)]"

definition short_escape :: "pychar \<Rightarrow> pystr option" where
  "short_escape c = map_of
     [(34, [92, 34]), (92, [92, 92]), (10, [92, 110]), (13, [92, 114]), (9, [92, 116]),
      (12, [92, 102]), (8, [92, 98])] c"

definition escape_ascii :: "pychar \<Rightarrow> pystr" where
  "escape_ascii c = (case short_escape c of Some e \<Rightarrow> e | None \<Rightarrow>
     if 32 \<le> c \<and> c \<le> 126 then [c]
     else if c < 0x10000 then u_escape c
     else u_escape (0xD800 + (c - 0x10000) div 0x400) @ u_escape (0xDC00 + (c - 0x10000) mod 0x400))"

definition escape_unicode :: "pychar \<Rightarrow> pystr" where
  "escape_unicode c = (case short_escape c of Some e \<Rightarrow> e | None \<Rightarrow>
     if c < 32 then u_escape c else [c])"

subsection \<open>Printing\<close>

record layout =
  lay_escape :: "pychar \<Rightarrow> pystr"
  lay_break :: "nat \<Rightarrow> pystr"
  lay_sep :: "nat \<Rightarrow> pystr"

definition quoted :: "layout \<Rightarrow> pystr \<Rightarrow> pystr" where
  "quoted lay s = [34] @ concat (map (lay_escape lay) s) @ [34]"

fun json_print :: "layout \<Rightarrow> nat \<Rightarrow> json \<Rightarrow> pystr" where
  "json_print lay l JNull = lit ''null''"
| "json_print lay l (JBool b) = (if b then lit ''true'' else lit ''false'')"
| "json_print lay l (JInt i) = dec_int i"
| "json_print lay l (JFloat t) = t"
| "json_print lay l (JStr s) = quoted lay s"
| "json_print lay l (JList vs) =
     (if vs = [] then lit ''[]''
      else lit ''['' @ lay_break lay (Suc l) @
        join (lay_sep lay (Suc l)) (map (json_print lay (Suc l)) vs) @ lay_break lay l @ lit '']'')"
| "json_print lay l (JDict kvs) =
     (if kvs = [] then lit ''{}''
      else lit ''{'' @ lay_break lay (Suc l) @
        join (lay_sep lay (Suc l)) (map (\<lambda>(k, v). quoted lay k @ lit '': '' @ json_print lay (Suc l) v) kvs) @
        lay_break lay l @ lit ''}'')"

definition compact :: layout where
  "compact = \<lparr>lay_escape = escape_ascii, lay_break = (\<lambda>l. []), lay_sep = (\<lambda>l. [44, 32])\<rparr>"

definition indented2 :: layout where
  "indented2 = \<lparr>lay_escape = escape_unicode, lay_break = (\<lambda>l. 10 # replicate (2 * l) 32),
     lay_sep = (\<lambda>l. 44 # 10 # replicate (2 * l) 32)\<rparr>"

text \<open>\<open>json.dumps(v)\<close> and the text of \<open>json.dump(v, f, indent=2, ensure_ascii=False)\<close>\<close>

definition json_dumps :: "json \<Rightarrow> pystr" where
  "json_dumps v = json_print compact 0 v"

definition json_dump_indented :: "json \<Rightarrow> pystr" where
  "json_dump_indented v = json_print indented2 0 v"

subsection \<open>Values that have a text\<close>

definition scalar :: "pychar \<Rightarrow> bool" where
  "scalar c \<longleftrightarrow> 0 \<le> c \<and> c < 0x110000 \<and> \<not> (0xD800 \<le> c \<and> c \<le> 0xDFFF)"

definition float_text :: "pystr \<Rightarrow> bool" where
  "float_text t \<longleftrightarrow> scan_number t = Some (JFloat t, []) \<or>
     t = lit ''NaN'' \<or> t = lit ''Infinity'' \<or> t = lit ''-Infinity''"

fun json_ok :: "json \<Rightarrow> bool" where
  "json_ok JNull = True"
| "json_ok (JBool b) = True"
| "json_ok (JInt i) = True"
| "json_ok (JFloat t) = float_text t"
| "json_ok (JStr s) = list_all scalar s"
| "json_ok (JList vs) = list_all json_ok vs"
| "json_ok (JDict kvs) =
     (distinct (map fst kvs) \<and> list_all (\<lambda>(k, v). list_all scalar k \<and> json_ok v) kvs)"

subsection \<open>Escapes are read back\<close>

lemma hex_value_digit: "0 \<le> n \<Longrightarrow> n < 16 \<Longrightarrow> hex_value (hex_digit n) = Some n"
  by (auto simp: hex_value_def hex_digit_def)

lemma hex_digit_mod: "hex_value (hex_digit (n mod 16)) = Some (n mod 16)"
  by (rule hex_value_digit) simp_all

lemma hex_split:
  fixes u :: int
  shows "4096 * (u div 4096) + 256 * (u div 256 mod 16) + 16 * (u div 16 mod 16) + u mod 16 = u"
proof -
  have "u div 256 = u div 16 div 16" "u div 4096 = u div 256 div 16"
    by (simp_all add: zdiv_zmult2_eq [symmetric])
  then show ?thesis
    using div_mult_mod_eq [of u 16] div_mult_mod_eq [of "u div 16" 16] div_mult_mod_eq [of "u div 256" 16]
    by linarith
qed

lemma hex4_u_escape:
  assumes "0 \<le> u" and "u < 0x10000"
  shows "hex4 (drop 2 (u_escape u) @ rest) = Some u"
proof -
  have "u div 4096 mod 16 = u div 4096"
    using assms div_mult_mod_eq [of u 4096] pos_mod_sign [of 4096 u] pos_mod_bound [of 4096 u]
    by (intro mod_pos_pos_trivial) linarith+
  moreover have "hex4 (drop 2 (u_escape u) @ rest) = Some (4096 * (u div 4096 mod 16) +
      256 * (u div 256 mod 16) + 16 * (u div 16 mod 16) + u mod 16)"
    by (simp add: u_escape_def hex_digit_mod)
  ultimately show ?thesis by (simp only: hex_split)
qed

lemma u_escape_shape: "u_escape u = 92 # 117 # drop 2 (u_escape u)" "length (u_escape u) = 6"
  by (simp_all add: u_escape_def)

definition push :: "pychar \<Rightarrow> (pystr \<times> pystr) option \<Rightarrow> (pystr \<times> pystr) option" where
  "push c = map_option (\<lambda>(t, r). (c # t, r))"

lemma scan_u_escape:
  assumes "0 \<le> u" and "u < 0x10000" and "\<not> high_surrogate u"
  shows "scanstring (u_escape u @ rest) = push u (scanstring rest)"
proof -
  have "drop 5 (117 # drop 2 (u_escape u) @ rest) = rest" by (simp add: u_escape_def)
  then show ?thesis
    using hex4_u_escape [OF assms(1,2), of rest] assms(3)
    by (subst u_escape_shape(1)) (simp add: scanstring.simps push_def)
qed

lemma scan_pair:
  assumes "high_surrogate u" and "low_surrogate u2"
  shows "scanstring (u_escape u @ u_escape u2 @ rest) =
    push (0x10000 + (u - 0xD800) * 0x400 + (u2 - 0xDC00)) (scanstring rest)"
proof -
  have u: "0 \<le> u" "u < 0x10000" "0 \<le> u2" "u2 < 0x10000"
    using assms by (auto simp: high_surrogate_def low_surrogate_def)
  have "drop 5 (117 # drop 2 (u_escape u) @ u_escape u2 @ rest) = u_escape u2 @ rest"
    "drop 11 (117 # drop 2 (u_escape u) @ u_escape u2 @ rest) = rest"
    by (simp_all add: u_escape_def)
  moreover have "low_half (u_escape u2 @ rest) = Some u2"
    using hex4_u_escape [OF u(3,4), of rest] assms(2)
    by (subst u_escape_shape(1)) (simp add: low_half_def)
  ultimately show ?thesis
    using hex4_u_escape [OF u(1,2), of "u_escape u2 @ rest"] assms(1)
    by (subst (1) u_escape_shape(1)) (simp add: scanstring.simps push_def)
qed

lemma scan_plain:
  "32 \<le> c \<Longrightarrow> c \<noteq> 34 \<Longrightarrow> c \<noteq> 92 \<Longrightarrow> scanstring (c # rest) = push c (scanstring rest)"
  by (simp add: scanstring.simps push_def)

lemma scan_short: "short_escape c = Some e \<Longrightarrow> scanstring (e @ rest) = push c (scanstring rest)"
  by (auto simp: short_escape_def scanstring.simps push_def simple_escape_def split: if_splits)

lemma scan_escape_ascii:
  assumes "scalar c"
  shows "scanstring (escape_ascii c @ rest) = push c (scanstring rest)"
proof (cases "short_escape c")
  case None
  then have plain: "c \<noteq> 34" "c \<noteq> 92" by (auto simp: short_escape_def split: if_splits)
  have c: "0 \<le> c" "c < 0x110000" "\<not> high_surrogate c"
    using assms by (auto simp: scalar_def high_surrogate_def)
  show ?thesis
  proof (cases "c < 0x10000")
    case True
    then show ?thesis
      using None plain c scan_plain [of c rest] scan_u_escape [of c rest] by (simp add: escape_ascii_def)
  next
    case False
    define u where "u = 0xD800 + (c - 0x10000) div 0x400"
    define u2 where "u2 = 0xDC00 + (c - 0x10000) mod 0x400"
    have "high_surrogate u" "low_surrogate u2"
      using False c by (auto simp: u_def u2_def high_surrogate_def low_surrogate_def)
    moreover have "0x10000 + (u - 0xD800) * 0x400 + (u2 - 0xDC00) = c"
      by (simp add: u_def u2_def)
    ultimately show ?thesis
      using None False scan_pair [of u u2 rest] by (simp add: escape_ascii_def flip: u_def u2_def)
  qed
qed (simp add: escape_ascii_def scan_short)

lemma scan_escape_unicode:
  assumes "scalar c"
  shows "scanstring (escape_unicode c @ rest) = push c (scanstring rest)"
proof (cases "short_escape c")
  case None
  then have "c \<noteq> 34" "c \<noteq> 92" by (auto simp: short_escape_def split: if_splits)
  then show ?thesis
    using None assms scan_plain [of c rest] scan_u_escape [of c rest]
    by (auto simp: escape_unicode_def scalar_def high_surrogate_def)
qed (simp add: escape_unicode_def scan_short)

subsection \<open>Numbers are read back\<close>

text \<open>\<open>ends_number rest\<close>: no number goes on into \<open>rest\<close>.\<close>

definition ends_number :: "pystr \<Rightarrow> bool" where
  "ends_number rest \<longleftrightarrow> rest = [] \<or>
     \<not> is_digit (hd rest) \<and> hd rest \<notin> {43, 45, 46, 69, 101}"

lemma scan_digits_append: "ends_number rest \<Longrightarrow> scan_digits (s @ rest) = scan_digits s"
  by (induction s; cases rest) (auto simp: scan_digits_def ends_number_def)

lemma scan_digits_ends: "ends_number rest \<Longrightarrow> scan_digits rest = []"
  using scan_digits_append [of rest "[]"] by (simp add: scan_digits_def)

lemma int_part_append: "ends_number rest \<Longrightarrow> s \<noteq> [] \<Longrightarrow> int_part (s @ rest) = int_part s"
  by (cases s) (simp_all add: int_part_def Let_def scan_digits_append scan_digits_append [of rest "c # _" for c, simplified])

lemma frac_part_append: "ends_number rest \<Longrightarrow> frac_part (s @ rest) = frac_part s"
  by (cases s) (auto simp: frac_part_def scan_digits_append ends_number_def)

lemma exp_part_append:
  assumes "ends_number rest"
  shows "exp_part (s @ rest) = exp_part s"
proof (cases s)
  case Nil
  then show ?thesis using assms by (auto simp: exp_part_def ends_number_def)
next
  case (Cons c t)
  have step: "scan_digits (a # u @ rest) = scan_digits (a # u)" for a u
    using scan_digits_append [OF assms, of "a # u"] by simp
  have "rest = [] \<or> hd rest \<noteq> 43 \<and> hd rest \<noteq> 45"
    using assms by (auto simp: ends_number_def)
  with Cons show ?thesis
    using scan_digits_ends [OF assms] scan_digits_append [OF assms] scan_digits_append [OF assms, of "[]"]
    by (cases t) (auto simp: exp_part_def Let_def step)
qed

lemma prefix_lengths:
  "length (int_part s) \<le> length s" "length (frac_part s) \<le> length s" "length (exp_part s) \<le> length s"
proof -
  have d: "length (scan_digits (drop n s)) \<le> length s - n" for n s
    using length_takeWhile_le [of is_digit "drop n s"] by (simp add: scan_digits_def)
  show "length (int_part s) \<le> length s"
    using d [of 0 s] d [of 1 s] by (cases s; cases "scan_digits (tl s)") (auto simp: int_part_def Let_def)
  show "length (frac_part s) \<le> length s"
    using d [of 1 s] by (cases s) (auto simp: frac_part_def)
  show "length (exp_part s) \<le> length s"
    using d [of 1 s] d [of 2 s] by (cases s; cases "tl s") (auto simp: exp_part_def Let_def)
qed

lemma scan_number_append:
  assumes "ends_number rest" and "s \<noteq> []"
  shows "scan_number (s @ rest) = map_option (\<lambda>(v, r). (v, r @ rest)) (scan_number s)"
proof -
  define i where "i = int_part s"
  define f where "f = frac_part (drop (length i) s)"
  define e where "e = exp_part (drop (length (i @ f)) s)"
  have len: "length i \<le> length s" "length (i @ f) \<le> length s" "length (i @ f @ e) \<le> length s"
    using prefix_lengths(1) [of s] prefix_lengths(2) [of "drop (length i) s"]
      prefix_lengths(3) [of "drop (length (i @ f)) s"] by (auto simp: i_def f_def e_def)
  then have "int_part (s @ rest) = i" "frac_part (drop (length i) (s @ rest)) = f"
    "exp_part (drop (length (i @ f)) (s @ rest)) = e"
    using assms by (simp_all add: int_part_append frac_part_append exp_part_append i_def f_def e_def)
  then have "scan_number (s @ rest) = (if i = [] then None
      else Some (if f = [] \<and> e = [] then JInt (int_of_text i) else JFloat (i @ f @ e),
        drop (length (i @ f @ e)) (s @ rest)))"
    by (simp only: scan_number_def Let_def)
  moreover have "scan_number s = (if i = [] then None
      else Some (if f = [] \<and> e = [] then JInt (int_of_text i) else JFloat (i @ f @ e),
        drop (length (i @ f @ e)) s))"
    by (simp only: scan_number_def Let_def i_def f_def e_def)
  ultimately show ?thesis using len(3) by simp
qed

lemma digits_value_append:
  "list_all is_digit a \<Longrightarrow> digits_value acc (a @ b) = digits_value (the (digits_value acc a)) b"
  by (induction a arbitrary: acc) auto

lemma digits_value_dec_nat: "digits_value 0 (dec_nat n) = Some (int n)"
proof (induction n rule: dec_nat.induct)
  case (1 n)
  have "list_all is_digit (dec_nat m)" for m
    by (simp add: list_all_iff dec_nat_digits)
  moreover have "10 * int (n div 10) + int (n mod 10) = int n"
    by (metis mult_div_mod_eq of_nat_add of_nat_mult of_nat_numeral)
  ultimately show ?case
    using 1 by (subst dec_nat.simps) (simp add: digits_value_append is_digit_def)
qed

lemma hd_dec_nat: "0 < n \<Longrightarrow> hd (dec_nat n) \<noteq> 48"
proof (induction n rule: dec_nat.induct)
  case (1 n)
  then show ?case
    using dec_nat_nonempty [of "n div 10"] by (subst dec_nat.simps) (simp add: hd_append)
qed

lemma dec_nat_0: "dec_nat 0 = [48]"
  by (simp add: dec_nat.simps)

lemma scan_digits_dec_nat: "scan_digits (dec_nat n) = dec_nat n"
  using dec_nat_digits by (simp add: scan_digits_def takeWhile_eq_all_conv)

lemma hd_dec_nat_digit: "is_digit (hd (dec_nat n))"
  using dec_nat_nonempty dec_nat_digits by (metis hd_in_set)

lemma int_part_dec_int: "int_part (dec_int i) = dec_int i"
proof (cases "i < 0")
  case True
  then show ?thesis
    using hd_dec_nat [of "nat (- i)"] dec_nat_nonempty
    by (simp add: dec_int_def int_part_def scan_digits_dec_nat)
next
  case False
  moreover have "int_part [48] = [48]" by (simp add: int_part_def scan_digits_def is_digit_def)
  ultimately show ?thesis
    using hd_dec_nat [of "nat i"] dec_nat_nonempty [of "nat i"] hd_dec_nat_digit [of "nat i"]
    by (cases "i = 0")
      (auto simp: dec_int_def dec_nat_0, auto simp: int_part_def scan_digits_dec_nat is_digit_def Let_def)
qed

lemma scan_number_dec_int: "scan_number (dec_int i) = Some (JInt i, [])"
proof -
  have "int_of_text (dec_int i) = i"
    using hd_dec_nat_digit [of "nat i"]
    by (auto simp: int_of_text_def dec_int_def digits_value_dec_nat is_digit_def)
  moreover have "dec_int i \<noteq> []" using dec_nat_nonempty by (simp add: dec_int_def)
  ultimately show ?thesis
    by (simp add: scan_number_def int_part_dec_int frac_part_def exp_part_def)
qed

lemma scan_number_start: "s \<noteq> [] \<Longrightarrow> hd s \<noteq> 45 \<Longrightarrow> \<not> is_digit (hd s) \<Longrightarrow> scan_number s = None"
  by (cases s) (simp_all add: scan_number_def int_part_def scan_digits_def)

lemma scan_number_Nil: "scan_number [] = None"
  by (simp add: scan_number_def int_part_def scan_digits_def)

lemma scan_number_hd: "scan_number s = Some x \<Longrightarrow> s \<noteq> [] \<and> (hd s = 45 \<or> is_digit (hd s))"
  using scan_number_start [of s] scan_number_Nil by (cases "s = []") auto

subsection \<open>The round trip\<close>

lemma items_last:
  "json_value n s = good v r \<Longrightarrow> skip_ws r = 93 # r' \<Longrightarrow> json_items (Suc n) acc s = good (JList (acc @ [v])) r'"
  by simp

lemma items_more:
  assumes "json_value n s = good v r" and "skip_ws r = 44 # r'"
    and "json_items m (acc @ [v]) (skip_ws r') = good w q"
  shows "\<exists>k. json_items k acc s = good w q"
proof -
  have "json_value (max n m) s = good v r" "json_items (max n m) (acc @ [v]) (skip_ws r') = good w q"
    using more_fuel_le [OF assms(1)] more_fuel_items [OF assms(3)] by simp_all
  then have "json_items (Suc (max n m)) acc s = good w q"
    using assms(2) by simp
  then show ?thesis by blast
qed

lemma member_key:
  assumes "scanstring s = Some (k, 58 # r)"
  shows "json_members (Suc n) d (34 # s) = then_parse (json_value n (skip_ws r)) (\<lambda>v r.
    let r = skip_ws r in
    if r = [] then bad
    else if hd r = 125 then good (JDict (dict_put k v d)) (tl r)
    else if hd r = 44 then json_members n (dict_put k v d) (skip_ws (tl r))
    else bad)"
  using assms by (simp add: lift_scan_def skip_ws_id json_ws_def)

lemma members_last:
  "scanstring s = Some (k, 58 # r) \<Longrightarrow> json_value n (skip_ws r) = good v r1 \<Longrightarrow> skip_ws r1 = 125 # r2 \<Longrightarrow>
    json_members (Suc n) d (34 # s) = good (JDict (dict_put k v d)) r2"
  by (simp add: member_key del: json_members.simps)

lemma members_more:
  assumes "scanstring s = Some (k, 58 # r)" and "json_value n (skip_ws r) = good v r1"
    and "skip_ws r1 = 44 # r2" and "json_members m (dict_put k v d) (skip_ws r2) = good w q"
  shows "\<exists>i. json_members i d (34 # s) = good w q"
proof -
  have "json_value (max n m) (skip_ws r) = good v r1"
    "json_members (max n m) (dict_put k v d) (skip_ws r2) = good w q"
    using more_fuel_le [OF assms(2)] more_fuel_members [OF assms(4)] by simp_all
  then have "json_members (Suc (max n m)) d (34 # s) = good w q"
    using assms(3) by (simp add: member_key [OF assms(1)] del: json_members.simps)
  then show ?thesis by blast
qed

lemma ends_number_ws: "\<forall>c \<in> set w. json_ws c \<Longrightarrow> c \<in> {44, 93, 125} \<Longrightarrow> ends_number (w @ c # rest)"
  by (cases w) (auto simp: ends_number_def json_ws_def is_digit_def)

text \<open>A text does not begin with white space or a closing bracket.\<close>

definition starts :: "pystr \<Rightarrow> bool" where
  "starts s \<longleftrightarrow> s \<noteq> [] \<and> \<not> json_ws (hd s) \<and> hd s \<notin> {93, 125, 0xFEFF}"

lemma starts_append: "starts s \<Longrightarrow> starts (s @ t)"
  by (auto simp: starts_def)

lemma starts_skip: "starts s \<Longrightarrow> skip_ws s = s"
  by (cases s) (auto simp: starts_def skip_ws_id)

lemma starts_number: "s \<noteq> [] \<Longrightarrow> hd s = 45 \<or> is_digit (hd s) \<Longrightarrow> starts s"
  by (auto simp: starts_def json_ws_def is_digit_def)

lemma starts_print: "json_ok v \<Longrightarrow> starts (json_print lay l v)"
proof (cases v)
  case (JInt i)
  then show ?thesis
    using scan_number_hd [OF scan_number_dec_int] by (auto intro: starts_number)
next
  case (JFloat t)
  assume "json_ok v"
  with JFloat consider "scan_number t = Some (JFloat t, [])" | "t \<in> {lit ''NaN'', lit ''Infinity'', lit ''-Infinity''}"
    by (auto simp: float_text_def)
  then show ?thesis
  proof cases
    case 1
    then show ?thesis using JFloat scan_number_hd [OF 1] by (simp add: starts_number)
  next
    case 2
    then show ?thesis using JFloat by (auto simp: starts_def json_ws_def)
  qed
qed (auto simp: starts_def json_ws_def quoted_def)

text \<open>\<open>printed lay v\<close>: the text of \<open>v\<close> is read back, at any level and before anything that ends a number.\<close>

definition printed :: "layout \<Rightarrow> json \<Rightarrow> bool" where
  "printed lay v \<longleftrightarrow> (\<forall>l rest. starts (json_print lay l v) \<and>
     (ends_number rest \<longrightarrow> (\<exists>n. json_value n (json_print lay l v @ rest) = good v rest)))"

lemma printed_read:
  assumes "printed lay v" and "ends_number rest"
  obtains n where "json_value n (json_print lay l v @ rest) = good v rest"
  using assms by (auto simp: printed_def)

locale json_layout =
  fixes lay :: layout
  assumes escape: "scalar c \<Longrightarrow> scanstring (lay_escape lay c @ rest) = push c (scanstring rest)"
    and blank: "\<forall>c \<in> set (lay_break lay l). json_ws c"
    and comma: "\<exists>w. lay_sep lay l = 44 # w \<and> (\<forall>c \<in> set w. json_ws c)"
begin

lemma scan_quoted: "list_all scalar s \<Longrightarrow> scanstring (concat (map (lay_escape lay) s) @ 34 # rest) = Some (s, rest)"
proof (induction s)
  case Nil
  then show ?case by (simp add: scanstring.simps)
next
  case (Cons c s)
  then show ?case by (simp add: escape push_def)
qed

lemma read_items:
  assumes "\<forall>v \<in> set vs. printed lay v" and "vs \<noteq> []" and "\<forall>c \<in> set w. json_ws c"
  shows "\<exists>n. json_items n acc (join (lay_sep lay l) (map (json_print lay l) vs) @ w @ 93 # rest) =
    good (JList (acc @ vs)) rest"
  using assms(1,2)
proof (induction vs arbitrary: acc)
  case (Cons v vs)
  show ?case
  proof (cases vs)
    case Nil
    obtain n where "json_value n (json_print lay l v @ w @ 93 # rest) = good v (w @ 93 # rest)"
      by (rule printed_read [of lay v "w @ 93 # rest"]) (use Cons.prems assms(3) ends_number_ws in auto)
    from items_last [OF this, of rest acc] Nil show ?thesis
      using assms(3) by (auto simp: skip_ws_append skip_ws_id json_ws_def simp del: json_items.simps)
  next
    case more: (Cons v' vs')
    obtain u where u: "lay_sep lay l = 44 # u" "\<forall>c \<in> set u. json_ws c" using comma by blast
    let ?t = "join (lay_sep lay l) (map (json_print lay l) vs) @ w @ 93 # rest"
    obtain n where n: "json_value n (json_print lay l v @ 44 # u @ ?t) = good v (44 # u @ ?t)"
      by (rule printed_read [of lay v "44 # u @ ?t"])
        (use Cons.prems ends_number_ws [of "[]" 44] in auto)
    obtain m where m: "json_items m (acc @ [v]) ?t = good (JList ((acc @ [v]) @ vs)) rest"
      using Cons.IH [of "acc @ [v]"] Cons.prems more by auto
    have "starts ?t"
      using Cons.prems more by (cases vs') (auto simp: printed_def intro: starts_append)
    then have "skip_ws (u @ ?t) = ?t"
      using u by (simp add: skip_ws_append starts_skip)
    then show ?thesis
      using items_more [OF n, of "u @ ?t" m acc] m more u(1)
      by (simp add: skip_ws_id json_ws_def)
  qed
qed simp

abbreviation (input) member_text :: "nat \<Rightarrow> pystr \<times> json \<Rightarrow> pystr" where
  "member_text l \<equiv> (\<lambda>(k, v). quoted lay k @ lit '': '' @ json_print lay l v)"

lemma member_scan:
  "list_all scalar k \<Longrightarrow> scanstring (concat (map (lay_escape lay) k) @ 34 # 58 # 32 # s) = Some (k, 58 # 32 # s)"
  by (rule scan_quoted)

lemma read_members:
  assumes "\<forall>(k, v) \<in> set kvs. list_all scalar k \<and> printed lay v" and "kvs \<noteq> []"
    and "distinct (map fst (d @ kvs))" and "\<forall>c \<in> set w. json_ws c"
  shows "\<exists>n. json_members n d (join (lay_sep lay l) (map (member_text l) kvs) @ w @ 125 # rest) =
    good (JDict (d @ kvs)) rest"
  using assms(1-3)
proof (induction kvs arbitrary: d)
  case (Cons kv kvs)
  obtain k v where kv: "kv = (k, v)" by fastforce
  have k: "list_all scalar k" and v: "printed lay v" and new: "dict_put k v d = d @ [(k, v)]"
    using Cons.prems kv by (auto simp: dict_put_new)
  let ?q = "concat (map (lay_escape lay) k)"
  have spc: "skip_ws (32 # json_print lay l v @ s) = json_print lay l v @ s" for s
    using v skip_ws_append [of "[32]"] starts_skip [of "json_print lay l v @ s"]
    by (auto simp: printed_def json_ws_def starts_append)
  show ?case
  proof (cases kvs)
    case Nil
    obtain n where "json_value n (json_print lay l v @ w @ 125 # rest) = good v (w @ 125 # rest)"
      by (rule printed_read [OF v, of "w @ 125 # rest"]) (use assms(4) ends_number_ws in auto)
    then have "json_members (Suc n) d (34 # ?q @ 34 # 58 # 32 # json_print lay l v @ w @ 125 # rest) =
        good (JDict (dict_put k v d)) rest"
      by (intro members_last [OF member_scan [OF k]])
        (use assms(4) spc in \<open>auto simp: skip_ws_append skip_ws_id json_ws_def\<close>)
    then show ?thesis using Nil kv new by (auto simp: quoted_def simp del: json_members.simps)
  next
    case more: (Cons kv' kvs')
    obtain u where u: "lay_sep lay l = 44 # u" "\<forall>c \<in> set u. json_ws c" using comma by blast
    let ?t = "join (lay_sep lay l) (map (member_text l) kvs) @ w @ 125 # rest"
    obtain n where n: "json_value n (json_print lay l v @ 44 # u @ ?t) = good v (44 # u @ ?t)"
      by (rule printed_read [OF v, of "44 # u @ ?t"]) (use ends_number_ws [of "[]" 44] in auto)
    obtain m where m: "json_members m (dict_put k v d) ?t = good (JDict (dict_put k v d @ kvs)) rest"
      using Cons.IH [of "dict_put k v d"] Cons.prems more kv new by auto
    have "starts ?t"
      using more by (cases kv'; cases kvs') (auto simp: quoted_def starts_def json_ws_def)
    then have "skip_ws (u @ ?t) = ?t"
      using u by (simp add: skip_ws_append starts_skip)
    then have "\<exists>i. json_members i d (34 # ?q @ 34 # 58 # 32 # json_print lay l v @ 44 # u @ ?t) =
        good (JDict (dict_put k v d @ kvs)) rest"
      by (intro members_more [OF member_scan [OF k], where n = n and v = v and m = m and
          ?r1.0 = "44 # u @ ?t" and ?r2.0 = "u @ ?t"])
        (use n m spc in \<open>auto simp: skip_ws_id json_ws_def\<close>)
    then show ?thesis using more kv new u(1) by (auto simp: quoted_def simp del: json_members.simps)
  qed
qed simp

lemma print_read: "json_ok v \<Longrightarrow> printed lay v"
proof (induction v)
  case (JInt i)
  have "dec_int i \<noteq> []" using scan_number_hd [OF scan_number_dec_int] by simp
  moreover have "hd (dec_int i) \<notin> {34, 91, 123}"
    using scan_number_hd [OF scan_number_dec_int, of i] by (auto simp: is_digit_def)
  ultimately have "json_value (Suc 0) (dec_int i @ rest) = good (JInt i) rest" if "ends_number rest" for rest
    using that scan_number_append [OF that, of "dec_int i"] by (simp add: scan_number_dec_int)
  then show ?case using starts_print [OF JInt] unfolding printed_def json_print.simps by blast
next
  case (JFloat t)
  have "\<exists>n. json_value n (t @ rest) = good (JFloat t) rest" if "ends_number rest" for rest
  proof (cases "scan_number t = Some (JFloat t, [])")
    case True
    then have "t \<noteq> []" "hd t \<notin> {34, 91, 123}"
      using scan_number_hd [OF True] by (auto simp: is_digit_def)
    then have "json_value (Suc 0) (t @ rest) = good (JFloat t) rest"
      using scan_number_append [OF that, of t] True by simp
    then show ?thesis by blast
  next
    case False
    then have t: "t \<in> {lit ''NaN'', lit ''Infinity'', lit ''-Infinity''}"
      using JFloat by (auto simp: float_text_def)
    then have "scan_number (t @ rest) = None" "json_word (t @ rest) = Some (JFloat t, rest)"
      by (auto simp: scan_number_def int_part_def scan_digits_def is_digit_def json_word_def)
    then have "json_value (Suc 0) (t @ rest) = good (JFloat t) rest"
      using t by (auto simp: lift_scan_def)
    then show ?thesis by blast
  qed
  then show ?case using starts_print [OF JFloat] by (auto simp: printed_def)
next
  case JNull
  have "json_value (Suc 0) (lit ''null'' @ rest) = good JNull rest" for rest
    by (simp add: scan_number_start is_digit_def json_word_def lift_scan_def)
  then show ?case using starts_print [OF JNull] unfolding printed_def json_print.simps by blast
next
  case (JBool b)
  have "json_value (Suc 0) (json_print lay l (JBool b) @ rest) = good (JBool b) rest" for l rest
    by (simp add: scan_number_start is_digit_def json_word_def lift_scan_def)
  then show ?case using starts_print [OF JBool] unfolding printed_def by blast
next
  case (JStr s)
  then have "json_value (Suc 0) (json_print lay l (JStr s) @ rest) = good (JStr s) rest" for l rest
    using scan_quoted [of s rest] by (simp add: quoted_def lift_scan_def)
  then show ?case using starts_print [OF JStr] unfolding printed_def by blast
next
  case (JList vs)
  have "\<exists>n. json_value n (json_print lay l (JList vs) @ rest) = good (JList vs) rest" for l rest
  proof (cases "vs = []")
    case True
    then show ?thesis
      by (intro exI [of _ "Suc 0"]) (simp add: skip_ws_id json_ws_def)
  next
    case False
    have ok: "\<forall>v \<in> set vs. printed lay v" using JList by (auto simp: list_all_iff)
    let ?t = "join (lay_sep lay (Suc l)) (map (json_print lay (Suc l)) vs) @ lay_break lay l @ 93 # rest"
    obtain n where n: "json_items n [] ?t = good (JList vs) rest"
      using read_items [OF ok False, of "lay_break lay l" "[]" "Suc l" rest] blank by auto
    have "starts ?t"
      using ok False by (cases vs; cases "tl vs") (auto simp: printed_def intro: starts_append)
    then have "skip_ws (lay_break lay (Suc l) @ ?t) = ?t" "hd ?t \<noteq> 93"
      using blank by (simp_all add: skip_ws_append starts_skip, simp add: starts_def)
    then have "json_value (Suc n) (json_print lay l (JList vs) @ rest) = good (JList vs) rest"
      using n False by (simp add: Let_def del: json_items.simps)
    then show ?thesis by blast
  qed
  then show ?case using starts_print [OF JList.prems] unfolding printed_def by blast
next
  case (JDict kvs)
  have "\<exists>n. json_value n (json_print lay l (JDict kvs) @ rest) = good (JDict kvs) rest" for l rest
  proof (cases "kvs = []")
    case True
    then show ?thesis
      by (intro exI [of _ "Suc 0"]) (simp add: skip_ws_id json_ws_def)
  next
    case False
    have ok: "\<forall>(k, v) \<in> set kvs. list_all scalar k \<and> printed lay v"
      using JDict by (fastforce simp: list_all_iff)
    let ?t = "join (lay_sep lay (Suc l)) (map (member_text (Suc l)) kvs) @ lay_break lay l @ 125 # rest"
    obtain n where n: "json_members n [] ?t = good (JDict kvs) rest"
      using read_members [OF ok False, of "[]" "lay_break lay l" "Suc l" rest] blank JDict.prems by auto
    have "starts ?t"
      using False by (cases kvs; cases "hd kvs"; cases "tl kvs") (auto simp: quoted_def starts_def json_ws_def)
    then have "skip_ws (lay_break lay (Suc l) @ ?t) = ?t" "hd ?t \<noteq> 125"
      using blank by (simp_all add: skip_ws_append starts_skip, simp add: starts_def)
    then have "json_value (Suc n) (json_print lay l (JDict kvs) @ rest) = good (JDict kvs) rest"
      using n False by (simp add: Let_def del: json_members.simps)
    then show ?thesis by blast
  qed
  then show ?case using starts_print [OF JDict.prems] unfolding printed_def by blast
qed

lemma loads_print:
  assumes "json_ok v"
  shows "json_loads (json_print lay l v) = Inr v"
proof -
  have p: "printed lay v" using assms by (rule print_read)
  then obtain n where "json_value n (json_print lay l v @ []) = good v []"
    by (rule printed_read [of _ _ "[]" l]) (simp add: ends_number_def)
  moreover have "starts (json_print lay l v)" using p by (simp add: printed_def)
  ultimately show ?thesis
    by (intro json_loads_by [of n _ v "[]"]) (auto simp: starts_skip, auto simp: skip_ws_def starts_def)
qed

end

interpretation compact: json_layout compact
  by unfold_locales (auto simp: compact_def scan_escape_ascii json_ws_def)

interpretation indented2: json_layout indented2
  by unfold_locales (auto simp: indented2_def scan_escape_unicode json_ws_def)

text \<open>
  What \<open>json.dumps\<close> writes \<open>json.loads\<close> reads back, and so for the layout of the report files:
  any value whose strings have no surrogates, whose floats have the text of a float and whose objects
  have distinct keys.
\<close>

lemma json_round_trip:
  "json_ok v \<Longrightarrow> json_loads (json_dumps v) = Inr v"
  "json_ok v \<Longrightarrow> json_loads (json_dump_indented v) = Inr v"
  using compact.loads_print indented2.loads_print
  by (simp_all add: json_dumps_def json_dump_indented_def)

end
