(* ===== verification/AnomalyDetect.thy ===== *)
theory AnomalyDetect
  imports Complex_Main DbAccess JsonText
begin

text \<open>
  \<open>src/ai/anomaly_detect.py\<close>: a user's sessions of the last day are compared with those of the
  window (30 days unless configured) by hour, by number per day and by duration. Python's floats
  are real numbers here. A session is a record of the fields the code uses; \<open>sessions_of\<close> takes them
  from the rows of \<open>get_sessions\<close>, once there are enough of them, and raises where a field is missing
  or a timestamp is not an integer (the column is \<open>INTEGER\<close>). Of what is printed only the list of
  the pending reports is modelled.
\<close>

record session =
  ss_user :: pyval
  ss_container :: pyval
  ss_event :: pystr
  ss_time :: int

definition session_of :: "row \<Rightarrow> exn + session" where
  "session_of r =
     (case (map_of r (lit ''user_id''), map_of r (lit ''container_id''), map_of r (lit ''event_type''),
        map_of r (lit ''timestamp'')) of
        (Some u, Some c, Some e, Some (VInt t)) \<Rightarrow>
          Inr \<lparr>ss_user = u, ss_container = c, ss_event = (case e of VStr x \<Rightarrow> x | _ \<Rightarrow> []), ss_time = t\<rparr>
      | (Some u, Some c, Some e, Some _) \<Rightarrow> Inl TypeError
      | _ \<Rightarrow> Inl KeyError)"

fun sessions_of :: "row list \<Rightarrow> exn + session list" where
  "sessions_of [] = Inr []"
| "sessions_of (r # rs) = bindE (session_of r) (\<lambda>s. bindE (sessions_of rs) (\<lambda>ss. Inr (s # ss)))"

abbreviation connected :: "session \<Rightarrow> bool" where
  "connected s \<equiv> ss_event s = lit ''ssh_connected''"

abbreviation ended :: "session \<Rightarrow> bool" where
  "ended s \<equiv> ss_event s = lit ''ssh_disconnected'' \<or> ss_event s = lit ''timeout''"

subsection \<open>Statistics\<close>

definition compute_mean_stddev :: "int list \<Rightarrow> real \<times> real" where
  "compute_mean_stddev values =
     (if values = [] then (0, 0)
      else
        let n = real (length values);
            mean = real_of_int (sum_list values) / n in
        if length values < 2 then (mean, 0)
        else
          let variance = sum_list (map (\<lambda>x. (real_of_int x - mean)\<^sup>2) values) / (n - 1) in
          (mean, sqrt variance))"

text \<open>\<open>time.gmtime(t).tm_hour\<close>, and the day that \<open>strftime("%Y-%m-%d", ...)\<close> names\<close>

definition tm_hour :: "int \<Rightarrow> int" where
  "tm_hour t = t div 3600 mod 24"

definition tm_day :: "int \<Rightarrow> int" where
  "tm_day t = t div 86400"

text \<open>\<open>d[k] += 1\<close> on a \<open>defaultdict(int)\<close>\<close>

definition bump :: "'k \<Rightarrow> ('k \<times> int) list \<Rightarrow> ('k \<times> int) list" where
  "bump k d = dict_put k ((case map_of d k of None \<Rightarrow> 0 | Some n \<Rightarrow> n) + 1) d"

definition bucket_by_hour :: "session list \<Rightarrow> (int \<times> int) list" where
  "bucket_by_hour sessions = fold (\<lambda>s. bump (tm_hour (ss_time s))) sessions []"

definition sessions_per_day :: "session list \<Rightarrow> int list" where
  "sessions_per_day sessions = map snd (fold (\<lambda>s. bump (tm_day (ss_time s))) sessions [])"

fun durations_from :: "(pyval \<times> pyval \<rightharpoonup> int) \<Rightarrow> session list \<Rightarrow> int list" where
  "durations_from pending [] = []"
| "durations_from pending (s # ss) =
     (let key = (ss_user s, ss_container s) in
      if connected s then durations_from (pending(key \<mapsto> ss_time s)) ss
      else if ended s then
        (case pending key of
           None \<Rightarrow> durations_from pending ss
         | Some t \<Rightarrow>
             let duration = ss_time s - t in
             (if duration > 0 then [duration] else []) @ durations_from (pending(key := None)) ss)
      else durations_from pending ss)"

definition compute_durations :: "session list \<Rightarrow> int list" where
  "compute_durations sessions = durations_from Map.empty sessions"

subsection \<open>Number formats\<close>

definition round_even :: "real \<Rightarrow> int" where
  "round_even x =
     (let f = \<lfloor>x\<rfloor>; r = x - of_int f in
      if r < 1 / 2 then f else if r > 1 / 2 then f + 1 else if even f then f else f + 1)"

text \<open>\<open>f"{x:.df}"\<close>\<close>

definition fixed :: "nat \<Rightarrow> real \<Rightarrow> pystr" where
  "fixed d x =
     (let n = nat (round_even (\<bar>x\<bar> * 10 ^ d));
          frac = dec_nat (n mod 10 ^ d) in
      (if x < 0 then [45] else []) @ dec_nat (n div 10 ^ d) @
      (if d = 0 then [] else [46] @ replicate (d - length frac) 48 @ frac))"

definition two_digits :: "int \<Rightarrow> pystr" where
  "two_digits i = (let s = dec_int i in replicate (2 - length s) 48 @ s)"

subsection \<open>The analysis\<close>

record anomaly =
  an_type :: pystr
  an_detail :: pystr
  an_z :: real

definition unusual_time :: pystr where "unusual_time = lit ''unusual_time''"
definition high_frequency :: pystr where "high_frequency = lit ''high_frequency''"
definition long_duration :: pystr where "long_duration = lit ''long_duration''"

definition time_anomalies :: "session list \<Rightarrow> session list \<Rightarrow> anomaly list" where
  "time_anomalies baseline_connects recent_connects =
     (let baseline_hours = bucket_by_hour baseline_connects in
      if recent_connects \<noteq> [] \<and> baseline_hours \<noteq> [] then
        let total_baseline = sum_list (map snd baseline_hours);
            hour_fractions = map (\<lambda>(h, c). (h, real_of_int c / real_of_int total_baseline)) baseline_hours in
        concat (map (\<lambda>s.
          let hour = tm_hour (ss_time s);
              fraction = (case map_of hour_fractions hour of None \<Rightarrow> 0 | Some f \<Rightarrow> f) in
          if fraction < 2 / 100 then
            [\<lparr>an_type = unusual_time,
              an_detail = lit ''Connection at hour '' @ two_digits hour @ lit '':00 UTC (historical rate: '' @
                fixed 1 (100 * fraction) @ lit ''%)'',
              an_z = (if fraction = 0 then 4 else 1 / max fraction (1 / 1000))\<rparr>]
          else []) recent_connects)
      else [])"

definition frequency_anomalies :: "real \<Rightarrow> session list \<Rightarrow> session list \<Rightarrow> anomaly list" where
  "frequency_anomalies threshold baseline_connects recent_connects =
     (let baseline_daily = sessions_per_day baseline_connects;
          recent_daily = sessions_per_day recent_connects in
      if baseline_daily \<noteq> [] \<and> recent_daily \<noteq> [] then
        (case compute_mean_stddev baseline_daily of (mean, std) \<Rightarrow>
          if std > 0 then
            concat (map (\<lambda>day_count.
              let z = (real_of_int day_count - mean) / std in
              if z > threshold then
                [\<lparr>an_type = high_frequency,
                  an_detail = dec_int day_count @ lit '' sessions today vs baseline '' @ fixed 1 mean @ [177] @
                    fixed 1 std @ lit ''/day (z='' @ fixed 1 z @ lit '')'',
                  an_z = z\<rparr>]
              else []) recent_daily)
          else [])
      else [])"

definition duration_anomalies :: "real \<Rightarrow> session list \<Rightarrow> session list \<Rightarrow> anomaly list" where
  "duration_anomalies threshold baseline_sessions recent_sessions =
     (let baseline_durations = compute_durations baseline_sessions;
          recent_durations = compute_durations recent_sessions in
      if baseline_durations \<noteq> [] \<and> recent_durations \<noteq> [] then
        (case compute_mean_stddev baseline_durations of (mean, std) \<Rightarrow>
          if std > 0 then
            concat (map (\<lambda>dur.
              let z = (real_of_int dur - mean) / std in
              if z > threshold then
                [\<lparr>an_type = long_duration,
                  an_detail = lit ''Session '' @ fixed 0 (real_of_int dur / 60) @ lit ''min vs baseline '' @
                    fixed 0 (mean / 60) @ [177] @ fixed 0 (std / 60) @ lit ''min (z='' @ fixed 1 z @ lit '')'',
                  an_z = z\<rparr>]
              else []) recent_durations)
          else [])
      else [])"

record anomaly_result =
  ar_user :: pyval
  ar_type :: pystr
  ar_severity :: pystr
  ar_summary :: pystr
  ar_details :: "anomaly list"

definition base_severity :: "real \<Rightarrow> pystr" where
  "base_severity max_z =
     (if max_z > 45 / 10 then lit ''high'' else if max_z > 35 / 10 then lit ''medium'' else lit ''low'')"

definition escalate :: "pystr \<Rightarrow> pystr" where
  "escalate severity =
     (if severity = lit ''low'' then lit ''medium''
      else if severity = lit ''medium'' then lit ''high'' else severity)"

text \<open>From the anomalies to the report: severity, type and summary.\<close>

definition assess :: "pyval \<Rightarrow> anomaly list \<Rightarrow> anomaly_result option" where
  "assess user_id anomalies =
     (if anomalies = [] then None
      else
        let max_z = Max (set (map an_z anomalies));
            severity = base_severity max_z;
            types_found = set (map an_type anomalies);
            summary = join (lit ''; '') (map an_detail (take 3 anomalies)) @
              (if length anomalies > 3
               then lit '' (+'' @ dec_nat (length anomalies - 3) @ lit '' more)'' else []) in
        Some \<lparr>ar_user = user_id,
          ar_type = (if card types_found > 1 then lit ''composite'' else an_type (hd anomalies)),
          ar_severity = (if card types_found > 1 then escalate severity else severity),
          ar_summary = summary, ar_details = anomalies\<rparr>)"

definition analyze_sessions ::
  "real \<Rightarrow> pyval \<Rightarrow> session list \<Rightarrow> session list \<Rightarrow> anomaly_result option" where
  "analyze_sessions threshold user_id baseline_sessions recent_sessions =
     (let baseline_connects = filter connected baseline_sessions;
          recent_connects = filter connected recent_sessions in
      assess user_id
        (time_anomalies baseline_connects recent_connects @
         frequency_anomalies threshold baseline_connects recent_connects @
         duration_anomalies threshold baseline_sessions recent_sessions))"

record 'w detect_env =
  de_sql :: "'w sql_env"
  de_now :: "'w \<Rightarrow> real \<times> 'w"
  de_window :: int
  de_threshold :: real
  de_repr :: "real \<Rightarrow> pystr"

definition analyze_user :: "'w detect_env \<Rightarrow> pyval \<Rightarrow> ('w db, anomaly_result option) prog" where
  "analyze_user D user_id =
     bindP (db_call (\<lambda>w. case de_now D w of (t, w') \<Rightarrow> (Inr t, w'))) (\<lambda>t.
     let now = \<lfloor>t\<rfloor>;
         baseline_start = now - de_window D * 86400;
         recent_start = now - 86400 in
     bindP (get_sessions (de_sql D) False user_id (Some baseline_start)) (\<lambda>baseline_rows.
     bindP (get_sessions (de_sql D) False user_id (Some recent_start)) (\<lambda>recent_rows.
     if length baseline_rows < 5 then ret None
     else
       bindP (lift_exn (sessions_of baseline_rows)) (\<lambda>baseline_sessions.
       bindP (lift_exn (sessions_of recent_rows)) (\<lambda>recent_sessions.
       ret (analyze_sessions (de_threshold D) user_id baseline_sessions recent_sessions))))))"

subsection \<open>Reporting\<close>

definition anomaly_json :: "'w detect_env \<Rightarrow> anomaly \<Rightarrow> json" where
  "anomaly_json D a = JDict [(lit ''type'', JStr (an_type a)), (lit ''detail'', JStr (an_detail a)),
     (lit ''z_score'', JFloat (de_repr D (an_z a)))]"

text \<open>The loop of \<open>main\<close>: the result of each user, and the id of its report where one was written.\<close>

fun detect_users ::
  "'w detect_env \<Rightarrow> bool \<Rightarrow> pyval list \<Rightarrow> ('w db, (anomaly_result option \<times> int option) list) prog" where
  "detect_users D dry_run [] = ret []"
| "detect_users D dry_run (user_id # users) =
     bindP (analyze_user D user_id) (\<lambda>result.
     bindP (case result of
         None \<Rightarrow> ret None
       | Some r \<Rightarrow>
           if dry_run then ret None
           else insert_anomaly_report (de_sql D) False (ar_user r) (ar_type r) (ar_severity r) (ar_summary r)
             (json_dumps (JList (map (anomaly_json D) (ar_details r))))) (\<lambda>report_id.
     bindP (detect_users D dry_run users) (\<lambda>rest.
     ret ((result, report_id) # rest))))"

definition detect_main ::
  "'w detect_env \<Rightarrow> pystr \<Rightarrow> bool \<Rightarrow> ('w db, (anomaly_result option \<times> int option) list) prog" where
  "detect_main D user dry_run =
     bindP (get_connection (de_sql D)) (\<lambda>_.
     finallyP
       (bindP (if user \<noteq> [] then ret [VStr user] else get_all_users (de_sql D) False) (\<lambda>users.
        if users = [] then ret [] else detect_users D dry_run users))
       db_close)"

subsection \<open>The pending reports\<close>

text \<open>\<open>list_pending\<close>: the lines that it prints. \<open>[:60]\<close> needs a string.\<close>

definition pending_line :: "'w sql_env \<Rightarrow> row \<Rightarrow> exn + pystr" where
  "pending_line E r =
     bindE (format_fields E [(6, row_item r (lit ''report_id'')), (12, row_item r (lit ''user_id'')),
       (16, row_item r (lit ''anomaly_type'')), (8, row_item r (lit ''severity'')),
       (20, row_item r (lit ''created''))]) (\<lambda>line.
     bindE (row_item r (lit ''summary'')) (\<lambda>summary.
     case summary of VStr s \<Rightarrow> Inr (line @ take 60 s) | _ \<Rightarrow> Inl TypeError))"

definition pending_header :: pystr where
  "pending_header = ljust 6 (lit ''ID'') @ lit '' '' @ ljust 12 (lit ''User'') @ lit '' '' @ ljust 16 (lit ''Type'') @
     lit '' '' @ ljust 8 (lit ''Severity'') @ lit '' '' @ ljust 20 (lit ''Created'') @ lit '' Summary''"

definition list_pending :: "'w sql_env \<Rightarrow> ('w db, pystr list) prog" where
  "list_pending E =
     bindP (get_pending_anomalies E True) (\<lambda>reports.
     if reports = [] then ret [lit ''No pending anomaly reports.'']
     else bindP (lift_exn (each_line (pending_line E) reports)) (\<lambda>lines.
       ret (pending_header # replicate 90 45 # lines)))"

text \<open>\<open>main\<close>, with the parsed arguments; \<open>--user\<close> absent is the empty string.\<close>

definition detector_main :: "'w detect_env \<Rightarrow> pystr \<Rightarrow> bool \<Rightarrow> bool \<Rightarrow> ('w db, unit) prog" where
  "detector_main D user dry_run show_pending =
     (if show_pending then bindP (list_pending (de_sql D)) (\<lambda>_. ret ())
      else bindP (detect_main D user dry_run) (\<lambda>_. ret ()))"

end
