(* ===== verification/Regex.thy ===== *)
theory Regex
  imports PyText
begin

text \<open>
  The part of Python's \<open>re\<close> that \<open>sanitizer.py\<close> uses: literals (with \<open>IGNORECASE\<close>), the white
  space class, the class of all characters, groups, alternatives, \<open>?\<close>, and \<open>*\<close> and \<open>+\<close> on a class.
  \<open>rests r s\<close> gives what is left of \<open>s\<close> after each match of \<open>r\<close> at its front, in the order in which
  the backtracking matcher tries them; \<open>lang r\<close> is the declarative meaning it is proved equal to.
\<close>

datatype cc = Ch pychar | Ci pychar | Space | Any

text \<open>
  \<open>IGNORECASE\<close> on a lower-case ASCII letter: besides the capital, the dotted and dotless
  \<open>i\<close>, the long \<open>s\<close> and the Kelvin sign count as the letter.
\<close>

definition case_variants :: "pychar \<Rightarrow> pychar list" where
  "case_variants a =
     (if 97 \<le> a \<and> a \<le> 122 then
        [a, a - 32] @ (if a = 105 then [304, 305] else if a = 107 then [8490]
          else if a = 115 then [383] else [])
      else [a])"

fun cc_ok :: "cc \<Rightarrow> pychar \<Rightarrow> bool" where
  "cc_ok (Ch a) c \<longleftrightarrow> c = a"
| "cc_ok (Ci a) c \<longleftrightarrow> c \<in> set (case_variants a)"
| "cc_ok Space c \<longleftrightarrow> is_space c"
| "cc_ok Any c \<longleftrightarrow> True"

datatype rx = Eps | Cls cc | Cat rx rx | Alt rx rx | Opt rx | Star cc

definition plus :: "cc \<Rightarrow> rx" where
  "plus c = Cat (Cls c) (Star c)"

definition seq :: "rx list \<Rightarrow> rx" where
  "seq rs = foldr Cat rs Eps"

definition ci :: "string \<Rightarrow> rx" where
  "ci w = seq (map (\<lambda>c. Cls (Ci (of_char c))) w)"

subsection \<open>Matching\<close>

fun star_rests :: "cc \<Rightarrow> pystr \<Rightarrow> pystr list" where
  "star_rests c [] = [[]]"
| "star_rests c (x # xs) = (if cc_ok c x then star_rests c xs @ [x # xs] else [x # xs])"

fun rests :: "rx \<Rightarrow> pystr \<Rightarrow> pystr list" where
  "rests Eps s = [s]"
| "rests (Cls c) s = (case s of [] \<Rightarrow> [] | x # xs \<Rightarrow> if cc_ok c x then [xs] else [])"
| "rests (Cat a b) s = concat (map (rests b) (rests a s))"
| "rests (Alt a b) s = rests a s @ rests b s"
| "rests (Opt a) s = rests a s @ [s]"
| "rests (Star c) s = star_rests c s"

text \<open>\<open>pattern.search(s)\<close>, as a truth value and with the text of the match.\<close>

fun search :: "rx \<Rightarrow> pystr \<Rightarrow> bool" where
  "search r [] = (rests r [] \<noteq> [])"
| "search r (c # cs) = (rests r (c # cs) \<noteq> [] \<or> search r cs)"

fun search_group :: "rx \<Rightarrow> pystr \<Rightarrow> pystr option" where
  "search_group r [] = (case rests r [] of [] \<Rightarrow> None | t # _ \<Rightarrow> Some [])"
| "search_group r (c # cs) = (case rests r (c # cs) of
     [] \<Rightarrow> search_group r cs
   | t # _ \<Rightarrow> Some (take (length (c # cs) - length t) (c # cs)))"

subsection \<open>Meaning\<close>

fun lang :: "rx \<Rightarrow> pystr set" where
  "lang Eps = {[]}"
| "lang (Cls c) = {[x] | x. cc_ok c x}"
| "lang (Cat a b) = {p @ q | p q. p \<in> lang a \<and> q \<in> lang b}"
| "lang (Alt a b) = lang a \<union> lang b"
| "lang (Opt a) = insert [] (lang a)"
| "lang (Star c) = {p. \<forall>x \<in> set p. cc_ok c x}"

lemma star_rests_iff:
  "t \<in> set (star_rests c s) \<longleftrightarrow> (\<exists>p. s = p @ t \<and> (\<forall>x \<in> set p. cc_ok c x))"
proof (induction s)
  case (Cons x xs)
  show ?case
  proof
    assume "t \<in> set (star_rests c (x # xs))"
    then consider "t = x # xs" | "cc_ok c x" "t \<in> set (star_rests c xs)"
      by (auto split: if_splits)
    then show "\<exists>p. x # xs = p @ t \<and> (\<forall>x \<in> set p. cc_ok c x)"
    proof cases
      case 2
      with Cons.IH obtain p where "xs = p @ t" "\<forall>x \<in> set p. cc_ok c x" by blast
      with 2(1) show ?thesis by (intro exI [of _ "x # p"]) simp
    qed simp
  next
    assume "\<exists>p. x # xs = p @ t \<and> (\<forall>x \<in> set p. cc_ok c x)"
    then obtain p where p: "x # xs = p @ t" "\<forall>x \<in> set p. cc_ok c x" by blast
    then show "t \<in> set (star_rests c (x # xs))"
      using Cons.IH by (cases p) auto
  qed
qed auto

text \<open>The matcher finds exactly the fronts of the text that are in the pattern's language.\<close>

lemma rests_iff: "t \<in> set (rests r s) \<longleftrightarrow> (\<exists>p \<in> lang r. s = p @ t)"
proof (induction r arbitrary: s t)
  case (Cat a b)
  have "t \<in> set (rests (Cat a b) s) \<longleftrightarrow> (\<exists>u. (\<exists>p \<in> lang a. s = p @ u) \<and> (\<exists>q \<in> lang b. u = q @ t))"
    using Cat.IH by auto
  then show ?case by fastforce
next
  case (Star c)
  then show ?case using star_rests_iff by auto
qed (auto split: list.splits)

lemma rests_nonempty: "rests r s \<noteq> [] \<longleftrightarrow> (\<exists>p \<in> lang r. \<exists>t. s = p @ t)"
proof -
  have "rests r s \<noteq> [] \<longleftrightarrow> (\<exists>t. t \<in> set (rests r s))"
    by (cases "rests r s") auto
  then show ?thesis using rests_iff by blast
qed

lemma search_iff: "search r s \<longleftrightarrow> (\<exists>a p b. s = a @ p @ b \<and> p \<in> lang r)"
proof (induction s)
  case Nil
  then show ?case using rests_nonempty [of r "[]"] by auto
next
  case (Cons c cs)
  have "(\<exists>a p b. c # cs = a @ p @ b \<and> p \<in> lang r) \<longleftrightarrow>
      (\<exists>p b. c # cs = p @ b \<and> p \<in> lang r) \<or> (\<exists>a p b. cs = a @ p @ b \<and> p \<in> lang r)"
    (is "?l \<longleftrightarrow> ?r")
  proof
    assume ?l
    then obtain a p b where "c # cs = a @ p @ b" "p \<in> lang r" by blast
    then show ?r by (cases a) auto
  next
    assume ?r
    then show ?l
      by (metis append_Cons append_Nil)
  qed
  then show ?case using Cons.IH rests_nonempty [of r "c # cs"] by auto
qed

text \<open>A match in a part is a match in the whole.\<close>

lemma search_infix: "search r s \<Longrightarrow> search r (a @ s @ b)"
  unfolding search_iff by (metis append_assoc)

lemma search_group_infix:
  "search_group r s = Some p \<Longrightarrow> \<exists>a b. s = a @ p @ b \<and> p \<in> lang r"
proof (induction s)
  case Nil
  then have "[] \<in> set (rests r []) \<and> p = []"
    using rests_iff [of _ r "[]"] by (cases "rests r []") auto
  then show ?case using rests_iff [of "[]" r "[]"] by auto
next
  case (Cons c cs)
  show ?case
  proof (cases "rests r (c # cs)")
    case Nil
    then obtain a b where "cs = a @ p @ b" "p \<in> lang r" using Cons by auto
    then show ?thesis by (metis append_Cons)
  next
    case more: (Cons t ts)
    then obtain q where "q \<in> lang r" "c # cs = q @ t"
      using rests_iff [of t r "c # cs"] by auto
    moreover have "p = take (length (c # cs) - length t) (c # cs)"
      using Cons.prems more by simp
    ultimately have "p = q" "c # cs = [] @ p @ t" by simp_all
    with \<open>q \<in> lang r\<close> show ?thesis by blast
  qed
qed

subsection \<open>Characters a match must have\<close>

text \<open>\<open>needs r c\<close>: every match of \<open>r\<close> has a character of the class \<open>c\<close> (a sufficient test).\<close>

fun needs :: "rx \<Rightarrow> cc \<Rightarrow> bool" where
  "needs (Cls d) c \<longleftrightarrow> d = c"
| "needs (Cat a b) c \<longleftrightarrow> needs a c \<or> needs b c"
| "needs (Alt a b) c \<longleftrightarrow> needs a c \<and> needs b c"
| "needs _ c \<longleftrightarrow> False"

lemma needs_sound: "needs r c \<Longrightarrow> p \<in> lang r \<Longrightarrow> \<exists>x \<in> set p. cc_ok c x"
  by (induction r arbitrary: p) fastforce+

lemma search_needs: "needs r c \<Longrightarrow> search r s \<Longrightarrow> \<exists>x \<in> set s. cc_ok c x"
  unfolding search_iff using needs_sound by fastforce

end
