(* ===== verification/DbProps.thy ===== *)
theory DbProps
  imports DbAccess Sanitizer
begin

text \<open>
  What the database access promises and what it does not: parameters are bound in order and a text
  parameter stays inside its literal, the rows of the shell's output are read back field by
  field, and fields that look like numbers lose their text.
\<close>

subsection \<open>Binding parameters\<close>

fun weave :: "pystr list \<Rightarrow> pystr list \<Rightarrow> pystr" where
  "weave (p # q # ps) (v # vs) = p @ v @ weave (q # ps) vs"
| "weave ps vs = concat (take 1 ps)"

lemma split_mark:
  "split_str [c] (x # s) = (if x = c then [] # split_str [c] s
    else (x # hd (split_str [c] s)) # tl (split_str [c] s))"
  using split_str_nonempty [of "[c]" s] by (cases "split_str [c] s") auto

lemma count_mark: "length (split_str [c] s) = Suc (count_list s c)"
  using split_str_nonempty [of "[c]"] by (induction s) (simp_all add: split_mark del: split_str.simps(2))

lemma weave_front: "ps \<noteq> [] \<Longrightarrow> weave ((x # hd ps) # tl ps) vs = x # weave ps vs"
  by (cases ps; cases "tl ps"; cases vs) auto

text \<open>
  Binding puts the literals of the parameters in the place of the question marks, in order, and
  leaves the rest of the statement alone; it raises \<open>StopIteration\<close> exactly when there are more
  question marks than parameters.
\<close>

lemma bind_params_weaves:
  "bind_params E sql params =
    (if count_list sql 63 \<le> length params
     then Inr (weave (split_str [63] sql) (map (sql_literal E) params)) else Inl StopIteration)"
proof (induction sql arbitrary: params)
  case (Cons c sql)
  show ?case
  proof (cases "c = 63")
    case True
    obtain p ps where sp: "split_str [63] sql = p # ps"
      using split_str_nonempty [of "[63]" sql] by (cases "split_str [63] sql") auto
    with Cons.IH True show ?thesis
      by (cases params) (auto simp: split_mark)
  next
    case False
    with Cons.IH show ?thesis
      using weave_front [OF split_str_nonempty [of "[63]" sql]] by (simp add: split_mark del: split_str.simps(2))
  qed
qed simp

subsection \<open>Text stays inside its literal\<close>

text \<open>SQL's reading of a string, from after its opening quote, and of all the strings of a statement.\<close>

fun sql_string :: "pystr \<Rightarrow> (pystr \<times> pystr) option" where
  "sql_string [] = None"
| "sql_string [c] = (if c = 39 then Some ([], []) else None)"
| "sql_string (c # d # s) =
     (if c = 39 then (if d = 39 then map_option (\<lambda>(t, r). (39 # t, r)) (sql_string s) else Some ([], d # s))
      else map_option (\<lambda>(t, r). (c # t, r)) (sql_string (d # s)))"

lemma sql_string_shorter: "sql_string s = Some (t, r) \<Longrightarrow> length r < length s"
  by (induction s arbitrary: t r rule: sql_string.induct) (fastforce split: if_splits)+

function string_tokens :: "pystr \<Rightarrow> pystr list option" where
  "string_tokens [] = Some []"
| "string_tokens (c # s) =
     (if c = 39 then (case sql_string s of
          None \<Rightarrow> None
        | Some (t, r) \<Rightarrow> map_option (Cons t) (string_tokens r))
      else string_tokens s)"
  by pat_completeness auto
termination
  by (relation "measure length") (auto dest: sql_string_shorter)

lemma quoted_read:
  "r = [] \<or> hd r \<noteq> 39 \<Longrightarrow> sql_string (replace_char 39 [39, 39] s @ 39 # r) = Some (s, r)"
proof (induction s)
  case Nil
  then show ?case by (cases r) auto
next
  case (Cons c s)
  obtain d u where "replace_char 39 [39, 39] s @ 39 # r = d # u"
    by (cases "replace_char 39 [39, 39] s") auto
  with Cons show ?case by simp
qed

lemma string_tokens_skip: "39 \<notin> set a \<Longrightarrow> string_tokens (a @ r) = string_tokens r"
  by (induction a) auto

definition strings_of :: "pyval \<Rightarrow> pystr list" where
  "strings_of v = (case v of VStr s \<Rightarrow> [s] | VBytes b \<Rightarrow> [bytes_hex b] | _ \<Rightarrow> [])"

lemma bytes_hex_no_quote: "39 \<notin> set (bytes_hex b)"
  by (induction b) (auto simp: bytes_hex_def nibble_char_def)

lemma replace_char_id: "a \<notin> set s \<Longrightarrow> replace_char a t s = s"
  by (induction s) auto

lemma dec_int_no_quote: "39 \<notin> set (dec_int i)"
  by (auto simp: dec_int_def is_digit_def dest!: dec_nat_digits)

lemma map_option_no_strings: "map_option ((@) []) x = x"
  by (cases x) simp_all

lemma literal_tokens:
  assumes "\<forall>t. 39 \<notin> set (fl_str E t)" and "r = [] \<or> hd r \<noteq> 39"
  shows "string_tokens (sql_literal E v @ r) = map_option ((@) (strings_of v)) (string_tokens r)"
proof (cases v)
  case (VStr s)
  then show ?thesis
    using quoted_read [OF assms(2), of s] by (cases "string_tokens r") (simp_all add: sql_literal_def strings_of_def)
next
  case (VBytes b)
  then show ?thesis
    using quoted_read [OF assms(2), of "bytes_hex b"] bytes_hex_no_quote
    by (cases "string_tokens r") (simp_all add: sql_literal_def strings_of_def replace_char_id)
qed (use assms(1) dec_int_no_quote [of "_ :: int"] in
  \<open>simp_all add: sql_literal_def strings_of_def string_tokens_skip map_option_no_strings\<close>)

text \<open>A template: no quotes, and no two question marks side by side.\<close>

fun template :: "pystr \<Rightarrow> bool" where
  "template [] = True"
| "template [c] = (c \<noteq> 39)"
| "template (c # d # s) = (c \<noteq> 39 \<and> \<not> (c = 63 \<and> d = 63) \<and> template (d # s))"

lemma bound_front:
  assumes "template sql" and "sql = [] \<or> hd sql \<noteq> 63" and "bind_params E sql ps = Inr out"
  shows "out = [] \<or> hd out \<noteq> 39"
  using assms by (cases sql rule: template.cases) (auto simp: bindE_Inr_iff)


definition echo_env :: "pystr \<Rightarrow> pystr sql_env" where
  "echo_env out = \<lparr>sq_password = Some [], sq_path = [], sq_call = (\<lambda>argv input w. (Inr (0, out, []), input)),
     fl_str = (\<lambda>t. [48])\<rparr>"


subsection \<open>Rows of the output\<close>

lemma take_SEP_eq: "take (length SEP) s = SEP \<Longrightarrow> 60 \<in> set (take 3 s) \<and> s ! 2 = 60"
  by (cases s; cases "tl s"; cases "tl (tl s)") (auto simp: SEP_def)

lemma SEP_not_inside:
  assumes "60 \<notin> set p" and "i < length p"
  shows "take (length SEP) (drop i (p @ SEP @ rest)) \<noteq> SEP"
proof
  assume "take (length SEP) (drop i (p @ SEP @ rest)) = SEP"
  then have "drop i (p @ SEP @ rest) ! 2 = 60" using take_SEP_eq by blast
  then have "(p @ SEP @ rest) ! (i + 2) = 60" using assms(2) by (simp only: nth_drop length_append add.commute)
  moreover have "(SEP @ rest) ! 0 = 124" "(SEP @ rest) ! 1 = 124" "length SEP = 9"
    by (simp_all add: SEP_def)
  moreover have "i + 2 - length p < 2" using assms(2) by simp
  ultimately show False
    using assms(1) by (auto simp: nth_append less_2_cases_iff dest: nth_mem split: if_splits)
qed

lemma SEP_not_in_last: "60 \<notin> set p \<Longrightarrow> take (length SEP) (drop i p) \<noteq> SEP"
  using take_SEP_eq [of "drop i p"] by (auto dest: in_set_takeD in_set_dropD)

lemma split_fields:
  assumes "fs \<noteq> []" and "\<forall>f \<in> set fs. 60 \<notin> set f"
  shows "split_str SEP (join SEP fs) = fs"
  using assms
proof (induction fs)
  case (Cons f fs)
  show ?case
  proof (cases fs)
    case Nil
    then show ?thesis
      using Cons.prems SEP_not_in_last by (simp add: split_str_last)
  next
    case (Cons g gs)
    moreover have "split_str SEP (f @ SEP @ join SEP fs) = f # split_str SEP (join SEP fs)"
      by (rule split_str_part) (use Cons.prems SEP_not_inside in \<open>auto simp: SEP_def\<close>)
    ultimately show ?thesis using Cons.IH Cons.prems by simp
  qed
qed simp

text \<open>The shell's output for some rows, in list mode with the separator of \<open>db_run\<close>.\<close>

definition shell_output :: "pystr list list \<Rightarrow> pystr" where
  "shell_output rows = concat (map (\<lambda>fs. join SEP fs @ newline) rows)"

lemma shell_output_join: "rows \<noteq> [] \<Longrightarrow> shell_output rows = join newline (map (join SEP) rows) @ newline"
  by (induction rows rule: induct_list012) (simp_all add: shell_output_def)

lemma last_join: "ps \<noteq> [] \<Longrightarrow> last ps \<noteq> [] \<Longrightarrow> last (join sep ps) = last (last ps) \<and> join sep ps \<noteq> []"
  by (induction ps rule: induct_list012) (auto simp: last_append)

lemma rstrip_output:
  assumes "rows \<noteq> []" and "\<forall>fs \<in> set rows. join SEP fs \<noteq> [] \<and> 10 \<notin> set (join SEP fs)"
  shows "rstrip_by (\<lambda>c. c = 10) (shell_output rows) = join newline (map (join SEP) rows)"
proof -
  let ?b = "join newline (map (join SEP) rows)"
  have l: "last (map (join SEP) rows) = join SEP (last rows)" "last rows \<in> set rows"
    using assms(1) by (simp_all add: last_map)
  then have "last ?b = last (join SEP (last rows))"
    using last_join [of "map (join SEP) rows" newline] assms by auto
  moreover have "last (join SEP (last rows)) \<in> set (join SEP (last rows))"
    using assms(2) l(2) by simp
  ultimately have "last ?b \<noteq> 10" using assms(2) l(2) by metis
  then have "rstrip_by (\<lambda>c. c = 10) (?b @ newline) = ?b"
    by (subst rstrip_by_append) (simp_all add: newline_def rstrip_by_id)
  then show ?thesis using assms(1) by (simp add: shell_output_join)
qed

lemma strip_nonempty: "c \<in> set s \<Longrightarrow> \<not> is_space c \<Longrightarrow> strip s \<noteq> []"
proof
  assume c: "c \<in> set s" "\<not> is_space c" and "strip s = []"
  then have "\<forall>x \<in> set (dropWhile is_space s). is_space x"
    by (simp add: strip_def rstrip_by_def lstrip_by_def)
  moreover have "c \<in> set (dropWhile is_space s)"
    using c by (metis set_append set_takeWhileD takeWhile_dropWhile_id Un_iff)
  ultimately show False using c(2) by blast
qed

lemma join_set: "x \<in> set (join sep fs) \<Longrightarrow> x \<in> set sep \<or> (\<exists>f \<in> set fs. x \<in> set f)"
  by (induction fs rule: induct_list012) auto

lemma join_two: "2 \<le> length fs \<Longrightarrow> 124 \<in> set (join SEP fs)"
  by (cases fs; cases "tl fs") (auto simp: SEP_def)

lemma parse_shell_output:
  assumes "\<forall>fs \<in> set rows. 2 \<le> length fs \<and> (\<forall>f \<in> set fs. 10 \<notin> set f \<and> 60 \<notin> set f)"
  shows "parse_rows (shell_output rows) = map (map convert) rows"
proof (cases "rows = []")
  case True
  then show ?thesis by (simp add: parse_rows_def shell_output_def strip_def rstrip_by_def lstrip_by_def)
next
  case False
  have line: "join SEP fs \<noteq> [] \<and> 10 \<notin> set (join SEP fs) \<and> split_str SEP (join SEP fs) = fs \<and>
      124 \<in> set (join SEP fs)" if "fs \<in> set rows" for fs
  proof -
    have fs: "2 \<le> length fs" "\<forall>f \<in> set fs. 10 \<notin> set f" "\<forall>f \<in> set fs. 60 \<notin> set f"
      using assms that by auto
    then have "124 \<in> set (join SEP fs)" "fs \<noteq> []" by (auto simp: join_two)
    moreover have "10 \<notin> set (join SEP fs)"
      using fs(2) by (auto simp: SEP_def dest!: join_set)
    ultimately show ?thesis using split_fields fs(3) by auto
  qed
  then have "split_str newline (rstrip_by (\<lambda>c. c = 10) (shell_output rows)) = map (join SEP) rows"
    using False rstrip_output [of rows] split_join_lines [of "map (join SEP) rows" 10]
    by (simp add: newline_def)
  moreover have "124 \<in> set (shell_output rows)"
    using line [of "hd rows"] False by (cases rows) (auto simp: shell_output_def)
  then have "strip (shell_output rows) \<noteq> []"
    by (rule strip_nonempty) (simp add: is_space_def whitespace_def)
  moreover have "filter (\<lambda>l. l \<noteq> []) (map (join SEP) rows) = map (join SEP) rows"
    using line by (auto simp: filter_id_conv)
  ultimately show ?thesis
    using line by (simp add: parse_rows_def)
qed

lemma get_sessions_run:
  assumes "sessions_query user_id since = (sql, params)" and "params \<noteq> []"
    and "bind_params E sql params = Inr stmt" and "\<not> db_closed s"
    and "sq_call E [lit ''sqlcipher'', sq_path E] (shell_input (sq_password E) stmt) (db_world s) =
      (Inr (0, shell_output rows, err), w)"
    and "\<forall>fs \<in> set rows. 2 \<le> length fs \<and> (\<forall>f \<in> set fs. 10 \<notin> set f \<and> 60 \<notin> set f)"
  shows "get_sessions E False user_id since s =
    Some (Inr (map (\<lambda>fs. zip session_columns (map convert fs)) rows), s\<lparr>db_world := w\<rparr>)"
  using assms parse_shell_output [OF assms(6)]
  by (simp add: get_sessions_def with_conn_def execute_def bound_sql_def db_run_def run_simps comp_def)

text \<open>
  C28. The rows come back: if the shell prints rows of two fields or more, none with a line feed or the
  sign \<open><\<close>, then \<open>get_sessions\<close> gives for each row the columns with the converted fields, in the
  order of the output.
\<close>

theorem get_sessions_reads_the_rows:
  assumes "sessions_query user_id since = (sql, params)" and "params \<noteq> []"
    and "bind_params E sql params = Inr stmt" and "\<not> db_closed s"
    and "sq_call E [lit ''sqlcipher'', sq_path E] (shell_input (sq_password E) stmt) (db_world s) =
      (Inr (0, shell_output rows, err), w)"
    and "\<forall>fs \<in> set rows. 2 \<le> length fs \<and> (\<forall>f \<in> set fs. 10 \<notin> set f \<and> 60 \<notin> set f)"
  shows "get_sessions E False user_id since s =
    Some (Inr (map (\<lambda>fs. zip session_columns (map convert fs)) rows), s\<lparr>db_world := w\<rparr>)"
  using assms by (rule get_sessions_run)

theorem get_sessions_reads_the_rows_witness:
  defines "rows \<equiv> [[lit ''7'', lit ''bob'', lit ''c1'', lit ''ssh_connected'', lit ''1700000000'']]"
  defines "s \<equiv> \<lparr>db_closed = False, db_world = []\<rparr>"
  defines "stmt \<equiv> fst (sessions_query (VStr (lit ''bob'')) None)"
  shows "\<exists>w. get_sessions (echo_env (shell_output rows)) False (VStr (lit ''bob'')) None s =
    Some (Inr (map (\<lambda>fs. zip session_columns (map convert fs)) rows), s\<lparr>db_world := w\<rparr>)"
proof -
  obtain stmt where stmt: "bind_params (echo_env (shell_output rows)) (fst (sessions_query (VStr (lit ''bob'')) None))
      [VStr (lit ''bob'')] = Inr stmt"
    by (simp add: sessions_query_def truthy_def Let_def)
  show ?thesis
    by (rule exI, rule get_sessions_reads_the_rows [OF _ _ stmt, where err = "[]"])
      (simp_all add: sessions_query_def truthy_def Let_def s_def rows_def echo_env_def)
qed

subsection \<open>Fields that look like numbers\<close>

text \<open>The text that \<open>hex(container_key)\<close> prints.\<close>

definition upper_char :: "pychar \<Rightarrow> pychar" where
  "upper_char c = (if 97 \<le> c \<and> c \<le> 122 then c - 32 else c)"

definition sql_hex :: "bytes \<Rightarrow> pystr" where
  "sql_hex key = map upper_char (bytes_hex key)"

lemma char_nibble_upper: "n < 16 \<Longrightarrow> char_nibble (upper_char (nibble_char n)) = Some n \<and>
    \<not> c_space (upper_char (nibble_char n))"
  by (auto simp: char_nibble_def nibble_char_def upper_char_def c_space_def)

lemma fromhex_sql_hex: "fromhex (sql_hex b) = Inr b"
proof (induction b)
  case (Cons x b)
  have "unat x div 16 < 16" using byte_lt [of x] by (simp add: less_mult_imp_div_less)
  then have "fromhex (sql_hex (x # b)) = Inr (of_nat (16 * (unat x div 16) + unat x mod 16) # b)"
    using Cons.IH by (simp add: sql_hex_def bytes_hex_def char_nibble_upper del: of_nat_add of_nat_mult)
  then show ?case by simp
qed (simp add: sql_hex_def bytes_hex_def)

interpretation sql_hexadecimal: text_codec sql_hex fromhex
  by unfold_locales (rule fromhex_sql_hex)

lemma sql_hex_chars:
  assumes "c \<in> set (sql_hex b)"
  shows "is_digit c \<or> 65 \<le> c \<and> c \<le> 70"
proof -
  have "is_digit (upper_char (nibble_char n)) \<or> 65 \<le> upper_char (nibble_char n) \<and> upper_char (nibble_char n) \<le> 70"
    if "n < 16" for n using that by (auto simp: is_digit_def nibble_char_def upper_char_def)
  moreover have "unat x div 16 < 16" "unat x mod 16 < 16" for x :: byte
    using byte_lt [of x] by (simp_all add: less_mult_imp_div_less)
  moreover from assms obtain x where "c = upper_char (nibble_char (unat (x :: byte) div 16)) \<or>
      c = upper_char (nibble_char (unat x mod 16))"
    by (auto simp: sql_hex_def bytes_hex_def)
  ultimately show ?thesis by metis
qed

lemma sql_hex_Cons: "\<exists>a b. sql_hex (x # k) = a # b # sql_hex k"
  by (simp add: sql_hex_def bytes_hex_def)

text \<open>A row of one field.\<close>

lemma parse_one_field:
  assumes "f \<noteq> []" and "10 \<notin> set f" and "60 \<notin> set f" and "c \<in> set f" and "\<not> is_space c"
  shows "parse_rows (f @ newline) = [[convert f]]"
proof -
  have "rstrip_by (\<lambda>c. c = 10) (f @ newline) = f"
  proof -
    have "last f \<noteq> 10" using assms(1,2) last_in_set by metis
    then show ?thesis by (subst rstrip_by_append) (simp_all add: newline_def rstrip_by_id)
  qed
  moreover have "strip (f @ newline) \<noteq> []"
    by (rule strip_nonempty [of c]) (use assms in auto)
  moreover have "split_str SEP f = [f]" using split_fields [of "[f]"] assms(3) by simp
  ultimately show ?thesis
    using assms(1,2) by (simp add: parse_rows_def newline_def split_str_char_free)
qed

lemma parse_key_row:
  assumes "key \<noteq> []"
  shows "parse_rows (sql_hex key @ newline) = [[convert (sql_hex key)]]"
proof -
  from assms obtain x k where "key = x # k" by (cases key) auto
  then obtain a b where s: "sql_hex key = a # b # sql_hex k" using sql_hex_Cons by blast
  then have "a \<in> set (sql_hex key)" by simp
  moreover have "\<not> is_space c" "c \<noteq> 10" "c \<noteq> 60" if "c \<in> set (sql_hex key)" for c
    using sql_hex_chars [OF that] by (auto simp: is_space_def whitespace_def is_digit_def)
  ultimately show ?thesis by (intro parse_one_field [of _ a]) (use s in auto)
qed

text \<open>The query for a key, answered with the key's hexadecimal text.\<close>

definition key_answered :: "'w sql_env \<Rightarrow> pyval \<Rightarrow> pyval \<Rightarrow> bytes \<Rightarrow> 'w db \<Rightarrow> 'w \<Rightarrow> bool" where
  "key_answered E user_id container_id key s w \<longleftrightarrow> \<not> db_closed s \<and> (\<exists>stmt err.
     bind_params E (lit ''SELECT hex(container_key) FROM containers WHERE user_id = ? AND container_id = ?'')
       [user_id, container_id] = Inr stmt \<and>
     sq_call E [lit ''sqlcipher'', sq_path E] (shell_input (sq_password E) stmt) (db_world s) =
       (Inr (0, sql_hex key @ newline, err), w))"

lemma key_answered_run:
  assumes "key_answered E user_id container_id key s w" and "key \<noteq> []"
  shows "get_container_key E False user_id container_id s =
    (if truthy (convert (sql_hex key))
     then (case fromhex (str_val E (convert (sql_hex key))) of
         Inl e \<Rightarrow> Some (Inl e, s\<lparr>db_world := w\<rparr>) | Inr k \<Rightarrow> Some (Inr (Some k), s\<lparr>db_world := w\<rparr>))
     else Some (Inr None, s\<lparr>db_world := w\<rparr>))"
  using assms(1) parse_key_row [OF assms(2)] unfolding key_answered_def
  by (auto simp: get_container_key_def with_conn_def execute_def bound_sql_def db_run_def run_simps
      simp del: lit_Cons bind_params.simps split: sum.splits)

text \<open>
  A container's key is read back if its hexadecimal text does not look like a number.
\<close>

theorem container_key_is_read_back:
  assumes "key_answered E user_id container_id key s w" and "key \<noteq> []"
    and "convert (sql_hex key) = VStr (sql_hex key)"
  shows "get_container_key E False user_id container_id s = Some (Inr (Some key), s\<lparr>db_world := w\<rparr>)"
proof -
  have "sql_hex key \<noteq> []" using assms(2) sql_hex_Cons [of "hd key" "tl key"] by auto
  then show ?thesis
    using key_answered_run [OF assms(1,2)] assms(3)
    by (simp add: truthy_def str_val_def sql_hexadecimal.dec_enc)
qed

theorem container_key_is_read_back_witness:
  "\<exists>w. get_container_key (echo_env (sql_hex [171, 205] @ newline)) False (VStr (lit ''bob'')) (VStr (lit ''c1''))
     \<lparr>db_closed = False, db_world = []\<rparr> = Some (Inr (Some [171, 205]),
     \<lparr>db_closed = False, db_world = []\<rparr>\<lparr>db_world := w\<rparr>)"
proof (rule exI, rule container_key_is_read_back)
  show "key_answered (echo_env (sql_hex [171, 205] @ newline)) (VStr (lit ''bob'')) (VStr (lit ''c1'')) [171, 205]
      \<lparr>db_closed = False, db_world = []\<rparr>
      (snd (sq_call (echo_env []) [] (shell_input (Some []) (projr (bind_params (echo_env [])
        (lit ''SELECT hex(container_key) FROM containers WHERE user_id = ? AND container_id = ?'')
        [VStr (lit ''bob''), VStr (lit ''c1'')]))) []))"
    by (simp add: key_answered_def echo_env_def sql_literal_def)
  show "convert (sql_hex [171, 205]) = VStr (sql_hex [171, 205])" by code_simp
qed simp

text \<open>
  A user whose id is the text \<open>0\<close> comes out of the database as the number 0, which counts as no
  user: the query for that user's sessions is the query for everybody's.
\<close>

lemma zero_user_gets_all_sessions:
  "get_sessions E own (convert (lit ''0'')) since s = get_sessions E own VNone since s"
proof -
  have "convert (lit ''0'') = VInt 0" by code_simp
  then show ?thesis by (simp add: get_sessions_def sessions_query_def truthy_def)
qed

lemma number_text_plain:
  assumes "\<And>c. c \<in> set s \<Longrightarrow> is_digit c \<or> 65 \<le> c \<and> c \<le> 70"
  shows "number_text s = s"
proof -
  have c: "to_ascii_char c = c \<and> \<not> c_space c" if "c \<in> set s" for c
    using assms [OF that] by (auto simp: to_ascii_char_def c_space_def is_digit_def)
  then have "map to_ascii_char s = s" by (simp add: map_idI)
  moreover have "lstrip_by c_space s = s" using c by (cases s) (auto simp: lstrip_by_def)
  moreover have "rstrip_by c_space s = s" using c last_in_set by (intro rstrip_by_id) blast
  ultimately show ?thesis by (simp add: number_text_def)
qed

lemma drop_underscores_plain: "95 \<notin> set s \<Longrightarrow> drop_underscores b s = Some s"
  by (induction s arbitrary: b) auto

lemma digits_value_bound:
  "list_all is_digit s \<Longrightarrow> 0 \<le> acc \<Longrightarrow>
    \<exists>v. digits_value acc s = Some v \<and> 0 \<le> v \<and> v < (acc + 1) * 10 ^ length s"
proof (induction s arbitrary: acc)
  case (Cons c s)
  then have d: "is_digit c" "0 \<le> 10 * acc + (c - 48)" by (auto simp: is_digit_def)
  obtain v where v: "digits_value (10 * acc + (c - 48)) s = Some v" "0 \<le> v"
    "v < (10 * acc + (c - 48) + 1) * 10 ^ length s"
    using Cons.IH [OF _ d(2)] Cons.prems by auto
  have "(10 * acc + (c - 48) + 1) * 10 ^ length s \<le> (10 * (acc + 1)) * 10 ^ length s"
    using d(1) by (intro mult_right_mono) (auto simp: is_digit_def)
  with v(3) have "v < (10 * (acc + 1)) * 10 ^ length s" by (rule less_le_trans)
  with v(1,2) d(1) show ?case by (simp add: algebra_simps)
qed simp

lemma py_int_digits:
  assumes "list_all is_digit s" and "s \<noteq> []"
  shows "py_int s = Inr (the (digits_value 0 s))"
proof -
  have d: "is_digit c" if "c \<in> set s" for c using assms(1) that by (simp add: list_all_iff)
  then have "number_text s = s" by (intro number_text_plain) blast
  moreover have "drop_underscores False s = Some s"
    using d [of 95] by (intro drop_underscores_plain) (auto simp: is_digit_def)
  moreover have "hd s \<noteq> 45" "hd s \<noteq> 43" using d [of "hd s"] assms(2) by (auto simp: is_digit_def)
  moreover obtain v where "digits_value 0 s = Some v" using digits_value_bound [OF assms(1)] by fastforce
  ultimately show ?thesis using assms(2) by (simp add: py_int_def)
qed

lemma fromhex_digits: "list_all is_digit s \<Longrightarrow> fromhex s = Inr b \<Longrightarrow> length s = 2 * length b"
  by (induction s arbitrary: b rule: fromhex.induct)
    (auto simp: c_space_def is_digit_def bindE_Inr_iff split: option.splits if_splits)

lemma leading_zero_value:
  assumes "list_all is_digit (48 # ds)" and "ds \<noteq> []"
  shows "length (dec_int (the (digits_value 0 (48 # ds)))) \<le> length ds"
proof -
  obtain v where v: "digits_value 0 ds = Some v" "0 \<le> v" "v < 10 ^ length ds"
    using digits_value_bound [of ds 0] assms(1) by auto
  have "int (nat v) < int (10 ^ length ds)" using v(2,3) by simp
  then have "nat v < 10 ^ length ds" by (simp only: of_nat_less_iff)
  then have "length (dec_nat (nat v)) \<le> length ds" using assms(2) by (intro length_dec_nat) auto
  then show ?thesis using v by (simp add: dec_int_def is_digit_def)
qed

text \<open>
  C29. A container's key whose hexadecimal text has decimal digits only and begins with a zero is never
  read back: \<open>execute\<close> turns the text into an \<open>int\<close>, and the zeros are gone.
\<close>

theorem leading_zero_key_is_lost:
  assumes "key_answered E user_id container_id key s w" and "key \<noteq> []"
    and "list_all is_digit (sql_hex key)" and "hd (sql_hex key) = 48"
  shows "\<nexists>s'. get_container_key E False user_id container_id s = Some (Inr (Some key), s')"
proof (rule notI, elim exE)
  fix s'
  assume got: "get_container_key E False user_id container_id s = Some (Inr (Some key), s')"
  let ?v = "the (digits_value 0 (sql_hex key))"
  obtain ds where ds: "sql_hex key = 48 # ds" "ds \<noteq> []"
    using sql_hex_Cons [of "hd key" "tl key"] assms(2,4) by (cases "sql_hex key") auto
  have "convert (sql_hex key) = VInt ?v"
    using py_int_digits [OF assms(3)] ds by (simp add: convert_def)
  then have "fromhex (dec_int ?v) = Inr key"
    using got key_answered_run [OF assms(1,2)]
    by (auto simp: str_val_def split: if_splits sum.splits)
  moreover obtain v where "?v = int v"
    using digits_value_bound [OF assms(3), of 0] by (metis option.sel nonneg_int_cases order.refl)
  then have "list_all is_digit (dec_int ?v)"
    by (auto simp: dec_int_def list_all_iff intro: dec_nat_digits)
  ultimately have "length (dec_int ?v) = 2 * length key" by (metis fromhex_digits)
  moreover have "length (dec_int ?v) \<le> length ds"
    using leading_zero_value [of ds] assms(3) ds by simp
  moreover have "length (sql_hex key) = 2 * length key" by (simp add: sql_hex_def length_bytes_hex)
  ultimately show False using ds by simp
qed

theorem leading_zero_key_is_lost_witness:
  "\<nexists>s'. get_container_key (echo_env (lit ''0012'' @ newline)) False (VStr (lit ''bob'')) (VStr (lit ''c1''))
     \<lparr>db_closed = False, db_world = []\<rparr> = Some (Inr (Some [0, 18]), s')"
proof (rule leading_zero_key_is_lost)
  show "key_answered (echo_env (lit ''0012'' @ newline)) (VStr (lit ''bob'')) (VStr (lit ''c1'')) [0, 18]
      \<lparr>db_closed = False, db_world = []\<rparr>
      (snd (sq_call (echo_env []) [] (shell_input (Some []) (projr (bind_params (echo_env (lit ''0012'' @ newline))
        (lit ''SELECT hex(container_key) FROM containers WHERE user_id = ? AND container_id = ?'')
        [VStr (lit ''bob''), VStr (lit ''c1'')]))) []))"
    by (simp add: key_answered_def echo_env_def sql_hex_def bytes_hex_def upper_char_def nibble_char_def)
qed (simp_all add: sql_hex_def bytes_hex_def upper_char_def nibble_char_def is_digit_def)

subsection \<open>Runs come back\<close>

lemma db_call_returns [total_intros]: "comes_back P (db_call f)"
  by (simp add: comes_back_def db_call_run split: prod.split)

lemma db_returns [total_intros]:
  "comes_back (\<lambda>_. True) (bound_sql E sql params)"
  "comes_back (\<lambda>_. True) (db_run E sql)"
  "comes_back (\<lambda>_. True) db_close"
  unfolding bound_sql_def db_run_def db_close_def by (intro total_intros keeps_True)+

lemma statements_return [total_intros]:
  "comes_back (\<lambda>_. True) (execute E sql params)"
  "comes_back (\<lambda>_. True) (execute_insert E sql params)"
  "comes_back (\<lambda>_. True) (get_connection E)"
  unfolding execute_def execute_insert_def get_connection_def by (intro total_intros keeps_True)+

lemma queries_return [total_intros]:
  "comes_back (\<lambda>_. True) (get_sessions E False user_id since)"
  "comes_back (\<lambda>_. True) (get_all_users E False)"
  "comes_back (\<lambda>_. True) (insert_anomaly_report E False user_id ty severity summary details)"
  "comes_back (\<lambda>_. True) (insert_command_report E False anomaly_id user_id container_id analysis risk_level)"
  "comes_back (\<lambda>_. True) (get_container_key E False user_id container_id)"
  "comes_back (\<lambda>_. True) (get_anomaly_report E False report_id)"
  unfolding get_sessions_def get_all_users_def insert_anomaly_report_def insert_command_report_def
    get_container_key_def get_anomaly_report_def with_conn_def
  by (simp_all del: lit_Cons) (intro total_intros keeps_True)+

lemma finally_closes: "finallyP m db_close s = Some (r, s') \<Longrightarrow> db_closed s'"
  by (auto simp: db_close_def run_simps split: option.splits)

end
