(* ===== verification/AnomalyProps.thy ===== *)
theory AnomalyProps
  imports AnomalyDetect DbProps
begin

text \<open>
  What the detector reports and what it cannot report: the bound on a z-score, the small users who
  are never flagged, the severities, the matched pairs behind the durations, the run of
  \<open>analyze_user\<close> over a session log, and what \<open>main\<close> does to the connection.
\<close>

subsection \<open>How large a z-score can be\<close>

lemma sum_list_square:
  fixes ys :: "real list"
  shows "(sum_list ys)\<^sup>2 \<le> real (length ys) * sum_list (map (\<lambda>y. y\<^sup>2) ys)"
proof (induction ys)
  case (Cons y ys)
  let ?n = "real (length ys)" and ?S = "sum_list ys" and ?Q = "sum_list (map (\<lambda>y. y\<^sup>2) ys)"
  have "2 * y * ?S \<le> ?n * y\<^sup>2 + ?Q"
  proof (cases "ys = []")
    case False
    then have n: "0 < ?n" by simp
    have "?n * (2 * y * ?S) \<le> (?n * y)\<^sup>2 + ?S\<^sup>2"
      using sum_squares_bound [of "?n * y" ?S] by (simp add: power2_eq_square algebra_simps)
    also have "\<dots> \<le> (?n * y)\<^sup>2 + ?n * ?Q" using Cons.IH by simp
    also have "\<dots> = ?n * (?n * y\<^sup>2 + ?Q)" by (simp add: power2_eq_square algebra_simps)
    finally show ?thesis using n by simp
  qed simp
  then show ?case using Cons.IH by (simp add: power2_eq_square algebra_simps)
qed simp

lemma deviations_cancel:
  fixes xs :: "real list"
  assumes "xs \<noteq> []"
  shows "sum_list (map (\<lambda>x. x - sum_list xs / real (length xs)) xs) = 0"
proof -
  have "sum_list (map (\<lambda>x. x - m) xs) = sum_list xs - real (length xs) * m" for m
    by (induction xs) (auto simp: algebra_simps)
  then show ?thesis using assms by simp
qed

text \<open>Samuelson's inequality.\<close>

lemma deviation_bound:
  fixes ds :: "real list"
  assumes "sum_list ds = 0" and "d \<in> set ds"
  shows "real (length ds) * d\<^sup>2 \<le> (real (length ds) - 1) * sum_list (map (\<lambda>y. y\<^sup>2) ds)"
proof -
  obtain us vs where ds: "ds = us @ d # vs" using assms(2) by (meson split_list)
  let ?r = "us @ vs" and ?Q = "sum_list (map (\<lambda>y. y\<^sup>2) (us @ vs))"
  have "sum_list ?r = - d" using assms(1) ds by simp
  then have "d\<^sup>2 \<le> real (length ?r) * ?Q" using sum_list_square [of ?r] by simp
  then show ?thesis using ds by (simp add: algebra_simps)
qed

lemma z_bound:
  assumes "compute_mean_stddev xs = (mean, std)" and "0 < std" and "x \<in> set xs"
  shows "(real_of_int x - mean) / std \<le> (real (length xs) - 1) / sqrt (real (length xs))"
proof -
  let ?n = "real (length xs)" and ?m = "real_of_int (sum_list xs) / real (length xs)"
  let ?ds = "map (\<lambda>x. real_of_int x - ?m) xs"
  have two: "\<not> length xs < 2" using assms by (auto simp: compute_mean_stddev_def split: if_splits)
  then have ne: "xs \<noteq> []" by auto
  have ms: "mean = ?m" "std = sqrt (sum_list (map (\<lambda>x. (real_of_int x - ?m)\<^sup>2) xs) / (?n - 1))"
    using assms(1) two ne by (auto simp: compute_mean_stddev_def Let_def)
  have "sum_list (map (\<lambda>x. x - sum_list (map real_of_int xs) / ?n) (map real_of_int xs)) = 0"
    using deviations_cancel [of "map real_of_int xs"] ne by simp
  moreover have "sum_list (map real_of_int xs) = real_of_int (sum_list xs)"
    by (induction xs) auto
  ultimately have "sum_list ?ds = 0" by (simp add: comp_def)
  moreover have "real_of_int x - mean \<in> set ?ds" using assms(3) ms(1) by simp
  ultimately have b: "?n * (real_of_int x - mean)\<^sup>2 \<le> (?n - 1) * sum_list (map (\<lambda>y. y\<^sup>2) ?ds)"
    using deviation_bound by fastforce
  have n1: "1 \<le> ?n - 1" using two by simp
  have "0 \<le> sum_list (map (\<lambda>y. y\<^sup>2) ?ds)" by (intro sum_list_nonneg) auto
  then have "std\<^sup>2 * (?n - 1) = sum_list (map (\<lambda>y. y\<^sup>2) ?ds)"
    using ms(2) n1 by (simp add: comp_def)
  with b have "(real_of_int x - mean)\<^sup>2 * ?n \<le> (?n - 1) * (std\<^sup>2 * (?n - 1))"
    by (simp only: mult.commute)
  also have "\<dots> = ((?n - 1) * std)\<^sup>2" by (simp add: power2_eq_square)
  finally have "(real_of_int x - mean)\<^sup>2 * ?n \<le> ((?n - 1) * std)\<^sup>2" .
  then have "((real_of_int x - mean) * sqrt ?n)\<^sup>2 \<le> ((?n - 1) * std)\<^sup>2"
    by (simp add: power_mult_distrib)
  then have "(real_of_int x - mean) * sqrt ?n \<le> (?n - 1) * std"
    by (rule power2_le_imp_le) (use n1 assms(2) in simp)
  moreover have "0 < sqrt ?n" using ne by simp
  ultimately show ?thesis using assms(2) by (simp add: divide_simps mult.commute)
qed

text \<open>
  A z-score has a bound that depends only on the number of values: no value lies more than
  (n - 1) / sqrt n of their standard deviations above the mean of the n values it belongs to.
\<close>

theorem z_score_bound:
  assumes "compute_mean_stddev xs = (mean, std)" and "0 < std" and "x \<in> set xs"
  shows "(real_of_int x - mean) / std \<le> (real (length xs) - 1) / sqrt (real (length xs))"
  using assms by (rule z_bound)

theorem z_score_bound_witness:
  "(real_of_int 3 - 2) / sqrt 2 \<le> (real (length [1, 3 :: int]) - 1) / sqrt (real (length [1, 3 :: int]))"
  by (rule z_score_bound) (simp_all add: compute_mean_stddev_def Let_def)

subsection \<open>Counting\<close>

definition counted :: "('k \<times> int) list \<Rightarrow> 'k \<Rightarrow> int" where
  "counted d k = (case map_of d k of None \<Rightarrow> 0 | Some n \<Rightarrow> n)"

lemma sum_dict_put:
  "distinct (map fst d) \<Longrightarrow> sum_list (map snd (dict_put k v d)) = sum_list (map snd d) + v - counted d k"
  by (induction k v d rule: dict_put.induct)
    (auto simp: counted_def split: option.splits dest: map_of_SomeD)

text \<open>What a count by a key function is.\<close>

definition counts_by :: "('a \<Rightarrow> 'k) \<Rightarrow> 'a list \<Rightarrow> ('k \<times> int) list \<Rightarrow> bool" where
  "counts_by f ss d \<longleftrightarrow> distinct (map fst d) \<and>
     (\<forall>k. map_of d k = (let n = length (filter (\<lambda>s. f s = k) ss) in if n = 0 then None else Some (int n)))
     \<and> sum_list (map snd d) = int (length ss)"

lemma counts_by_bump: "counts_by f ss d \<Longrightarrow> counts_by f (ss @ [s]) (bump (f s) d)"
  unfolding counts_by_def bump_def counted_def [symmetric]
  by (auto simp: dict_put_distinct sum_dict_put counted_def Let_def split: if_splits)

lemma counts_by_fold: "counts_by f ss d \<Longrightarrow> counts_by f (ss @ ts) (fold (\<lambda>s. bump (f s)) ts d)"
proof (induction ts arbitrary: ss d)
  case (Cons t ts)
  then show ?case using Cons.IH [OF counts_by_bump [OF Cons.prems, of t]] by simp
qed simp

lemma counts_by_start: "counts_by f ts (fold (\<lambda>s. bump (f s)) ts [])"
  using counts_by_fold [of f "[]" "[]" ts] by (simp add: counts_by_def)

lemma bucket_by_hour_counts: "counts_by (\<lambda>s. tm_hour (ss_time s)) ss (bucket_by_hour ss)"
  unfolding bucket_by_hour_def by (rule counts_by_start)

lemma sessions_per_day_counts:
  "\<exists>d. sessions_per_day ss = map snd d \<and> counts_by (\<lambda>s. tm_day (ss_time s)) ss d"
  unfolding sessions_per_day_def using counts_by_start by blast

lemma counts_by_value:
  assumes "counts_by f ss d" and "(k, c) \<in> set d"
  shows "c = int (length (filter (\<lambda>s. f s = k) ss))" and "0 < c"
  using assms map_of_eq_Some_iff [of d k c] by (auto simp: counts_by_def Let_def split: if_splits)

lemma counts_by_entry:
  assumes "counts_by f ss d" and "s \<in> set ss"
  shows "map_of d (f s) = Some (int (length (filter (\<lambda>s'. f s' = f s) ss)))"
    and "0 < length (filter (\<lambda>s'. f s' = f s) ss)"
  using assms by (auto simp: counts_by_def Let_def filter_empty_conv)

lemma positive_sum: "(\<And>k c. (k, c) \<in> set d \<Longrightarrow> 0 < c) \<Longrightarrow> int (length d) \<le> sum_list (map snd d)"
  by (induction d) force+

lemma counts_by_length: "counts_by f ss d \<Longrightarrow> length d \<le> length ss"
proof -
  assume c: "counts_by f ss d"
  have "int (length d) \<le> sum_list (map snd d)"
    by (rule positive_sum) (use counts_by_value(2) [OF c] in blast)
  then show ?thesis using c by (simp add: counts_by_def)
qed

subsection \<open>Durations\<close>

abbreviation ss_key :: "session \<Rightarrow> pyval \<times> pyval" where
  "ss_key s \<equiv> (ss_user s, ss_container s)"

lemma ended_not_connected: "ended s \<Longrightarrow> \<not> connected s"
  by auto

lemma durations_from_connected:
  "connected s \<Longrightarrow> durations_from p (s # ss) = durations_from (p(ss_key s \<mapsto> ss_time s)) ss"
  by (simp add: Let_def del: lit_Cons)

lemma durations_from_ended:
  "ended s \<Longrightarrow> durations_from p (s # ss) = (case p (ss_key s) of None \<Rightarrow> durations_from p ss
     | Some t \<Rightarrow> (if ss_time s - t > 0 then [ss_time s - t] else []) @
         durations_from (p(ss_key s := None)) ss)"
  using ended_not_connected [of s] by (simp add: Let_def del: lit_Cons cong: option.case_cong)

lemma durations_from_other:
  "\<not> connected s \<Longrightarrow> \<not> ended s \<Longrightarrow> durations_from p (s # ss) = durations_from p ss"
  by (simp add: Let_def del: lit_Cons)

declare durations_from.simps(2) [simp del]

lemmas durations_step = durations_from_connected durations_from_ended durations_from_other

lemma event_cases:
  obtains (connected) "connected s" | (ended) "ended s" | (other) "\<not> connected s" "\<not> ended s"
  by blast

lemma durations_from_mono:
  "p \<subseteq>\<^sub>m q \<Longrightarrow> set (durations_from p ss) \<subseteq> set (durations_from q ss)"
proof (induction ss arbitrary: p q)
  case (Cons s ss)
  show ?case
  proof (cases rule: event_cases [of s])
    case connected
    show ?thesis
      unfolding durations_from_connected [OF connected] by (rule Cons.IH [OF map_le_upd [OF Cons.prems]])
  next
    case ended
    show ?thesis
    proof (cases "p (ss_key s)")
      case None
      then have le: "p \<subseteq>\<^sub>m q(ss_key s := None)" using Cons.prems by (auto simp: map_le_def)
      show ?thesis
      proof (cases "q (ss_key s)")
        case (Some t)
        have "set (durations_from p ss) \<subseteq> set (durations_from (q(ss_key s := None)) ss)"
          by (rule Cons.IH [OF le])
        then show ?thesis unfolding durations_from_ended [OF ended] None Some option.case set_append by blast
      qed (use None Cons.IH [OF Cons.prems] in \<open>simp add: durations_from_ended [OF ended]\<close>)
    next
      case (Some t)
      then have q: "q (ss_key s) = Some t" and le: "p(ss_key s := None) \<subseteq>\<^sub>m q(ss_key s := None)"
        using Cons.prems by (auto simp: map_le_def dom_def)
      have "set (durations_from (p(ss_key s := None)) ss) \<subseteq> set (durations_from (q(ss_key s := None)) ss)"
        by (rule Cons.IH [OF le])
      then show ?thesis unfolding durations_from_ended [OF ended] Some q option.case set_append by blast
    qed
  next
    case other
    then show ?thesis using Cons.IH [OF Cons.prems] by (simp add: durations_step del: lit_Cons)
  qed
qed simp

lemma durations_from_append:
  "\<exists>q. durations_from p (xs @ ys) = durations_from p xs @ durations_from q ys"
proof (induction xs arbitrary: p)
  case (Cons s xs)
  show ?case
  proof (cases rule: event_cases [of s])
    case connected
    then show ?thesis using Cons.IH by (simp add: durations_step del: lit_Cons)
  next
    case ended
    obtain q1 q2 where
      "durations_from p (xs @ ys) = durations_from p xs @ durations_from q1 ys"
      "durations_from (p(ss_key s := None)) (xs @ ys) =
        durations_from (p(ss_key s := None)) xs @ durations_from q2 ys"
      using Cons.IH by metis
    then show ?thesis
      by (cases "p (ss_key s)") (auto simp: durations_from_ended [OF ended] simp del: lit_Cons)
  next
    case other
    then show ?thesis using Cons.IH by (simp add: durations_step del: lit_Cons)
  qed
qed auto

lemma durations_of_suffix: "set (compute_durations recent) \<subseteq> set (compute_durations (old @ recent))"
proof -
  obtain q where "durations_from Map.empty (old @ recent) =
      durations_from Map.empty old @ durations_from q recent"
    using durations_from_append by blast
  then show ?thesis
    using durations_from_mono [of Map.empty q recent] by (auto simp: compute_durations_def)
qed

lemma finite_dom_upd: "finite (dom p) \<Longrightarrow> finite (dom (p(k := v)))"
  by (cases v) (simp_all del: fun_upd_apply)

lemma card_dom_upd: "finite (dom p) \<Longrightarrow> card (dom (p(k \<mapsto> v))) \<le> Suc (card (dom p))"
  by (simp add: card_insert_if)

lemma card_dom_del: "finite (dom p) \<Longrightarrow> p k = Some v \<Longrightarrow> Suc (card (dom (p(k := None)))) = card (dom p)"
  using card_Suc_Diff1 [of "dom p" k] by (simp add: domI del: card_Diff_insert)

lemma durations_from_count:
  "finite (dom p) \<Longrightarrow> length (durations_from p ss) \<le> card (dom p) + length (filter connected ss)"
proof (induction ss arbitrary: p)
  case (Cons s ss)
  show ?case
  proof (cases rule: event_cases [of s])
    case connected
    have "length (durations_from (p(ss_key s \<mapsto> ss_time s)) ss) \<le>
        card (dom (p(ss_key s \<mapsto> ss_time s))) + length (filter connected ss)"
      by (rule Cons.IH [OF finite_dom_upd [OF Cons.prems]])
    moreover note card_dom_upd [OF Cons.prems, of "ss_key s" "ss_time s"]
    ultimately show ?thesis using connected
      unfolding durations_from_connected [OF connected] by (simp del: lit_Cons)
  next
    case ended
    show ?thesis
    proof (cases "p (ss_key s)")
      case None
      then show ?thesis
        using Cons.IH [OF Cons.prems] unfolding durations_from_ended [OF ended] by (simp add: le_SucI)
    next
      case (Some t)
      have "length (durations_from (p(ss_key s := None)) ss) \<le>
          card (dom (p(ss_key s := None))) + length (filter connected ss)"
        by (rule Cons.IH [OF finite_dom_upd [OF Cons.prems]])
      moreover note card_dom_del [OF Cons.prems Some]
      ultimately show ?thesis
        unfolding durations_from_ended [OF ended] Some option.case by simp
    qed
  next
    case other
    then show ?thesis using Cons.IH [OF Cons.prems] by (simp add: durations_step del: lit_Cons)
  qed
qed simp

lemma durations_count: "length (compute_durations ss) \<le> length (filter connected ss)"
  using durations_from_count [of Map.empty ss] by (simp add: compute_durations_def)

subsection \<open>Few logins\<close>

lemma stddev_nonneg: "compute_mean_stddev xs = (mean, std) \<Longrightarrow> 0 \<le> std"
proof -
  assume "compute_mean_stddev xs = (mean, std)"
  moreover have "0 \<le> sum_list (map (\<lambda>x. (real_of_int x - m)\<^sup>2) xs)" for m
    by (intro sum_list_nonneg) auto
  ultimately show ?thesis by (auto simp: compute_mean_stddev_def Let_def split: if_splits)
qed

lemma small_z:
  assumes "compute_mean_stddev xs = (mean, std)" and "0 < std" and "c \<in> set xs" and "x \<le> c"
    and "length xs \<le> 8" and "5 / 2 \<le> threshold"
  shows "(real_of_int x - mean) / std \<le> threshold"
proof -
  let ?n = "real (length xs)"
  have "length xs \<noteq> 0" using assms(3) by auto
  then have "length xs \<in> {1, 2, 3, 4, 5, 6, 7, 8}" using assms(5) by (simp; linarith)
  then have "(?n - 1)\<^sup>2 \<le> 25 / 4 * ?n" and n: "0 < ?n" by auto
  then have "?n - 1 \<le> sqrt (25 / 4 * ?n)" by (intro real_le_rsqrt) simp
  also have "\<dots> = 5 / 2 * sqrt ?n" by (simp add: real_sqrt_mult real_sqrt_divide)
  finally have "(?n - 1) / sqrt ?n \<le> 5 / 2" using n by (simp add: divide_le_eq)
  moreover have "(real_of_int x - mean) / std \<le> (real_of_int c - mean) / std"
    using assms(2,4) by (simp add: divide_right_mono)
  moreover note z_bound [OF assms(1-3)]
  ultimately show ?thesis using assms(6) by linarith
qed

lemma day_counts_grow:
  assumes "c \<in> set (sessions_per_day recent)"
  shows "\<exists>c' \<in> set (sessions_per_day (old @ recent)). c \<le> c'"
proof -
  let ?day = "\<lambda>s. tm_day (ss_time s)"
  obtain d where d: "sessions_per_day recent = map snd d" "counts_by ?day recent d"
    using sessions_per_day_counts by blast
  obtain b where b: "sessions_per_day (old @ recent) = map snd b" "counts_by ?day (old @ recent) b"
    using sessions_per_day_counts by blast
  obtain k where kc: "(k, c) \<in> set d" using assms d(1) by auto
  note c = counts_by_value [OF d(2) kc]
  let ?c' = "int (length (filter (\<lambda>s. ?day s = k) (old @ recent)))"
  have "0 < ?c'" using c by (simp del: length_0_conv length_greater_0_conv)
  then have "map_of b k = Some ?c'" using b(2) by (auto simp: counts_by_def Let_def)
  then have "?c' \<in> set (map snd b)" by (force dest: map_of_SomeD)
  moreover have "c \<le> ?c'" using c(1) by simp
  ultimately show ?thesis using b(1) by metis
qed

lemma time_anomaly_cause:
  assumes "a \<in> set (time_anomalies baseline recent)"
  obtains s where "s \<in> set recent" and "an_type a = unusual_time"
    and "let k = length (filter (\<lambda>s'. tm_hour (ss_time s') = tm_hour (ss_time s)) baseline);
           fraction = real k / real (length baseline) in
         fraction < 2 / 100 \<and> an_z a = (if k = 0 then 4 else 1 / max fraction (1 / 1000))"
proof -
  let ?hour = "\<lambda>s. tm_hour (ss_time s)" and ?b = "bucket_by_hour baseline"
  note counts = bucket_by_hour_counts [of baseline]
  have total: "sum_list (map snd ?b) = int (length baseline)"
    using counts by (simp add: counts_by_def)
  let ?frac = "\<lambda>h. case map_of (map (\<lambda>(h, c). (h, real_of_int c / real_of_int (int (length baseline)))) ?b) h of
      None \<Rightarrow> 0 | Some f \<Rightarrow> f"
  have frac: "?frac h = real (length (filter (\<lambda>s'. ?hour s' = h) baseline)) / real (length baseline)" for h
    using counts by (auto simp: map_of_map counts_by_def Let_def split: option.splits)
  from assms obtain s where s: "s \<in> set recent" "?frac (?hour s) < 2 / 100" "an_type a = unusual_time"
    "an_z a = (if ?frac (?hour s) = 0 then 4 else 1 / max (?frac (?hour s)) (1 / 1000))" "?b \<noteq> []"
    unfolding time_anomalies_def Let_def total by (auto split: if_splits simp del: lit_Cons)
  have "baseline \<noteq> []" using s(5) by (auto simp: bucket_by_hour_def)
  then show thesis
    by (intro that [OF s(1,3)]) (use s(2,4) in \<open>unfold frac Let_def, simp\<close>)
qed

lemma frequency_anomaly_cause:
  assumes "a \<in> set (frequency_anomalies threshold baseline recent)"
  obtains mean std c where "compute_mean_stddev (sessions_per_day baseline) = (mean, std)" and "0 < std"
    and "c \<in> set (sessions_per_day recent)" and "an_z a = (real_of_int c - mean) / std"
    and "threshold < an_z a" and "an_type a = high_frequency"
proof -
  obtain mean std where ms: "compute_mean_stddev (sessions_per_day baseline) = (mean, std)" by (rule prod.exhaust)
  have "0 < std \<and> (\<exists>c \<in> set (sessions_per_day recent). an_z a = (real_of_int c - mean) / std \<and>
      threshold < an_z a \<and> an_type a = high_frequency)"
    using assms unfolding frequency_anomalies_def Let_def ms prod.case by (auto simp del: lit_Cons split: if_splits)
  then show thesis using that [OF ms] by metis
qed

lemma duration_anomaly_cause:
  assumes "a \<in> set (duration_anomalies threshold baseline recent)"
  obtains mean std d where "compute_mean_stddev (compute_durations baseline) = (mean, std)" and "0 < std"
    and "d \<in> set (compute_durations recent)" and "an_z a = (real_of_int d - mean) / std"
    and "threshold < an_z a" and "an_type a = long_duration"
proof -
  obtain mean std where ms: "compute_mean_stddev (compute_durations baseline) = (mean, std)" by (rule prod.exhaust)
  have "0 < std \<and> (\<exists>c \<in> set (compute_durations recent). an_z a = (real_of_int c - mean) / std \<and>
      threshold < an_z a \<and> an_type a = long_duration)"
    using assms unfolding duration_anomalies_def Let_def ms prod.case by (auto simp del: lit_Cons split: if_splits)
  then show thesis using that [OF ms] by metis
qed

lemma few_times:
  assumes "set recent \<subseteq> set baseline" and "length baseline \<le> 50"
  shows "time_anomalies baseline recent = []"
proof (rule ccontr)
  assume "time_anomalies baseline recent \<noteq> []"
  then obtain a where "a \<in> set (time_anomalies baseline recent)" by (meson last_in_set)
  then obtain s where s: "s \<in> set recent" and "real (length (filter (\<lambda>s'. tm_hour (ss_time s') = tm_hour (ss_time s)) baseline))
      / real (length baseline) < 2 / 100"
    by (elim time_anomaly_cause) (auto simp: Let_def)
  moreover have "0 < length (filter (\<lambda>s'. tm_hour (ss_time s') = tm_hour (ss_time s)) baseline)"
    using assms(1) s by (auto simp: filter_empty_conv)
  moreover have "0 < real (length baseline)" using assms(1) s by (cases baseline) auto
  ultimately show False using assms(2) by (simp add: divide_less_eq del: length_greater_0_conv)
qed

text \<open>
  C20. Where the sessions of the last day are the last ones of the window, a user with at most eight
  connections in it is never reported, whatever the hours, the frequency or the durations, unless the
  threshold is below 2.5.
\<close>

theorem few_logins_never_flagged:
  assumes "length (filter connected (old @ recent)) \<le> 8" and "5 / 2 \<le> threshold"
  shows "analyze_sessions threshold user_id (old @ recent) recent = None"
proof -
  let ?b = "filter connected (old @ recent)" and ?r = "filter connected recent"
  have "time_anomalies ?b ?r = []" by (rule few_times) (use assms(1) in auto)
  moreover have "a \<notin> set (frequency_anomalies threshold ?b ?r)" for a
  proof
    assume "a \<in> set (frequency_anomalies threshold ?b ?r)"
    then obtain mean std c where a: "compute_mean_stddev (sessions_per_day ?b) = (mean, std)" "0 < std"
      "c \<in> set (sessions_per_day ?r)" "an_z a = (real_of_int c - mean) / std" "threshold < an_z a"
      by (rule frequency_anomaly_cause)
    obtain c' where "c' \<in> set (sessions_per_day ?b)" "c \<le> c'"
      using day_counts_grow [OF a(3), of "filter connected old"] by auto
    moreover have "length (sessions_per_day ?b) \<le> 8"
      using sessions_per_day_counts [of ?b] assms(1) by (auto dest!: counts_by_length simp del: lit_Cons)
    ultimately show False using small_z [OF a(1,2) _ _ _ assms(2)] a(4,5) by force
  qed
  then have "frequency_anomalies threshold ?b ?r = []" by (metis last_in_set)
  moreover have "a \<notin> set (duration_anomalies threshold (old @ recent) recent)" for a
  proof
    assume "a \<in> set (duration_anomalies threshold (old @ recent) recent)"
    then obtain mean std d where a: "compute_mean_stddev (compute_durations (old @ recent)) = (mean, std)"
      "0 < std" "d \<in> set (compute_durations recent)" "an_z a = (real_of_int d - mean) / std" "threshold < an_z a"
      by (rule duration_anomaly_cause)
    then show False
      using small_z [OF a(1,2) _ order.refl _ assms(2), of d] durations_of_suffix [of recent old]
        durations_count [of "old @ recent"] assms(1) by force
  qed
  then have "duration_anomalies threshold (old @ recent) recent = []" by (metis last_in_set)
  ultimately show ?thesis by (simp add: analyze_sessions_def assess_def del: lit_Cons)
qed

theorem few_logins_never_flagged_witness:
  defines "s \<equiv> \<lparr>ss_user = VStr [98], ss_container = VStr [99], ss_event = lit ''ssh_connected'', ss_time = 0\<rparr>"
  shows "analyze_sessions (5 / 2) (VStr [98]) ([s, s, s, s, s, s] @ [s\<lparr>ss_time := 9999\<rparr>]) [s\<lparr>ss_time := 9999\<rparr>] = None"
  by (rule few_logins_never_flagged) (simp_all add: s_def)

subsection \<open>Severities\<close>

lemma assess_Some:
  assumes "assess user_id as = Some R"
  shows "ar_severity R = (if 1 < card (an_type ` set as) then escalate (base_severity (Max (set (map an_z as))))
      else base_severity (Max (set (map an_z as))))"
    and "ar_type R = (if 1 < card (an_type ` set as) then lit ''composite'' else an_type (hd as))"
    and "as \<noteq> []" and "ar_details R = as"
  using assms by (auto simp: assess_def Let_def simp del: lit_Cons split: if_splits)

lemma analyze_sessions_Some:
  assumes "analyze_sessions threshold user_id baseline recent = Some R"
  shows "ar_details R \<noteq> []"
    and "ar_details R = time_anomalies (filter connected baseline) (filter connected recent) @
      frequency_anomalies threshold (filter connected baseline) (filter connected recent) @
      duration_anomalies threshold baseline recent"
    and "assess user_id (ar_details R) = Some R"
proof -
  have "assess user_id (time_anomalies (filter connected baseline) (filter connected recent) @
      frequency_anomalies threshold (filter connected baseline) (filter connected recent) @
      duration_anomalies threshold baseline recent) = Some R"
    using assms by (simp only: analyze_sessions_def Let_def)
  note a = this assess_Some(3,4) [OF this]
  show "ar_details R \<noteq> []" "assess user_id (ar_details R) = Some R" using a by (simp_all only: a(3)) blast
  show "ar_details R = time_anomalies (filter connected baseline) (filter connected recent) @
      frequency_anomalies threshold (filter connected baseline) (filter connected recent) @
      duration_anomalies threshold baseline recent" by (rule a(3))
qed

lemma detail_kind:
  assumes "analyze_sessions threshold user_id baseline recent = Some R" and "a \<in> set (ar_details R)"
  shows "an_type a \<in> {unusual_time, high_frequency, long_duration}"
  using assms(2) unfolding analyze_sessions_Some(2) [OF assms(1)]
  by (auto elim: time_anomaly_cause frequency_anomaly_cause duration_anomaly_cause simp del: lit_Cons)

lemma max_z: "as \<noteq> [] \<Longrightarrow> x < Max (set (map an_z as)) \<longleftrightarrow> (\<exists>a \<in> set as. x < an_z a)"
  by (simp add: Max_gr_iff)

lemma severities_differ [simp]:
  "lit ''low'' \<noteq> lit ''medium''" "lit ''medium'' \<noteq> lit ''low''" "lit ''low'' \<noteq> lit ''high''"
  "lit ''high'' \<noteq> lit ''low''" "lit ''high'' \<noteq> lit ''medium''" "lit ''medium'' \<noteq> lit ''high''"
  by simp_all

text \<open>
  C24. The severity of a report is that of its largest z-score (above 4.5 \<open>high\<close>, above 3.5 \<open>medium\<close>,
  else \<open>low\<close>), one step higher if the report has anomalies of more than one kind; its type is then
  \<open>composite\<close>, and otherwise the one kind of its anomalies.
\<close>

theorem severity_from_z_scores:
  assumes "analyze_sessions threshold user_id baseline recent = Some R"
  shows "ar_severity R = [lit ''low'', lit ''medium'', lit ''high''] !
      min 2 ((if \<exists>a \<in> set (ar_details R). 45 / 10 < an_z a then 2
              else if \<exists>a \<in> set (ar_details R). 35 / 10 < an_z a then 1 else 0) +
             (if 1 < card (an_type ` set (ar_details R)) then 1 else 0)) \<and>
    (if 1 < card (an_type ` set (ar_details R)) then ar_type R = lit ''composite''
     else an_type ` set (ar_details R) = {ar_type R} \<and> ar_type R \<in> {unusual_time, high_frequency, long_duration})"
proof -
  note R = analyze_sessions_Some(1,3) [OF assms]
  let ?kinds = "an_type ` set (ar_details R)"
  have one: "?kinds = {an_type (hd (ar_details R))}" if "\<not> 1 < card ?kinds"
  proof -
    have "card ?kinds = 1" using that R(1) by (cases "card ?kinds") auto
    then show ?thesis using R(1) by (metis card_1_singletonE hd_in_set imageI singletonD)
  qed
  note sev = assess_Some(1) [OF R(2)] and ty = assess_Some(2) [OF R(2)]
  have "an_type (hd (ar_details R)) \<in> {unusual_time, high_frequency, long_duration}"
    using detail_kind [OF assms] R(1) by simp
  then show ?thesis
    using one ty unfolding sev base_severity_def escalate_def max_z [OF R(1)]
    by (auto simp del: lit_Cons simp: numeral_2_eq_2)
qed

text \<open>
  C25. Where the day's sessions are among the window's, a connection can only be reported for its hour
  if there were more than 50 in the window, and then the report is always of severity \<open>high\<close>: the
  z-score of a rare hour is above 50, and the value 4 for an hour never seen before is never used.
\<close>

theorem unusual_time_is_always_high:
  assumes "set recent \<subseteq> set baseline"
    and "analyze_sessions threshold user_id baseline recent = Some R"
    and "a \<in> set (ar_details R)" and "an_type a = unusual_time"
  shows "50 < an_z a \<and> 50 < length (filter connected baseline) \<and> ar_severity R = lit ''high''"
proof -
  let ?b = "filter connected baseline" and ?r = "filter connected recent"
  have kinds: "unusual_time \<noteq> high_frequency" "unusual_time \<noteq> long_duration"
    by (simp_all add: unusual_time_def high_frequency_def long_duration_def)
  have "a \<in> set (time_anomalies ?b ?r)"
    using assms(3,4) kinds unfolding analyze_sessions_Some(2) [OF assms(2)]
    by (auto elim: frequency_anomaly_cause duration_anomaly_cause simp del: lit_Cons)
  then obtain s where s: "s \<in> set ?r" and "let k = length (filter (\<lambda>s'. tm_hour (ss_time s') = tm_hour (ss_time s)) ?b);
      fraction = real k / real (length ?b) in
      fraction < 2 / 100 \<and> an_z a = (if k = 0 then 4 else 1 / max fraction (1 / 1000))"
    by (rule time_anomaly_cause)
  moreover define k where "k = length (filter (\<lambda>s'. tm_hour (ss_time s') = tm_hour (ss_time s)) ?b)"
  moreover have k: "k \<noteq> 0" using assms(1) s unfolding k_def by (auto simp: filter_empty_conv)
  ultimately have f: "real k / real (length ?b) < 2 / 100" "an_z a = 1 / max (real k / real (length ?b)) (1 / 1000)"
    by (simp_all only: Let_def if_False)
  have n: "0 < real (length ?b)" using assms(1) s by (auto simp: filter_empty_conv)
  have "1 \<le> real k" using k by simp
  then have "1 < 2 / 100 * real (length ?b)" using f(1) n by (simp add: divide_less_eq)
  then have many: "50 < length ?b" by simp
  have "0 < max (real k / real (length ?b)) (1 / 1000)" "max (real k / real (length ?b)) (1 / 1000) < 2 / 100"
    using f(1) by simp_all
  then have z: "50 < an_z a" unfolding f(2) by (simp add: less_divide_eq)
  note R = analyze_sessions_Some(1,3) [OF assms(2)]
  have "45 / 10 < an_z a" using z by simp
  then have "45 / 10 < Max (set (map an_z (ar_details R)))" unfolding max_z [OF R(1)] using assms(3) by blast
  then have "base_severity (Max (set (map an_z (ar_details R)))) = lit ''high''"
    by (simp add: base_severity_def del: lit_Cons)
  then have "ar_severity R = lit ''high''"
    unfolding assess_Some(1) [OF R(2)] by (simp add: escalate_def del: lit_Cons)
  with z many show ?thesis by simp
qed

text \<open>A user with 51 connections at midnight and one at one o'clock.\<close>

definition night :: session where
  "night = \<lparr>ss_user = VStr [98], ss_container = VStr [99], ss_event = lit ''ssh_connected'', ss_time = 0\<rparr>"

definition nights :: "session list" where
  "nights = replicate 51 night @ [night\<lparr>ss_time := 3600\<rparr>]"

lemma rare_hour_example:
  "\<exists>R a. analyze_sessions (5 / 2) (VStr [98]) nights [night\<lparr>ss_time := 3600\<rparr>] = Some R \<and>
    a \<in> set (ar_details R) \<and> an_type a = unusual_time"
proof -
  have b: "bucket_by_hour nights = [(0, 51), (1, 1)]" by code_simp
  have c: "filter connected nights = nights" "filter connected [night\<lparr>ss_time := 3600\<rparr>] = [night\<lparr>ss_time := 3600\<rparr>]"
    by (simp_all add: nights_def night_def)
  have "tm_hour 3600 = 1" by code_simp
  then obtain a where a: "time_anomalies nights [night\<lparr>ss_time := 3600\<rparr>] = [a]" "an_type a = unusual_time"
    unfolding time_anomalies_def Let_def b by (simp add: tm_hour_def del: lit_Cons)
  then obtain R where R: "analyze_sessions (5 / 2) (VStr [98]) nights [night\<lparr>ss_time := 3600\<rparr>] = Some R"
    unfolding analyze_sessions_def Let_def c by (simp add: assess_def Let_def del: lit_Cons)
  moreover have "a \<in> set (ar_details R)" unfolding analyze_sessions_Some(2) [OF R] c a(1) by simp
  ultimately show ?thesis using a(2) by blast
qed

theorem severity_from_z_scores_witness:
  "\<exists>R. analyze_sessions (5 / 2) (VStr [98]) nights [night\<lparr>ss_time := 3600\<rparr>] = Some R \<and>
    ar_severity R = [lit ''low'', lit ''medium'', lit ''high''] !
      min 2 ((if \<exists>a \<in> set (ar_details R). 45 / 10 < an_z a then 2
              else if \<exists>a \<in> set (ar_details R). 35 / 10 < an_z a then 1 else 0) +
             (if 1 < card (an_type ` set (ar_details R)) then 1 else 0))"
proof -
  obtain R a where R: "analyze_sessions (5 / 2) (VStr [98]) nights [night\<lparr>ss_time := 3600\<rparr>] = Some R"
    "a \<in> set (ar_details R)" "an_type a = unusual_time" using rare_hour_example by blast
  show ?thesis by (rule exI, rule conjI [OF R(1) conjunct1 [OF severity_from_z_scores [OF R(1)]]])
qed

theorem unusual_time_is_always_high_witness:
  "\<exists>R a. analyze_sessions (5 / 2) (VStr [98]) nights [night\<lparr>ss_time := 3600\<rparr>] = Some R \<and>
    a \<in> set (ar_details R) \<and> 50 < an_z a \<and> ar_severity R = lit ''high''"
proof -
  obtain R a where R: "analyze_sessions (5 / 2) (VStr [98]) nights [night\<lparr>ss_time := 3600\<rparr>] = Some R"
    "a \<in> set (ar_details R)" "an_type a = unusual_time" using rare_hour_example by blast
  have sub: "set [night\<lparr>ss_time := 3600\<rparr>] \<subseteq> set nights" by (simp add: nights_def)
  show ?thesis
    using unusual_time_is_always_high [OF sub R] R(1,2) by (intro exI [of _ R] exI [of _ a]) simp
qed

subsection \<open>Matched pairs\<close>

fun closes :: "pyval \<times> pyval \<Rightarrow> int \<Rightarrow> int \<Rightarrow> session list \<Rightarrow> bool" where
  "closes k t d [] \<longleftrightarrow> False"
| "closes k t d (s # ss) \<longleftrightarrow>
     (if (connected s \<or> ended s) \<and> ss_key s = k then ended s \<and> d = ss_time s - t \<and> 0 < d
      else closes k t d ss)"

fun matched :: "int \<Rightarrow> session list \<Rightarrow> bool" where
  "matched d [] \<longleftrightarrow> False"
| "matched d (s # ss) \<longleftrightarrow> connected s \<and> closes (ss_key s) (ss_time s) d ss \<or> matched d ss"

declare closes.simps(2) [simp del]

lemma closes_connected: "connected s \<Longrightarrow> closes k t d (s # ss) \<longleftrightarrow> ss_key s \<noteq> k \<and> closes k t d ss"
  using ended_not_connected [of s] by (auto simp: closes.simps simp del: lit_Cons)

lemma closes_ended: "ended s \<Longrightarrow> closes k t d (s # ss) \<longleftrightarrow>
    (if ss_key s = k then d = ss_time s - t \<and> 0 < d else closes k t d ss)"
  by (simp add: closes.simps del: lit_Cons)

lemma in_durations_from:
  "d \<in> set (durations_from p ss) \<longleftrightarrow> matched d ss \<or> (\<exists>k t. p k = Some t \<and> closes k t d ss)"
proof (induction ss arbitrary: p)
  case (Cons s ss)
  show ?case
  proof (cases rule: event_cases [of s])
    case connected
    have "(p(ss_key s \<mapsto> ss_time s)) k = Some t \<and> closes k t d ss \<longleftrightarrow>
        k = ss_key s \<and> t = ss_time s \<and> closes (ss_key s) (ss_time s) d ss \<or>
        p k = Some t \<and> closes k t d (s # ss)" for k t
      unfolding closes_connected [OF connected] fun_upd_apply by (auto split: if_splits)
    then have "(\<exists>k t. (p(ss_key s \<mapsto> ss_time s)) k = Some t \<and> closes k t d ss) \<longleftrightarrow>
        closes (ss_key s) (ss_time s) d ss \<or> (\<exists>k t. p k = Some t \<and> closes k t d (s # ss))"
      by (simp only: ex_disj_distrib) blast
    then show ?thesis
      using connected unfolding durations_from_connected [OF connected] Cons.IH by auto
  next
    case ended
    then have m: "matched d (s # ss) \<longleftrightarrow> matched d ss" using ended_not_connected [of s] by simp
    show ?thesis
    proof (cases "p (ss_key s)")
      case None
      then have "p k = Some t \<and> closes k t d ss \<longleftrightarrow> p k = Some t \<and> closes k t d (s # ss)" for k t
        unfolding closes_ended [OF ended] by auto
      then show ?thesis
        unfolding durations_from_ended [OF ended] None option.case Cons.IH m by (simp only:)
    next
      case (Some t)
      have "(p(ss_key s := None)) k = Some u \<and> closes k u d ss \<or>
          k = ss_key s \<and> u = t \<and> d = ss_time s - t \<and> 0 < d \<longleftrightarrow>
          p k = Some u \<and> closes k u d (s # ss)" for k u
        unfolding closes_ended [OF ended] fun_upd_apply using Some by auto
      then have "(d = ss_time s - t \<and> 0 < d) \<or> (\<exists>k t. (p(ss_key s := None)) k = Some t \<and> closes k t d ss) \<longleftrightarrow>
          (\<exists>k t. p k = Some t \<and> closes k t d (s # ss))"
        by blast
      moreover have "d \<in> set (if ss_time s - t > 0 then [ss_time s - t] else []) \<longleftrightarrow> d = ss_time s - t \<and> 0 < d"
        by auto
      ultimately show ?thesis
        unfolding durations_from_ended [OF ended] Some option.case set_append Un_iff Cons.IH m by argo
    qed
  next
    case other
    then show ?thesis
      unfolding durations_from_other [OF other] Cons.IH by (simp add: closes.simps del: lit_Cons)
  qed
qed simp

lemma split_Cons:
  "(\<exists>vs b ws. s # ss = vs @ b # ws \<and> P vs b) \<longleftrightarrow> P [] s \<or> (\<exists>vs b ws. ss = vs @ b # ws \<and> P (s # vs) b)"
  by (auto simp: Cons_eq_append_conv)

lemma closes_split:
  "closes k t d ss \<longleftrightarrow> (\<exists>vs b ws. ss = vs @ b # ws \<and> ended b \<and> ss_key b = k \<and>
     filter (\<lambda>s. (connected s \<or> ended s) \<and> ss_key s = k) vs = [] \<and> d = ss_time b - t \<and> 0 < d)"
proof (induction ss)
  case (Cons s ss)
  show ?case unfolding closes.simps split_Cons Cons.IH by (simp del: lit_Cons)
qed simp

lemma matched_split: "matched d ss \<longleftrightarrow> (\<exists>us a vs. ss = us @ a # vs \<and> connected a \<and> closes (ss_key a) (ss_time a) d vs)"
  by (induction ss) (auto simp: Cons_eq_append_conv simp del: lit_Cons)

text \<open>
  C23. The durations are those of the matched pairs: a number is in the list exactly if it is positive
  and lies between a connection and the next event of the same user and container, which ends it.
\<close>

theorem durations_are_matched_pairs:
  "d \<in> set (compute_durations ss) \<longleftrightarrow>
     (\<exists>us a vs b ws. ss = us @ a # vs @ b # ws \<and> connected a \<and> ended b \<and> ss_key b = ss_key a \<and>
        filter (\<lambda>s. (connected s \<or> ended s) \<and> ss_key s = ss_key a) vs = [] \<and>
        d = ss_time b - ss_time a \<and> 0 < d)"
  unfolding compute_durations_def in_durations_from matched_split closes_split by simp blast

end
