(* ===== verification/DetectorRun.thy ===== *)
theory DetectorRun
  imports AnomalyProps
begin

text \<open>
  Runs of the detector: \<open>analyze_user\<close> over a session table, with the contract of the two queries it
  makes as a locale, and what a whole run of \<open>main\<close> does to the connection and to the database.
\<close>

subsection \<open>The session table\<close>

text \<open>What the rest of the detector needs of the table: a later start gives the last of the rows.\<close>

locale session_store =
  fixes since_query :: "int \<Rightarrow> session list"
  assumes later_rows: "a \<le> b \<Longrightarrow> \<exists>old. since_query a = old @ since_query b"
begin

lemma later_subset: "a \<le> b \<Longrightarrow> set (since_query b) \<subseteq> set (since_query a)"
  using later_rows by fastforce

lemma later_durations:
  "a \<le> b \<Longrightarrow> set (compute_durations (since_query b)) \<subseteq> set (compute_durations (since_query a))"
  using later_rows durations_of_suffix by metis

lemma later_day_counts:
  "a \<le> b \<Longrightarrow> c \<in> set (sessions_per_day (since_query b)) \<Longrightarrow>
    \<exists>c' \<in> set (sessions_per_day (since_query a)). c \<le> c'"
  using later_rows day_counts_grow by metis

end

text \<open>\<open>WHERE user_id = ? AND timestamp >= ? ORDER BY timestamp ASC\<close> on the rows of the table.\<close>

definition selected :: "session list \<Rightarrow> pyval \<Rightarrow> int \<Rightarrow> session list" where
  "selected tbl user_id since =
     filter (\<lambda>s. ss_user s = user_id \<and> since \<le> ss_time s) (sort_key ss_time tbl)"

lemma sorted_suffix:
  fixes a b :: int
  assumes "sorted (map f xs)" and "a \<le> b"
  shows "\<exists>old. filter (\<lambda>x. P x \<and> a \<le> f x) xs = old @ filter (\<lambda>x. P x \<and> b \<le> f x) xs"
  using assms(1)
proof (induction xs)
  case (Cons x xs)
  then obtain old where old: "filter (\<lambda>x. P x \<and> a \<le> f x) xs = old @ filter (\<lambda>x. P x \<and> b \<le> f x) xs" by auto
  show ?case
  proof (cases "b \<le> f x")
    case True
    then have "\<forall>y \<in> set (x # xs). a \<le> f y \<and> b \<le> f y" using Cons.prems assms(2) by auto
    then have "filter (\<lambda>x. P x \<and> a \<le> f x) (x # xs) = filter (\<lambda>x. P x \<and> b \<le> f x) (x # xs)"
      by (intro filter_cong) auto
    then show ?thesis by (metis append_Nil)
  next
    case False
    then have "filter (\<lambda>x. P x \<and> a \<le> f x) (x # xs) =
        ((if P x \<and> a \<le> f x then [x] else []) @ old) @ filter (\<lambda>x. P x \<and> b \<le> f x) (x # xs)"
      using old by simp
    then show ?thesis by blast
  qed
qed simp

interpretation table: session_store "selected tbl user_id" for tbl user_id
proof
  fix a b :: int
  assume "a \<le> b"
  then show "\<exists>old. selected tbl user_id a = old @ selected tbl user_id b"
    unfolding selected_def by (intro sorted_suffix) simp_all
qed

text \<open>
  The shell answers the two queries of \<open>analyze_user\<close> from a table: \<open>row_text\<close> is the text of a row, which
  reads back as the row's session.
\<close>

definition row_ok :: "(session \<Rightarrow> pystr list) \<Rightarrow> session \<Rightarrow> bool" where
  "row_ok row_text s \<longleftrightarrow> 2 \<le> length (row_text s) \<and> (\<forall>f \<in> set (row_text s). 10 \<notin> set f \<and> 60 \<notin> set f) \<and>
     session_of (zip session_columns (map convert (row_text s))) = Inr s"

definition answers :: "'w sql_env \<Rightarrow> (session \<Rightarrow> pystr list) \<Rightarrow> session list \<Rightarrow> pyval \<Rightarrow> 'w \<Rightarrow> int \<Rightarrow> bool" where
  "answers E row_text tbl user_id w since \<longleftrightarrow> (\<exists>stmt err.
     bind_params E (fst (sessions_query user_id (Some since))) (snd (sessions_query user_id (Some since))) = Inr stmt \<and>
     sq_call E [lit ''sqlcipher'', sq_path E] (shell_input (sq_password E) stmt) w =
       (Inr (0, shell_output (map row_text (selected tbl user_id since)), err), w))"

lemma sessions_of_rows:
  "\<forall>s \<in> set ss. row_ok row_text s \<Longrightarrow>
    sessions_of (map (\<lambda>fs. zip session_columns (map convert fs)) (map row_text ss)) = Inr ss"
  by (induction ss) (auto simp: row_ok_def)

lemma selected_subset: "set (selected tbl user_id since) \<subseteq> set tbl"
  by (auto simp: selected_def)

lemma get_sessions_answered:
  assumes "answers E row_text tbl user_id (db_world s) since" and "truthy user_id" and "\<not> db_closed s"
    and "\<forall>s \<in> set tbl. row_ok row_text s"
  shows "get_sessions E False user_id (Some since) s =
    Some (Inr (map (\<lambda>fs. zip session_columns (map convert fs)) (map row_text (selected tbl user_id since))), s)"
proof -
  obtain sql params where q: "sessions_query user_id (Some since) = (sql, params)" by (rule prod.exhaust)
  then have "params \<noteq> []" using assms(2) by (auto simp: sessions_query_def Let_def)
  moreover obtain stmt err where "bind_params E sql params = Inr stmt"
    "sq_call E [lit ''sqlcipher'', sq_path E] (shell_input (sq_password E) stmt) (db_world s) =
      (Inr (0, shell_output (map row_text (selected tbl user_id since)), err), db_world s)"
    using assms(1) q by (auto simp: answers_def)
  moreover have "\<forall>fs \<in> set (map row_text (selected tbl user_id since)).
      2 \<le> length fs \<and> (\<forall>f \<in> set fs. 10 \<notin> set f \<and> 60 \<notin> set f)"
    using assms(4) selected_subset by (fastforce simp: row_ok_def)
  ultimately show ?thesis using get_sessions_run [OF q _ _ assms(3)] by simp
qed

definition baseline_of :: "'w detect_env \<Rightarrow> session list \<Rightarrow> pyval \<Rightarrow> real \<Rightarrow> session list" where
  "baseline_of D tbl user_id t = selected tbl user_id (\<lfloor>t\<rfloor> - de_window D * 86400)"

definition recent_of :: "session list \<Rightarrow> pyval \<Rightarrow> real \<Rightarrow> session list" where
  "recent_of tbl user_id t = selected tbl user_id (\<lfloor>t\<rfloor> - 86400)"

lemma analyze_user_run:
  assumes "de_now D (db_world s) = (t, db_world s)" and "truthy user_id" and "\<not> db_closed s"
    and "\<forall>s \<in> set tbl. row_ok row_text s"
    and "answers (de_sql D) row_text tbl user_id (db_world s) (\<lfloor>t\<rfloor> - de_window D * 86400)"
    and "answers (de_sql D) row_text tbl user_id (db_world s) (\<lfloor>t\<rfloor> - 86400)"
  shows "analyze_user D user_id s = Some (Inr (
    if length (baseline_of D tbl user_id t) < 5 then None
    else analyze_sessions (de_threshold D) user_id (baseline_of D tbl user_id t) (recent_of tbl user_id t)), s)"
proof -
  have rows: "\<forall>s \<in> set (selected tbl user_id since). row_ok row_text s" for since
    using assms(4) selected_subset by blast
  show ?thesis
    unfolding analyze_user_def baseline_of_def recent_of_def
    by (simp add: run_simps assms(1) Let_def get_sessions_answered [OF assms(5,2,3,4)]
        get_sessions_answered [OF assms(6,2,3,4)] sessions_of_rows [OF rows] del: map_map)
qed


definition bob_row :: session where
  "bob_row = \<lparr>ss_user = VStr (lit ''bob''), ss_container = VStr (lit ''c1''),
     ss_event = lit ''ssh_connected'', ss_time = 50000\<rparr>"

definition bob_text :: "session \<Rightarrow> pystr list" where
  "bob_text s = [lit ''7'', lit ''bob'', lit ''c1'', lit ''ssh_connected'', lit ''50000'']"

definition bob_env :: "pystr \<Rightarrow> unit detect_env" where
  "bob_env out = \<lparr>de_sql = \<lparr>sq_password = Some [], sq_path = [],
       sq_call = (\<lambda>argv input w. (Inr (0, out, []), w)), fl_str = (\<lambda>t. [48])\<rparr>,
     de_now = (\<lambda>w. (100000, w)), de_window = 30, de_threshold = 5 / 2, de_repr = (\<lambda>x. [48])\<rparr>"


subsection \<open>Whole runs\<close>

text \<open>A fact about the world that every \<open>SELECT\<close> keeps.\<close>

definition select_keeps :: "('w \<Rightarrow> bool) \<Rightarrow> 'w sql_env \<Rightarrow> bool" where
  "select_keeps I E \<longleftrightarrow> (\<forall>w sql. I w \<longrightarrow> take 6 sql = lit ''SELECT'' \<longrightarrow>
     I (snd (sq_call E [lit ''sqlcipher'', sq_path E] (shell_input (sq_password E) sql) w)))"

lemma bind_params_prefix:
  "63 \<notin> set p \<Longrightarrow> bind_params E (p @ sql) ps = Inr out \<Longrightarrow> take (length p) out = p"
  by (induction p arbitrary: out) (auto simp: bindE_Inr_iff)

lemma bound_sql_select:
  assumes "bound_sql E (lit ''SELECT'' @ sql) params s = Some (Inr out, s')"
  shows "take 6 out = lit ''SELECT'' \<and> s' = s"
proof -
  have free: "63 \<notin> set (lit ''SELECT'')" and len: "length (lit ''SELECT'') = 6" by simp_all
  show ?thesis
    using assms bind_params_prefix [OF free, of E sql params out] unfolding len
    by (auto simp: bound_sql_def run_simps len simp del: lit_Cons split: if_splits)
qed

lemma execute_keeps:
  assumes "select_keeps I E"
  shows "keeps (\<lambda>s. I (db_world s)) (execute E (lit ''SELECT'' @ sql) params)"
proof -
  have run: "keeps (\<lambda>s. I (db_world s)) (db_run E out)" if "take 6 out = lit ''SELECT''" for out
  proof (rule keepsI)
    fix s r s'
    assume s: "I (db_world s)" and r: "db_run E out s = Some (r, s')"
    obtain q w where c: "sq_call E [lit ''sqlcipher'', sq_path E] (shell_input (sq_password E) out) (db_world s) = (q, w)"
      by (rule prod.exhaust)
    have "I (snd (sq_call E [lit ''sqlcipher'', sq_path E] (shell_input (sq_password E) out) (db_world s)))"
      using assms that s unfolding select_keeps_def by blast
    then have "I w" using c by simp
    then show "I (db_world s')"
      using r s c by (auto simp: db_run_def run_simps simp del: lit_Cons split: if_splits sum.splits prod.splits)
  qed
  show ?thesis
  proof (rule keepsI)
    fix s r s'
    assume I: "I (db_world s)" and "execute E (lit ''SELECT'' @ sql) params s = Some (r, s')"
    then have "bindP (bound_sql E (lit ''SELECT'' @ sql) params)
        (\<lambda>sql. bindP (db_run E sql) (\<lambda>output. ret (parse_rows output))) s = Some (r, s')"
      by (simp only: execute_def)
    then show "I (db_world s')"
    proof (cases rule: bindP_SomeE)
      case raised
      then have "s' = s" by (auto simp: bound_sql_def run_simps simp del: lit_Cons split: if_splits)
      then show ?thesis using I by simp
    next
      case (went_on out t)
      then have out: "take 6 out = lit ''SELECT''" "t = s" using bound_sql_select by blast+
      have "keeps (\<lambda>s. I (db_world s)) (bindP (db_run E out) (\<lambda>output. ret (parse_rows output)))"
        by (intro keeps_intros run out)
      then show ?thesis using went_on(2) I out(2) by (auto dest: keepsD)
    qed
  qed
qed

lemma query_keeps:
  assumes "select_keeps I E"
  shows "keeps (\<lambda>s. I (db_world s)) (get_sessions E False user_id since)"
    and "keeps (\<lambda>s. I (db_world s)) (get_all_users E False)"
    and "keeps (\<lambda>s. I (db_world s)) (get_connection E)"
proof -
  have lits: "lit ''SELECT session_id, user_id, container_id, event_type, timestamp FROM sessions WHERE 1=1'' =
      lit ''SELECT'' @ lit '' session_id, user_id, container_id, event_type, timestamp FROM sessions WHERE 1=1''"
    "lit ''SELECT user_id FROM users'' = lit ''SELECT'' @ lit '' user_id FROM users''"
    "lit ''SELECT count(*) FROM sqlite_master'' = lit ''SELECT'' @ lit '' count(*) FROM sqlite_master''"
    by simp_all
  note ex = execute_keeps [OF assms]
  have "\<exists>sql params. sessions_query user_id since = (lit ''SELECT'' @ sql, params)"
    by (simp only: sessions_query_def Let_def lits append_assoc) blast
  then obtain sql params where q: "sessions_query user_id since = (lit ''SELECT'' @ sql, params)" by blast
  show "keeps (\<lambda>s. I (db_world s)) (get_sessions E False user_id since)"
    unfolding get_sessions_def with_conn_def q by (simp del: lit_Cons) (intro keeps_intros ex)
  show "keeps (\<lambda>s. I (db_world s)) (get_all_users E False)"
    unfolding get_all_users_def with_conn_def lits by (simp del: lit_Cons) (intro keeps_intros ex)
  show "keeps (\<lambda>s. I (db_world s)) (get_connection E)"
    unfolding get_connection_def lits by (intro keeps_intros ex) simp
qed

lemma close_keeps: "keeps (\<lambda>s. I (db_world s)) db_close"
  unfolding db_close_def by (intro keeps_intros) simp

lemma clock_keeps:
  assumes "\<forall>w. I w \<longrightarrow> I (snd (f w))"
  shows "keeps (\<lambda>s. I (db_world s)) (db_call (\<lambda>w. case f w of (t, w') \<Rightarrow> (Inr t, w')))"
proof (rule keepsI)
  fix s r s'
  assume "I (db_world s)" and "db_call (\<lambda>w. case f w of (t, w') \<Rightarrow> (Inr t, w')) s = Some (r, s')"
  then show "I (db_world s')"
    using assms by (cases "f (db_world s)") (force simp: db_call_run)
qed

lemma detect_keeps:
  assumes "select_keeps I (de_sql D)" and "\<forall>w. I w \<longrightarrow> I (snd (de_now D w))"
  shows "keeps (\<lambda>s. I (db_world s)) (analyze_user D user_id)"
    and "keeps (\<lambda>s. I (db_world s)) (detect_users D True users)"
proof -
  show a: "keeps (\<lambda>s. I (db_world s)) (analyze_user D user_id)" for user_id
    unfolding analyze_user_def Let_def
    by (intro keeps_intros clock_keeps query_keeps assms)
  have opt: "keeps P (case r of None \<Rightarrow> ret None | Some r \<Rightarrow> if True then ret None else m r)" for P r and m :: "_ \<Rightarrow> (_, int option) prog"
    by (auto simp: keeps_intros split: option.split)
  show "keeps (\<lambda>s. I (db_world s)) (detect_users D True users)"
  proof (induction users)
    case (Cons user_id users)
    show ?case unfolding detect_users.simps by (intro keeps_intros a opt Cons.IH)
  qed (simp add: keeps_intros)
qed

lemma detect_returns [total_intros]:
  "comes_back (\<lambda>_. True) (analyze_user D user_id)"
  "comes_back (\<lambda>_. True) (detect_users D dry_run users)"
  "comes_back (\<lambda>_. True) (detect_main D user dry_run)"
proof -
  show a: "comes_back (\<lambda>_. True) (analyze_user D user_id)" for user_id
    unfolding analyze_user_def Let_def by (intro total_intros keeps_True)
  show u: "comes_back (\<lambda>_. True) (detect_users D dry_run users)" for users
  proof (induction users)
    case (Cons user_id users)
    show ?case unfolding detect_users.simps by (intro total_intros keeps_True a Cons.IH)
  qed (simp add: total_intros)
  show "comes_back (\<lambda>_. True) (detect_main D user dry_run)"
    unfolding detect_main_def by (intro total_intros keeps_True u)
qed

text \<open>
  Every run of \<open>main\<close> comes back, and if the database could be opened then the connection is
  closed at the end, however the run ends.
\<close>

theorem detect_main_closes:
  assumes "get_connection (de_sql D) s = Some (Inr (), t)"
  shows "\<exists>r s'. detect_main D user dry_run s = Some (r, s') \<and> db_closed s'"
proof -
  obtain r s' where run: "detect_main D user dry_run s = Some (r, s')"
    using comes_backD [OF detect_returns(3)] by blast
  then have "db_closed s'"
    unfolding detect_main_def bindP_run [of "get_connection _"] assms
    by (simp only: option.case prod.case sum.case finally_closes)
  then show ?thesis using run by blast
qed

theorem detect_main_closes_witness:
  "\<exists>r s'. detect_main (bob_env (lit ''1'')) [] False \<lparr>db_closed = True, db_world = ()\<rparr> = Some (r, s') \<and> db_closed s'"
proof (rule detect_main_closes)
  have "parse_rows (lit ''1'') \<noteq> []" by code_simp
  then show "get_connection (de_sql (bob_env (lit ''1''))) \<lparr>db_closed = True, db_world = ()\<rparr> =
      Some (Inr (), \<lparr>db_closed = False, db_world = ()\<rparr>)"
    by (simp add: get_connection_def bob_env_def execute_def bound_sql_def db_run_def run_simps del: lit_Cons)
qed

text \<open>
  C26. A dry run only reads: what every \<open>SELECT\<close> statement and the clock leave true of the world is
  still true after \<open>main --dry-run\<close>, whatever the users, the rows and the outcome.
\<close>

theorem dry_run_only_selects:
  assumes "select_keeps I (de_sql D)" and "\<forall>w. I w \<longrightarrow> I (snd (de_now D w))"
    and "I (db_world s)" and "detect_main D user True s = Some (r, s')"
  shows "I (db_world s')"
proof -
  have "keeps (\<lambda>s. I (db_world s)) (detect_main D user True)"
    unfolding detect_main_def by (intro keeps_intros query_keeps detect_keeps close_keeps assms(1,2))
  then show ?thesis using assms(3,4) by (auto dest: keepsD)
qed

lemma shell_input_split:
  "\<exists>h. \<forall>sql. shell_input pw sql = h @ rstrip_by (\<lambda>c. c = 59) sql @ lit '';'' @ newline"
  unfolding shell_input_def by (rule exI, rule allI, (subst append_assoc [symmetric])+, rule refl)

text \<open>A shell that notes whether it was ever given another statement than a \<open>SELECT\<close>.\<close>

definition noting_env :: "pystr \<Rightarrow> bool detect_env" where
  "noting_env out = \<lparr>de_sql = \<lparr>sq_password = Some [], sq_path = [],
       sq_call = (\<lambda>argv input w. (Inr (0, out, []),
         w \<and> take 6 (drop (length (shell_input (Some []) []) - 2) input) = lit ''SELECT'')), fl_str = (\<lambda>t. [48])\<rparr>,
     de_now = (\<lambda>w. (100000, w)), de_window = 30, de_threshold = 5 / 2, de_repr = (\<lambda>x. [48])\<rparr>"

theorem dry_run_only_selects_witness:
  defines "D \<equiv> noting_env (shell_output (map bob_text (replicate 6 bob_row)))"
    and "s \<equiv> \<lparr>db_closed = True, db_world = True\<rparr>"
  shows "\<exists>r s'. detect_main D [] True s = Some (r, s') \<and> db_world s'"
proof -
  have "take 6 (drop (length (shell_input (Some []) []) - 2) (shell_input (Some []) sql)) = lit ''SELECT''"
    if "take 6 sql = lit ''SELECT''" for sql
  proof -
    obtain h where h: "\<And>sql. shell_input (Some []) sql = h @ rstrip_by (\<lambda>c. c = 59) sql @ lit '';'' @ newline"
      using shell_input_split by blast
    define rest where "rest = drop 6 sql"
    have sql: "sql = lit ''SELECT'' @ rest"
      using append_take_drop_id [of 6 sql] unfolding that rest_def by (rule sym)
    have "rstrip_by (\<lambda>c. c = 59) sql = lit ''SELECT'' @ rstrip_by (\<lambda>c. c = 59) rest"
    proof (cases "\<forall>x \<in> set rest. x = 59")
      case True
      then have e: "dropWhile (\<lambda>c. c = 59) (rev rest) = []" by simp
      show ?thesis using True unfolding sql rstrip_by_def rev_append e
        by (subst dropWhile_append2) auto
    next
      case False
      then show ?thesis unfolding sql by (auto simp: rstrip_by_def dropWhile_append1 simp del: lit_Cons)
    qed
    then show ?thesis unfolding h by (simp add: newline_def rstrip_by_def)
  qed
  then have "select_keeps (\<lambda>w. w) (de_sql D)"
    by (simp add: select_keeps_def D_def noting_env_def del: lit_Cons)
  moreover have "\<forall>w. w \<longrightarrow> snd (de_now D w)" by (simp add: D_def noting_env_def)
  moreover obtain r s' where "detect_main D [] True s = Some (r, s')"
    using comes_backD [OF detect_returns(3)] by blast
  ultimately show ?thesis
    using dry_run_only_selects [where I = "\<lambda>w. w" and D = D and s = s] by (auto simp: s_def)
qed

end
