(* ===== verification/Volume.thy ===== *)
theory Volume
  imports DbAccess
begin

text \<open>
  The encrypted volumes of \<open>src/ai/command_analysis.py\<close>: \<open>mount_volume\<close>, \<open>unmount_volume\<close> and
  \<open>read_shell_history\<close>. The operating system, the programs that are run (\<open>losetup\<close>, \<open>cryptsetup\<close>,
  \<open>mount\<close>, \<open>umount\<close>) and the model's server are the record \<open>os_env\<close>, which acts on the outside world
  of the database connection; each of its calls can raise. The descriptor of the key file is
  identified with its path, and \<open>os.write\<close> and \<open>os.close\<close> of it are one call.
\<close>

record 'w os_env =
  os_sql :: "'w sql_env"
  os_homes :: pystr
  os_exists :: "pystr \<Rightarrow> 'w \<Rightarrow> bool"
  os_ismount :: "pystr \<Rightarrow> 'w \<Rightarrow> bool"
  os_isdir :: "pystr \<Rightarrow> 'w \<Rightarrow> bool"
  os_mkstemp :: "'w \<Rightarrow> (exn + pystr) \<times> 'w"
  os_write_key :: "pystr \<Rightarrow> bytes \<Rightarrow> 'w \<Rightarrow> (exn + unit) \<times> 'w"
  os_unlink :: "pystr \<Rightarrow> 'w \<Rightarrow> (exn + unit) \<times> 'w"
  os_makedirs :: "pystr \<Rightarrow> 'w \<Rightarrow> (exn + unit) \<times> 'w"
  os_run :: "pystr list \<Rightarrow> 'w \<Rightarrow> (exn + int \<times> pystr) \<times> 'w"
  os_read_text :: "pystr \<Rightarrow> 'w \<Rightarrow> (exn + pystr) \<times> 'w"

definition world_is :: "('w \<Rightarrow> bool) \<Rightarrow> ('w db, bool) prog" where
  "world_is p = reads (\<lambda>s. p (db_world s))"

text \<open>\<open>os.path.join(a, b)\<close>\<close>

definition path_join :: "pystr \<Rightarrow> pystr \<Rightarrow> pystr" where
  "path_join a b =
     (if b \<noteq> [] \<and> hd b = 47 then b
      else if a = [] \<or> last a = 47 then a @ b
      else a @ [47] @ b)"

subsection \<open>The shell histories\<close>

definition history_names :: "pystr list" where
  "history_names = [lit ''.ash_history'', lit ''.bash_history'', lit ''.zsh_history'']"

definition history_files :: "pystr \<Rightarrow> pyval \<Rightarrow> exn + pystr list" where
  "history_files mount_point user_id = (case user_id of
      VStr u \<Rightarrow> Inr (map (path_join (path_join mount_point u)) history_names)
    | _ \<Rightarrow> Inl TypeError)"

fun read_lines :: "'w os_env \<Rightarrow> pystr list \<Rightarrow> ('w db, pystr list) prog" where
  "read_lines E [] = ret []"
| "read_lines E (path # paths) =
     bindP (world_is (os_exists E path)) (\<lambda>found.
     bindP (if found then bindP (db_call (os_read_text E path)) (\<lambda>text. ret (splitlines text)) else ret []) (\<lambda>lines.
     bindP (read_lines E paths) (\<lambda>more. ret (lines @ more))))"

definition read_shell_history :: "'w os_env \<Rightarrow> pystr \<Rightarrow> pyval \<Rightarrow> ('w db, pystr list) prog" where
  "read_shell_history E mount_point user_id =
     bindP (lift_exn (history_files mount_point user_id)) (read_lines E)"

subsection \<open>Mounting\<close>

definition img_path :: "'w os_env \<Rightarrow> pyval \<Rightarrow> pystr" where
  "img_path E container_id = path_join (os_homes E) (str_val (os_sql E) container_id @ lit ''.img'')"

definition mapper_name :: "'w os_env \<Rightarrow> pyval \<Rightarrow> pystr" where
  "mapper_name E container_id = lit ''somethingremotelygood_'' @ str_val (os_sql E) container_id"

definition mount_point_of :: "'w os_env \<Rightarrow> pyval \<Rightarrow> pystr" where
  "mount_point_of E container_id = path_join (os_homes E) (str_val (os_sql E) container_id @ lit ''_mnt'')"

definition losetup_attach :: "pystr \<Rightarrow> pystr list" where
  "losetup_attach img = [lit ''losetup'', lit ''--find'', lit ''--show'', img]"

definition losetup_detach :: "pystr \<Rightarrow> pystr list" where
  "losetup_detach dev = [lit ''losetup'', lit ''-d'', dev]"

definition losetup_list :: "pystr \<Rightarrow> pystr list" where
  "losetup_list img = [lit ''losetup'', lit ''-j'', img]"

definition cryptsetup_open :: "pystr \<Rightarrow> pystr \<Rightarrow> pystr \<Rightarrow> pystr list" where
  "cryptsetup_open key_path dev mapper = [lit ''cryptsetup'', lit ''open'', lit ''--type'', lit ''luks'',
     lit ''--key-file'', key_path, dev, mapper]"

definition cryptsetup_close :: "pystr \<Rightarrow> pystr list" where
  "cryptsetup_close mapper = [lit ''cryptsetup'', lit ''close'', mapper]"

definition mount_cmd :: "pystr \<Rightarrow> pystr \<Rightarrow> pystr list" where
  "mount_cmd mapper mnt = [lit ''mount'', lit ''/dev/mapper/'' @ mapper, mnt]"

definition umount_cmd :: "pystr \<Rightarrow> pystr list" where
  "umount_cmd mnt = [lit ''umount'', mnt]"

text \<open>The body of the \<open>try\<close>.\<close>

definition open_volume :: "'w os_env \<Rightarrow> pyval \<Rightarrow> bytes \<Rightarrow> pystr \<Rightarrow> ('w db, pystr option) prog" where
  "open_volume E container_id container_key key_path =
     (let img = img_path E container_id;
          mapper = mapper_name E container_id;
          mnt = mount_point_of E container_id in
      bindP (db_call (os_write_key E key_path container_key)) (\<lambda>_.
      bindP (db_call (os_run E (losetup_attach img))) (\<lambda>(returncode, stdout).
      if returncode \<noteq> 0 then ret None
      else
        let loop_dev = strip stdout in
        bindP (db_call (os_run E (cryptsetup_open key_path loop_dev mapper))) (\<lambda>(returncode, _).
        if returncode \<noteq> 0 then
          bindP (db_call (os_run E (losetup_detach loop_dev))) (\<lambda>_. ret None)
        else
          bindP (db_call (os_makedirs E mnt)) (\<lambda>_.
          bindP (db_call (os_run E (mount_cmd mapper mnt))) (\<lambda>(returncode, _).
          if returncode \<noteq> 0 then
            bindP (db_call (os_run E (cryptsetup_close mapper))) (\<lambda>_.
            bindP (db_call (os_run E (losetup_detach loop_dev))) (\<lambda>_.
            ret None))
          else ret (Some mnt)))))))"

definition mount_volume :: "'w os_env \<Rightarrow> pyval \<Rightarrow> bytes \<Rightarrow> ('w db, pystr option) prog" where
  "mount_volume E container_id container_key =
     bindP (world_is (os_exists E (img_path E container_id))) (\<lambda>found.
     if \<not> found then ret None
     else
       bindP (world_is (os_ismount E (mount_point_of E container_id))) (\<lambda>mounted.
       if mounted then ret (Some (mount_point_of E container_id))
       else
         bindP (db_call (os_mkstemp E)) (\<lambda>key_path.
         finallyP (open_volume E container_id container_key key_path) (db_call (os_unlink E key_path)))))"

definition unmount_volume :: "'w os_env \<Rightarrow> pyval \<Rightarrow> ('w db, unit) prog" where
  "unmount_volume E container_id =
     bindP (db_call (os_run E (umount_cmd (mount_point_of E container_id)))) (\<lambda>_.
     bindP (db_call (os_run E (cryptsetup_close (mapper_name E container_id)))) (\<lambda>_.
     bindP (db_call (os_run E (losetup_list (img_path E container_id)))) (\<lambda>(_, stdout).
     if stdout \<noteq> [] then
       bindP (db_call (os_run E (losetup_detach (hd (split_str [58] stdout))))) (\<lambda>_. ret ())
     else ret ())))"

end
