(* ===== verification/LlmResponse.thy ===== *)
theory LlmResponse
  imports JsonText Sanitizer
begin

text \<open>
  \<open>validate_llm_response\<close> of \<open>src/ai/sanitizer.py\<close>: the model's answer is parsed as JSON, whole or
  from its first brace to its last, and checked against the expected fields.
\<close>

definition required_keys :: "pystr list" where
  "required_keys = [lit ''risk_level'', lit ''summary'', lit ''findings'', lit ''recommendation'']"

definition valid_risk :: "pystr list" where
  "valid_risk = [lit ''benign'', lit ''suspicious'', lit ''malicious'']"

text \<open>\<open>v in {...}\<close> for a set of strings: a list or an object has no hash.\<close>

definition in_text_set :: "json \<Rightarrow> pystr list \<Rightarrow> exn + bool" where
  "in_text_set v texts = (case v of
      JStr s \<Rightarrow> Inr (s \<in> set texts)
    | JList _ \<Rightarrow> Inl TypeError
    | JDict _ \<Rightarrow> Inl TypeError
    | _ \<Rightarrow> Inr False)"

definition brace_span :: rx where
  "brace_span = seq [Cls (Ch 123), Star Any, Cls (Ch 125)]"

text \<open>The parse: \<open>None\<close> where the function returns \<open>None\<close> before it looks at the fields.\<close>

definition response_data :: "pystr \<Rightarrow> exn + json option" where
  "response_data response_text =
     (case json_loads response_text of
        Inr data \<Rightarrow> Inr (Some data)
      | Inl JSONDecodeError \<Rightarrow>
          (case search_group brace_span response_text of
             None \<Rightarrow> Inr None
           | Some span \<Rightarrow> (case json_loads span of
               Inr data \<Rightarrow> Inr (Some data)
             | Inl JSONDecodeError \<Rightarrow> Inr None
             | Inl e \<Rightarrow> Inl e))
      | Inl e \<Rightarrow> Inl e)"

definition check_fields :: "json \<Rightarrow> exn + json option" where
  "check_fields data = (case data of
      JDict kvs \<Rightarrow>
        if \<not> (\<forall>k \<in> set required_keys. k \<in> fst ` set kvs) then Inr None
        else bindE (in_text_set (the (map_of kvs (lit ''risk_level''))) valid_risk) (\<lambda>ok.
          if \<not> ok then Inr None
          else (case the (map_of kvs (lit ''findings'')) of
              JList _ \<Rightarrow> Inr (Some data)
            | _ \<Rightarrow> Inr None))
    | _ \<Rightarrow> Inl AttributeError)"

definition validate_llm_response :: "pystr \<Rightarrow> exn + json option" where
  "validate_llm_response response_text =
     bindE (response_data response_text) (\<lambda>found. case found of
         None \<Rightarrow> Inr None
       | Some data \<Rightarrow> check_fields data)"

subsection \<open>What the check lets through\<close>

text \<open>\<open>expected_answer d\<close>: the schema of the prompt, as far as the function looks at it.\<close>

definition expected_answer :: "json \<Rightarrow> bool" where
  "expected_answer d \<longleftrightarrow> (\<exists>kvs r fs. d = JDict kvs \<and>
     map_of kvs (lit ''risk_level'') = Some (JStr r) \<and> r \<in> set valid_risk \<and>
     map_of kvs (lit ''findings'') = Some (JList fs) \<and>
     map_of kvs (lit ''summary'') \<noteq> None \<and> map_of kvs (lit ''recommendation'') \<noteq> None)"

lemma key_found: "k \<in> fst ` set kvs \<Longrightarrow> map_of kvs k \<noteq> None"
  by (simp add: map_of_eq_None_iff)

lemma key_missing: "map_of kvs k = None \<longleftrightarrow> k \<notin> fst ` set kvs"
  by (simp add: map_of_eq_None_iff)

lemma check_fields_Some: "check_fields data = Inr (Some d) \<longleftrightarrow> d = data \<and> expected_answer data"
proof (cases data)
  case (JDict kvs)
  let ?get = "map_of kvs"
  show ?thesis
  proof (cases "\<forall>k \<in> set required_keys. k \<in> fst ` set kvs")
    case True
    then obtain r f where "?get (lit ''risk_level'') = Some r" "?get (lit ''findings'') = Some f"
      "?get (lit ''summary'') \<noteq> None" "?get (lit ''recommendation'') \<noteq> None"
      using key_found [of _ kvs] unfolding required_keys_def by (metis list.set_intros option.exhaust)
    with True JDict show ?thesis
      by (cases r; cases f) (auto simp: check_fields_def expected_answer_def in_text_set_def simp del: lit_Cons)
  next
    case False
    then have "\<not> expected_answer data"
      using JDict by (auto simp: expected_answer_def required_keys_def key_missing simp del: lit_Cons
          dest: key_missing [THEN iffD2])
    with False JDict show ?thesis by (simp add: check_fields_def)
  qed
qed (auto simp: check_fields_def expected_answer_def)

subsection \<open>The span of the braces\<close>

lemma brace_span_lang: "p \<in> lang brace_span \<longleftrightarrow> (\<exists>b. p = 123 # b @ [125])"
  by (auto simp: brace_span_def seq_def)

definition closes :: "pystr \<Rightarrow> pystr list" where
  "closes s = (case s of [] \<Rightarrow> [] | x # xs \<Rightarrow> if x = 125 then [xs] else [])"

lemma closes_simps [simp]:
  "closes [] = []" "closes (x # xs) = (if x = 125 then [xs] else [])"
  by (simp_all add: closes_def)

lemma closes_rests: "rests (Cat (Cls (Ch 125)) Eps) = closes"
  by (auto simp: closes_def fun_eq_iff split: list.split)

lemma closes_none: "125 \<notin> set s \<Longrightarrow> concat (map closes (star_rests Any s)) = []"
  by (induction s) auto

lemma closes_last:
  assumes "125 \<notin> set post"
  shows "\<exists>more. concat (map closes (star_rests Any (b @ 125 # post))) = post # more"
proof (induction b)
  case Nil
  show ?case using closes_none [OF assms] by (simp del: concat_eq_Nil_conv)
qed auto

lemma brace_rests:
  "rests brace_span (c # s) = (if c = 123 then concat (map closes (star_rests Any s)) else [])"
  by (simp add: brace_span_def seq_def closes_rests del: rests.simps(2) cong: if_cong)
    (simp add: closes_rests)

text \<open>The greedy match goes from the first opening brace to the last closing one.\<close>

lemma brace_span_found:
  assumes "123 \<notin> set pre" and "125 \<notin> set post"
  shows "search_group brace_span (pre @ 123 # b @ 125 # post) = Some (123 # b @ [125])"
  using assms(1)
proof (induction pre)
  case Nil
  obtain more where "rests brace_span (123 # b @ 125 # post) = post # more"
    using closes_last [OF assms(2), of b] by (auto simp: brace_rests)
  then show ?case by (simp del: rests.simps)
next
  case (Cons c pre)
  then show ?case by (simp add: brace_rests del: rests.simps)
qed

subsection \<open>Properties\<close>

lemma response_data_origin:
  assumes "response_data t = Inr (Some d)"
  shows "json_loads t = Inr d \<or> (\<exists>a b c. t = a @ (123 # b @ [125]) @ c \<and> json_loads (123 # b @ [125]) = Inr d)"
proof (cases "json_loads t")
  case (Inl e)
  then have "json_loads t = Inl JSONDecodeError" using json_loads_error by simp
  with assms obtain p where p: "search_group brace_span t = Some p" "json_loads p = Inr d"
    by (auto simp: response_data_def split: option.splits sum.splits exn.splits)
  obtain a b c where "t = a @ p @ c" "p = 123 # b @ [125]"
    using search_group_infix [OF p(1)] by (auto simp: brace_span_lang)
  with p(2) show ?thesis by blast
qed (use assms in \<open>simp add: response_data_def\<close>)

text \<open>
  C11. What the check accepts has the fields of the prompt's schema: an object with one of the three
  risk levels as its level, a list of findings, a summary and a recommendation; and it is the
  value of the whole response or of a part of it between two braces.
\<close>

theorem accepted_answer_has_the_schema:
  assumes "validate_llm_response t = Inr (Some d)"
  shows "expected_answer d \<and> (json_loads t = Inr d \<or>
    (\<exists>a b c. t = a @ (123 # b @ [125]) @ c \<and> json_loads (123 # b @ [125]) = Inr d))"
proof -
  obtain v where "response_data t = Inr (Some v)" "check_fields v = Inr (Some d)"
    using assms by (auto simp: validate_llm_response_def bindE_Inr_iff split: option.splits)
  then show ?thesis
    using response_data_origin [of t v] check_fields_Some [of v d] by auto
qed

definition sample_answer :: json where
  "sample_answer = JDict [(lit ''risk_level'', JStr (lit ''benign'')), (lit ''summary'', JStr []),
     (lit ''findings'', JList []), (lit ''recommendation'', JNull)]"

theorem accepted_answer_has_the_schema_witness:
  "expected_answer sample_answer \<and> (json_loads (json_dumps sample_answer) = Inr sample_answer \<or>
    (\<exists>a b c. json_dumps sample_answer = a @ (123 # b @ [125]) @ c \<and>
      json_loads (123 # b @ [125]) = Inr sample_answer))"
  by (rule accepted_answer_has_the_schema) code_simp

lemma json_dumps_object: "\<exists>b. json_dumps (JDict kvs) = 123 # b @ [125]"
  by (simp add: json_dumps_def)

lemma loads_fails_at:
  assumes "c \<notin> {34, 45, 91, 123, 110, 116, 102, 78, 73}" and "\<not> is_digit c" and "\<not> json_ws c"
  shows "json_loads (c # s) = Inl JSONDecodeError"
proof -
  have "scan_number (c # s) = None" using assms by (simp add: scan_number_start)
  moreover have "json_word (c # s) = None" using assms by (auto simp: json_word_def)
  ultimately show ?thesis
    using assms by (simp add: json_loads_def skip_ws_id lift_scan_def)
qed

text \<open>
  C18. An answer in the expected form is found inside chatter, such as a Markdown fence: if the
  response is the answer's JSON with text around it that does not begin like a JSON value, has no
  opening brace before the answer and no closing brace after it, then exactly the answer is returned.
\<close>

theorem answer_is_found_in_chatter:
  assumes "json_ok d" and "expected_answer d"
    and "123 \<notin> set (c # pre)" and "125 \<notin> set post"
    and "c \<notin> {34, 45, 91, 110, 116, 102, 78, 73}" and "\<not> is_digit c" and "\<not> json_ws c"
  shows "validate_llm_response ((c # pre) @ json_dumps d @ post) = Inr (Some d)"
proof -
  obtain kvs where "d = JDict kvs" using assms(2) by (auto simp: expected_answer_def)
  then obtain b where b: "json_dumps d = 123 # b @ [125]" using json_dumps_object by blast
  have "json_loads ((c # pre) @ json_dumps d @ post) = Inl JSONDecodeError"
    using loads_fails_at [of c] assms(3,5-7) by simp
  moreover have "search_group brace_span ((c # pre) @ json_dumps d @ post) = Some (json_dumps d)"
    using brace_span_found [OF assms(3,4), of b] b by simp
  moreover have "json_loads (json_dumps d) = Inr d" using assms(1) by (rule json_round_trip)
  ultimately have "response_data ((c # pre) @ json_dumps d @ post) = Inr (Some d)"
    by (simp add: response_data_def)
  then show ?thesis
    using assms(2) by (simp add: validate_llm_response_def check_fields_Some)
qed

theorem answer_is_found_in_chatter_witness:
  "validate_llm_response (lit ''Here: '' @ json_dumps sample_answer @ lit ''.'') = Inr (Some sample_answer)"
proof -
  have "json_ok sample_answer" by code_simp
  moreover have "expected_answer sample_answer"
    by (simp add: sample_answer_def expected_answer_def valid_risk_def)
  ultimately show ?thesis
    using answer_is_found_in_chatter [of sample_answer 72 "lit ''ere: ''" "lit ''.''"]
    by (simp add: is_digit_def json_ws_def)
qed


end
