(* ===== verification/CommandAnalysis.thy ===== *)
theory CommandAnalysis
  imports Volume LlmResponse
begin

text \<open>
  \<open>src/ai/command_analysis.py\<close>: an anomaly report is followed up by reading the shell histories of the
  user's containers, asking a language model about them and storing its answer, in the database and
  as a JSON file. The model's server, the clock and the file that is written are the record
  \<open>analysis_env\<close>; \<open>ae_set\<close> is the order of \<open>list(set(...))\<close>. What is printed is left out.
\<close>

record 'w analysis_env =
  ae_os :: "'w os_env"
  ae_model :: pystr
  ae_requests :: bool
  ae_post :: "json \<Rightarrow> 'w \<Rightarrow> (exn + json) \<times> 'w"
  ae_now :: "'w \<Rightarrow> (pystr \<times> pystr) \<times> 'w"
  ae_write_text :: "pystr \<Rightarrow> pystr \<Rightarrow> 'w \<Rightarrow> (exn + unit) \<times> 'w"
  ae_set :: "pyval list \<Rightarrow> pyval list"
  ae_float :: "pystr \<Rightarrow> pystr"

abbreviation (input) ae_sql :: "'w analysis_env \<Rightarrow> 'w sql_env" where
  "ae_sql E \<equiv> os_sql (ae_os E)"

abbreviation (input) ae_str :: "'w analysis_env \<Rightarrow> pyval \<Rightarrow> pystr" where
  "ae_str E \<equiv> str_val (ae_sql E)"

definition REPORTS_DIR :: pystr where
  "REPORTS_DIR = lit ''./reports''"

subsection \<open>Values\<close>

definition row_get :: "row \<Rightarrow> pystr \<Rightarrow> pystr \<Rightarrow> pyval" where
  "row_get r k d = (case map_of r k of None \<Rightarrow> VStr d | Some v \<Rightarrow> v)"

definition json_of_val :: "'w analysis_env \<Rightarrow> pyval \<Rightarrow> exn + json" where
  "json_of_val E v = (case v of
      VNone \<Rightarrow> Inr JNull | VInt i \<Rightarrow> Inr (JInt i) | VFloat t \<Rightarrow> Inr (JFloat (ae_float E t))
    | VStr s \<Rightarrow> Inr (JStr s) | VBytes b \<Rightarrow> Inl TypeError)"

text \<open>\<open>json.loads\<close> of a field of a row\<close>

definition loads_val :: "pyval \<Rightarrow> exn + json" where
  "loads_val v = (case v of VStr s \<Rightarrow> json_loads s | _ \<Rightarrow> Inl TypeError)"

definition json_item :: "json \<Rightarrow> pystr \<Rightarrow> exn + json" where
  "json_item v k = (case v of
      JDict kvs \<Rightarrow> (case map_of kvs k of None \<Rightarrow> Inl KeyError | Some x \<Rightarrow> Inr x)
    | _ \<Rightarrow> Inl TypeError)"

subsection \<open>The language model\<close>

definition llm_body :: "'w analysis_env \<Rightarrow> pystr \<Rightarrow> json" where
  "llm_body E prompt = JDict
     [(lit ''model'', JStr (ae_model E)),
      (lit ''messages'', JList [JDict [(lit ''role'', JStr (lit ''user'')), (lit ''content'', JStr prompt)]]),
      (lit ''stream'', JBool False)]"

definition call_llm :: "'w analysis_env \<Rightarrow> pystr \<Rightarrow> ('w db, json) prog" where
  "call_llm E prompt =
     (if \<not> ae_requests E then raise (SystemExit 1)
      else bindP (db_call (ae_post E (llm_body E prompt))) (\<lambda>data.
        lift_exn (bindE (json_item data (lit ''message'')) (\<lambda>message. json_item message (lit ''content'')))))"

definition failed_result :: "pystr \<Rightarrow> json" where
  "failed_result response = JDict
     [(lit ''risk_level'', JStr (lit ''suspicious'')),
      (lit ''summary'', JStr (lit ''LLM response failed schema validation'')),
      (lit ''findings'', JList []),
      (lit ''recommendation'', JStr (lit ''Manual review required'')),
      (lit ''raw_response'', JStr (take 500 response))]"

definition final_result :: "json \<Rightarrow> exn + json" where
  "final_result response = (case response of
      JStr text \<Rightarrow> bindE (validate_llm_response text) (\<lambda>result.
        Inr (case result of None \<Rightarrow> failed_result text | Some d \<Rightarrow> d))
    | _ \<Rightarrow> Inl TypeError)"

definition risk_of :: "json \<Rightarrow> exn + pystr" where
  "risk_of result = bindE (json_item result (lit ''risk_level'')) (\<lambda>v.
     case v of JStr s \<Rightarrow> Inr s | _ \<Rightarrow> Inl TypeError)"

subsection \<open>The report file\<close>

definition report_json ::
  "'w analysis_env \<Rightarrow> pystr \<Rightarrow> int \<Rightarrow> row \<Rightarrow> pyval \<Rightarrow> pyval \<Rightarrow> json \<Rightarrow> pystr list \<Rightarrow> exn + json" where
  "report_json E generated_at anomaly_id anomaly_report user_id container_id analysis_result commands =
     bindE (loads_val (row_get anomaly_report (lit ''details_json'') (lit ''[]''))) (\<lambda>details.
     bindE (json_of_val E user_id) (\<lambda>user.
     bindE (json_of_val E container_id) (\<lambda>container.
     bindE (json_of_val E (row_get anomaly_report (lit ''anomaly_type'') (lit ''unknown''))) (\<lambda>ty.
     bindE (json_of_val E (row_get anomaly_report (lit ''severity'') (lit ''unknown''))) (\<lambda>severity.
     bindE (json_of_val E (row_get anomaly_report (lit ''summary'') [])) (\<lambda>summary.
     Inr (JDict
       [(lit ''report_metadata'', JDict
           [(lit ''generated_at'', JStr generated_at),
            (lit ''anomaly_report_id'', JInt anomaly_id),
            (lit ''model'', JStr (ae_model E))]),
        (lit ''user'', JDict [(lit ''user_id'', user), (lit ''container_id'', container)]),
        (lit ''anomaly'', JDict
           [(lit ''type'', ty), (lit ''severity'', severity), (lit ''summary'', summary), (lit ''details'', details)]),
        (lit ''command_analysis'', analysis_result),
        (lit ''commands_analyzed'', JInt (int (length commands))),
        (lit ''command_history'', JList (map JStr commands))])))))))"

definition report_name :: "'w analysis_env \<Rightarrow> int \<Rightarrow> pyval \<Rightarrow> pystr \<Rightarrow> pystr" where
  "report_name E anomaly_id user_id stamp =
     lit ''report_anomaly'' @ dec_int anomaly_id @ lit ''_'' @ ae_str E user_id @ lit ''_'' @ stamp @ lit ''.json''"

definition save_json_report ::
  "'w analysis_env \<Rightarrow> int \<Rightarrow> row \<Rightarrow> pyval \<Rightarrow> pyval \<Rightarrow> json \<Rightarrow> pystr list \<Rightarrow> ('w db, pystr) prog" where
  "save_json_report E anomaly_id anomaly_report user_id container_id analysis_result commands =
     bindP (db_call (os_makedirs (ae_os E) REPORTS_DIR)) (\<lambda>_.
     bindP (db_call (\<lambda>w. case ae_now E w of (t, w') \<Rightarrow> (Inr t, w'))) (\<lambda>(isoformat, stamp).
     bindP (lift_exn (report_json E isoformat anomaly_id anomaly_report user_id container_id analysis_result commands))
       (\<lambda>report.
     let filepath = path_join REPORTS_DIR (report_name E anomaly_id user_id stamp) in
     bindP (db_call (ae_write_text E filepath (json_dump_indented report))) (\<lambda>_.
     ret filepath))))"

subsection \<open>The analysis\<close>

text \<open>The body of the inner \<open>try\<close>: \<open>None\<close> where there was nothing to analyse.\<close>

definition analyze_history ::
  "'w analysis_env \<Rightarrow> int \<Rightarrow> row \<Rightarrow> pyval \<Rightarrow> pyval \<Rightarrow> pystr \<Rightarrow> ('w db, pystr option) prog" where
  "analyze_history E anomaly_id report user_id container_id mount_point =
     bindP (read_shell_history (ae_os E) mount_point user_id) (\<lambda>commands.
     if commands = [] then ret None
     else case sanitize_commands commands of (formatted, filtered) \<Rightarrow>
       bindP (lift_exn (row_item report (lit ''summary''))) (\<lambda>summary.
       bindP (call_llm E (build_analysis_prompt formatted (ae_str E user_id) (ae_str E summary))) (\<lambda>response.
       bindP (lift_exn (final_result response)) (\<lambda>result.
       bindP (lift_exn (risk_of result)) (\<lambda>risk_level.
       bindP (insert_command_report (ae_sql E) False (VInt anomaly_id) user_id container_id
         (json_dumps result) risk_level) (\<lambda>db_report_id.
       bindP (save_json_report E anomaly_id report user_id container_id result filtered) (\<lambda>filepath.
       ret (Some filepath))))))))"

definition test_dir :: "'w analysis_env \<Rightarrow> pyval \<Rightarrow> pystr" where
  "test_dir E user_id = path_join (os_homes (ae_os E)) (lit ''test_'' @ ae_str E user_id)"

definition analyze_container ::
  "'w analysis_env \<Rightarrow> int \<Rightarrow> row \<Rightarrow> pyval \<Rightarrow> pyval \<Rightarrow> ('w db, pystr option) prog" where
  "analyze_container E anomaly_id report user_id container_id =
     bindP (get_container_key (ae_sql E) False user_id container_id) (\<lambda>container_key.
     if container_key = None \<or> container_key = Some [] then ret None
     else
       bindP (mount_volume (ae_os E) container_id (the container_key)) (\<lambda>mounted.
       bindP (if mounted \<noteq> None \<and> mounted \<noteq> Some [] then ret mounted
              else bindP (world_is (os_isdir (ae_os E) (test_dir E user_id))) (\<lambda>found.
                ret (if found then Some (test_dir E user_id) else None))) (\<lambda>place.
       case place of
         None \<Rightarrow> ret None
       | Some mount_point \<Rightarrow>
           finallyP (analyze_history E anomaly_id report user_id container_id mount_point)
             (if mounted \<noteq> None then unmount_volume (ae_os E) container_id else ret ()))))"

fun analyze_containers ::
  "'w analysis_env \<Rightarrow> int \<Rightarrow> row \<Rightarrow> pyval \<Rightarrow> pyval list \<Rightarrow> ('w db, pystr option list) prog" where
  "analyze_containers E anomaly_id report user_id [] = ret []"
| "analyze_containers E anomaly_id report user_id (c # cs) =
     bindP (analyze_container E anomaly_id report user_id c) (\<lambda>r.
     bindP (analyze_containers E anomaly_id report user_id cs) (\<lambda>rs. ret (r # rs)))"

fun connected_containers :: "row list \<Rightarrow> exn + pyval list" where
  "connected_containers [] = Inr []"
| "connected_containers (s # ss) =
     bindE (row_item s (lit ''container_id'')) (\<lambda>c.
     bindE (if truthy c then bindE (row_item s (lit ''event_type'')) (\<lambda>e. Inr (e = VStr (lit ''ssh_connected'')))
            else Inr False) (\<lambda>wanted.
     bindE (connected_containers ss) (\<lambda>cs. Inr (if wanted then c # cs else cs))))"

text \<open>The body of \<open>analyze_anomaly\<close> on an open connection.\<close>

definition analyze_report :: "'w analysis_env \<Rightarrow> int \<Rightarrow> ('w db, int) prog" where
  "analyze_report E anomaly_id =
     bindP (get_anomaly_report (ae_sql E) False (VInt anomaly_id)) (\<lambda>found.
     case found of
       None \<Rightarrow> ret 1
     | Some report \<Rightarrow>
         if report = [] then ret 1
         else
           bindP (lift_exn (row_item report (lit ''user_id''))) (\<lambda>user_id.
           bindP (lift_exn (row_item report (lit ''anomaly_type''))) (\<lambda>_.
           bindP (lift_exn (bindE (row_item report (lit ''details_json'')) loads_val)) (\<lambda>_.
           bindP (get_sessions (ae_sql E) False user_id None) (\<lambda>sessions.
           bindP (lift_exn (connected_containers sessions)) (\<lambda>cs.
           let container_ids = ae_set E cs in
           if container_ids = [] then ret 1
           else bindP (analyze_containers E anomaly_id report user_id container_ids) (\<lambda>_. ret 0)))))))"

definition analyze_anomaly :: "'w analysis_env \<Rightarrow> int \<Rightarrow> ('w db, int) prog" where
  "analyze_anomaly E anomaly_id =
     bindP (get_connection (ae_sql E)) (\<lambda>_. finallyP (analyze_report E anomaly_id) db_close)"

text \<open>\<open>list_reports\<close>: the lines that it prints\<close>

definition report_line :: "'w sql_env \<Rightarrow> pyval list \<Rightarrow> exn + pystr" where
  "report_line Q r =
     bindE (format_fields Q [(6, nth_field r 0), (8, nth_field r 1), (12, nth_field r 2), (12, nth_field r 3),
       (12, nth_field r 4), (20, nth_field r 5)]) (\<lambda>line.
     bindE (nth_field r 6) (\<lambda>analysis. Inr (line @ str_val Q analysis)))"

definition reports_header :: pystr where
  "reports_header = ljust 6 (lit ''ID'') @ lit '' '' @ ljust 8 (lit ''Anomaly'') @ lit '' '' @ ljust 12 (lit ''User'') @
     lit '' '' @ ljust 12 (lit ''Container'') @ lit '' '' @ ljust 12 (lit ''Risk'') @ lit '' '' @
     ljust 20 (lit ''Created'') @ lit '' Analysis''"

definition list_reports :: "'w analysis_env \<Rightarrow> ('w db, pystr list) prog" where
  "list_reports E =
     bindP (get_connection (ae_sql E)) (\<lambda>_.
     finallyP
       (bindP (execute (ae_sql E)
           (lit ''SELECT r.report_id, r.anomaly_report_id, r.user_id, r.container_id, '' @
            lit ''r.risk_level, datetime(r.created_at, '' @ [39] @ lit ''unixepoch'' @ [39] @ lit ''), '' @
            lit ''substr(r.analysis_text, 1, 100) '' @
            lit ''FROM command_reports r ORDER BY r.created_at DESC'') []) (\<lambda>rows.
        if rows = [] then ret [lit ''No command analysis reports.'']
        else bindP (lift_exn (each_line (report_line (ae_sql E)) rows)) (\<lambda>lines.
          ret (reports_header # replicate 100 45 # lines))))
       db_close)"

definition analysis_main :: "'w analysis_env \<Rightarrow> bool \<Rightarrow> int option \<Rightarrow> ('w db, unit) prog" where
  "analysis_main E list_them anomaly_id =
     (if list_them then bindP (list_reports E) (\<lambda>_. ret ())
      else if anomaly_id \<noteq> None \<and> anomaly_id \<noteq> Some 0 then
        bindP (analyze_anomaly E (the anomaly_id)) (\<lambda>code. raise (SystemExit code))
      else ret ())"

end
