(* ===== verification/VolumeProps.thy ===== *)
theory VolumeProps
  imports Volume
begin

text \<open>
  What mounting does to the volume: the device as a state machine of what the commands do to it,
  mounting is all or nothing, unmounting closes what mounting opened, and the key file is always
  removed.
\<close>

subsection \<open>The volume as a state machine\<close>

text \<open>The volume of one container: attached to a loop device, opened by \<open>cryptsetup\<close>, mounted.\<close>

record disk =
  dk_loop :: bool
  dk_open :: bool
  dk_mounted :: bool

definition closed_disk :: disk where
  "closed_disk = \<lparr>dk_loop = False, dk_open = False, dk_mounted = False\<rparr>"

definition mounted_disk :: disk where
  "mounted_disk = \<lparr>dk_loop = True, dk_open = True, dk_mounted = True\<rparr>"

lemmas command_defs = losetup_attach_def losetup_detach_def losetup_list_def cryptsetup_open_def
  cryptsetup_close_def mount_cmd_def umount_cmd_def

lemma commands_differ [simp]:
  "losetup_attach i \<noteq> losetup_detach e'" "losetup_attach i \<noteq> losetup_list j'"
  "losetup_attach i \<noteq> cryptsetup_open k' e1' m1'" "losetup_attach i \<noteq> cryptsetup_close m'"
  "losetup_attach i \<noteq> mount_cmd m2' p2'" "losetup_attach i \<noteq> umount_cmd p'"
  "losetup_detach e \<noteq> losetup_attach i'" "losetup_detach e \<noteq> losetup_list j'"
  "losetup_detach e \<noteq> cryptsetup_open k' e1' m1'" "losetup_detach e \<noteq> cryptsetup_close m'"
  "losetup_detach e \<noteq> mount_cmd m2' p2'" "losetup_detach e \<noteq> umount_cmd p'"
  "losetup_list j \<noteq> losetup_attach i'" "losetup_list j \<noteq> losetup_detach e'"
  "losetup_list j \<noteq> cryptsetup_open k' e1' m1'" "losetup_list j \<noteq> cryptsetup_close m'"
  "losetup_list j \<noteq> mount_cmd m2' p2'" "losetup_list j \<noteq> umount_cmd p'"
  "cryptsetup_open k e1 m1 \<noteq> losetup_attach i'" "cryptsetup_open k e1 m1 \<noteq> losetup_detach e'"
  "cryptsetup_open k e1 m1 \<noteq> losetup_list j'" "cryptsetup_open k e1 m1 \<noteq> cryptsetup_close m'"
  "cryptsetup_open k e1 m1 \<noteq> mount_cmd m2' p2'" "cryptsetup_open k e1 m1 \<noteq> umount_cmd p'"
  "cryptsetup_close m \<noteq> losetup_attach i'" "cryptsetup_close m \<noteq> losetup_detach e'"
  "cryptsetup_close m \<noteq> losetup_list j'" "cryptsetup_close m \<noteq> cryptsetup_open k' e1' m1'"
  "cryptsetup_close m \<noteq> mount_cmd m2' p2'" "cryptsetup_close m \<noteq> umount_cmd p'"
  "mount_cmd m2 p2 \<noteq> losetup_attach i'" "mount_cmd m2 p2 \<noteq> losetup_detach e'"
  "mount_cmd m2 p2 \<noteq> losetup_list j'" "mount_cmd m2 p2 \<noteq> cryptsetup_open k' e1' m1'"
  "mount_cmd m2 p2 \<noteq> cryptsetup_close m'" "mount_cmd m2 p2 \<noteq> umount_cmd p'"
  "umount_cmd p \<noteq> losetup_attach i'" "umount_cmd p \<noteq> losetup_detach e'"
  "umount_cmd p \<noteq> losetup_list j'" "umount_cmd p \<noteq> cryptsetup_open k' e1' m1'"
  "umount_cmd p \<noteq> cryptsetup_close m'" "umount_cmd p \<noteq> mount_cmd m2' p2'"
  by (simp_all add: command_defs)

lemma commands_inject [simp]:
  "losetup_attach i = losetup_attach i' \<longleftrightarrow> i = i'"
  "losetup_detach e = losetup_detach e' \<longleftrightarrow> e = e'"
  "losetup_list j = losetup_list j' \<longleftrightarrow> j = j'"
  "cryptsetup_open k e m = cryptsetup_open k' e' m' \<longleftrightarrow> k = k' \<and> e = e' \<and> m = m'"
  "cryptsetup_close m = cryptsetup_close m' \<longleftrightarrow> m = m'"
  "mount_cmd m p = mount_cmd m' p' \<longleftrightarrow> m = m' \<and> p = p'"
  "umount_cmd p = umount_cmd p' \<longleftrightarrow> p = p'"
  by (auto simp: command_defs)

text \<open>
  What a command does to it: a command that succeeds has the effect its manual gives, one that fails
  has none; closing and detaching only fail where something is still using the device.
\<close>

inductive vol_step :: "'w os_env \<Rightarrow> pyval \<Rightarrow> pystr \<Rightarrow> pystr list \<Rightarrow> bool \<Rightarrow> disk \<Rightarrow> disk \<Rightarrow> bool"
  for E c dev where
  attach: "vol_step E c dev (losetup_attach (img_path E c)) True d (d\<lparr>dk_loop := True\<rparr>)"
| opens: "dk_loop d \<Longrightarrow> vol_step E c dev (cryptsetup_open k dev (mapper_name E c)) True d (d\<lparr>dk_open := True\<rparr>)"
| mounts: "dk_open d \<Longrightarrow>
    vol_step E c dev (mount_cmd (mapper_name E c) (mount_point_of E c)) True d (d\<lparr>dk_mounted := True\<rparr>)"
| umounts: "vol_step E c dev (umount_cmd (mount_point_of E c)) True d (d\<lparr>dk_mounted := False\<rparr>)"
| closing: "\<not> dk_mounted d \<Longrightarrow>
    vol_step E c dev (cryptsetup_close (mapper_name E c)) True d (d\<lparr>dk_open := False\<rparr>)"
| detach: "\<not> dk_open d \<Longrightarrow> vol_step E c dev (losetup_detach dev) True d (d\<lparr>dk_loop := False\<rparr>)"
| lists: "vol_step E c dev (losetup_list (img_path E c)) True d d"
| refused: "\<not> (argv = cryptsetup_close (mapper_name E c) \<and> dk_open d \<and> \<not> dk_mounted d) \<Longrightarrow>
    \<not> (argv = losetup_detach dev \<and> dk_loop d \<and> \<not> dk_open d) \<Longrightarrow> vol_step E c dev argv False d d"

inductive_simps vol_attach: "vol_step E c dev (losetup_attach (img_path E c)) ok d d'"
inductive_simps vol_open: "vol_step E c dev (cryptsetup_open k dev (mapper_name E c)) ok d d'"
inductive_simps vol_mount: "vol_step E c dev (mount_cmd (mapper_name E c) (mount_point_of E c)) ok d d'"
inductive_simps vol_umount: "vol_step E c dev (umount_cmd (mount_point_of E c)) ok d d'"
inductive_simps vol_close: "vol_step E c dev (cryptsetup_close (mapper_name E c)) ok d d'"
inductive_simps vol_detach: "vol_step E c dev (losetup_detach dev) ok d d'"
inductive_simps vol_list: "vol_step E c dev (losetup_list (img_path E c)) ok d d'"

lemmas vol_simps = vol_attach vol_open vol_mount vol_umount vol_close vol_detach vol_list

definition layered :: "disk \<Rightarrow> bool" where
  "layered d \<longleftrightarrow> (dk_mounted d \<longrightarrow> dk_open d) \<and> (dk_open d \<longrightarrow> dk_loop d)"

inductive vol_reachable :: "'w os_env \<Rightarrow> pyval \<Rightarrow> pystr \<Rightarrow> disk \<Rightarrow> bool" for E c dev where
  start: "vol_reachable E c dev closed_disk"
| step: "vol_reachable E c dev d \<Longrightarrow> vol_step E c dev argv ok d d' \<Longrightarrow> vol_reachable E c dev d'"

lemma step_layered: "vol_step E c dev argv ok d d' \<Longrightarrow> layered d \<Longrightarrow> layered d'"
proof (induction rule: vol_step.induct)
  case (attach d) then show ?case by (simp add: layered_def)
next
  case (opens d k) then show ?case by (simp add: layered_def)
next
  case (mounts d) then show ?case by (simp add: layered_def)
next
  case (umounts d) then show ?case by (simp add: layered_def)
next
  case (closing d) then show ?case by (simp add: layered_def)
next
  case (detach d) then show ?case by (simp add: layered_def)
qed

lemma reachable_layered: "vol_reachable E c dev d \<Longrightarrow> layered d"
proof (induction rule: vol_reachable.induct)
  case start
  show ?case by (simp add: closed_disk_def layered_def)
next
  case (step d argv ok d')
  show ?case by (rule step_layered [OF step.hyps(2) step.IH])
qed


subsection \<open>Mounting and unmounting\<close>

text \<open>
  \<open>drives E c dev D\<close>: the programs that \<open>E\<close> runs can be started, act on the volume \<open>D\<close> of the
  container \<open>c\<close> as the state machine says, print the device they use, and nothing else touches it.
\<close>

definition calm :: "('w \<Rightarrow> 'd) \<Rightarrow> ('w \<Rightarrow> 'a \<times> 'w) \<Rightarrow> bool" where
  "calm D f \<longleftrightarrow> (\<forall>w. D (snd (f w)) = D w)"

definition drives :: "'w os_env \<Rightarrow> pyval \<Rightarrow> pystr \<Rightarrow> ('w \<Rightarrow> disk) \<Rightarrow> bool" where
  "drives E c dev D \<longleftrightarrow>
     (\<forall>argv w. \<exists>rc out w'. os_run E argv w = (Inr (rc, out), w') \<and> vol_step E c dev argv (rc = 0) (D w) (D w') \<and>
        (argv = losetup_attach (img_path E c) \<longrightarrow> rc = 0 \<longrightarrow> strip out = dev) \<and>
        (argv = losetup_list (img_path E c) \<longrightarrow>
           (if dk_loop (D w) then \<exists>more. out = dev @ 58 # more else out = []))) \<and>
     58 \<notin> set dev \<and> calm D (os_mkstemp E) \<and> (\<forall>p k. calm D (os_write_key E p k)) \<and>
     (\<forall>p. calm D (os_unlink E p)) \<and> (\<forall>p. calm D (os_makedirs E p))"

definition disk_at :: "('w \<Rightarrow> disk) \<Rightarrow> 'w db \<Rightarrow> disk" where
  "disk_at D s = D (db_world s)"

lemma drives_run:
  assumes "drives E c dev D"
  obtains rc out t where "db_call (os_run E argv) s = Some (Inr (rc, out), t)"
    and "vol_step E c dev argv (rc = 0) (disk_at D s) (disk_at D t)"
    and "argv = losetup_attach (img_path E c) \<Longrightarrow> rc = 0 \<Longrightarrow> strip out = dev"
    and "argv = losetup_list (img_path E c) \<Longrightarrow>
      (if dk_loop (disk_at D s) then \<exists>more. out = dev @ 58 # more else out = [])"
proof -
  obtain rc out w' where "os_run E argv (db_world s) = (Inr (rc, out), w')"
    "vol_step E c dev argv (rc = 0) (D (db_world s)) (D w')"
    "argv = losetup_attach (img_path E c) \<longrightarrow> rc = 0 \<longrightarrow> strip out = dev"
    "argv = losetup_list (img_path E c) \<longrightarrow>
      (if dk_loop (D (db_world s)) then \<exists>more. out = dev @ 58 # more else out = [])"
    using assms unfolding drives_def by meson
  then show thesis
    by (intro that [of rc out "s\<lparr>db_world := w'\<rparr>"]) (simp_all add: db_call_run disk_at_def)
qed

lemma db_call_eq: "f (db_world s) = (r, w) \<Longrightarrow> db_call f s = Some (r, s\<lparr>db_world := w\<rparr>)"
  by (simp add: db_call_run)

lemma calm_call: "calm D f \<Longrightarrow> db_call f s = Some (r, t) \<Longrightarrow> disk_at D t = disk_at D s"
  by (auto simp: calm_def disk_at_def db_call_run split: prod.splits) (metis snd_conv)

lemma drives_calm:
  assumes "drives E c dev D"
  shows "db_call (os_mkstemp E) s = Some (r, t) \<Longrightarrow> disk_at D t = disk_at D s"
    and "db_call (os_write_key E p k) s = Some (r', t) \<Longrightarrow> disk_at D t = disk_at D s"
    and "db_call (os_unlink E p) s = Some (r', t) \<Longrightarrow> disk_at D t = disk_at D s"
    and "db_call (os_makedirs E p) s = Some (r', t) \<Longrightarrow> disk_at D t = disk_at D s"
proof -
  have c: "calm D (os_mkstemp E)" "calm D (os_write_key E p k)" "calm D (os_unlink E p)" "calm D (os_makedirs E p)"
    using assms unfolding drives_def by blast+
  show "db_call (os_mkstemp E) s = Some (r, t) \<Longrightarrow> disk_at D t = disk_at D s"
    "db_call (os_write_key E p k) s = Some (r', t) \<Longrightarrow> disk_at D t = disk_at D s"
    "db_call (os_unlink E p) s = Some (r', t) \<Longrightarrow> disk_at D t = disk_at D s"
    "db_call (os_makedirs E p) s = Some (r', t) \<Longrightarrow> disk_at D t = disk_at D s"
    by (rule c [THEN calm_call], assumption)+
qed

lemma hd_split_char: "c \<notin> set p \<Longrightarrow> hd (split_str [c] (p @ c # rest)) = p"
  using split_str_part [of "[c]" p rest] by (auto simp: nth_append in_set_conv_nth take_Suc_conv_app_nth hd_drop_conv_nth)

lemma unmount_run:
  assumes "drives E c dev D" and "disk_at D s = mounted_disk"
  obtains t rc out w where "unmount_volume E c s = Some (Inr (), t)"
    and "os_run E (umount_cmd (mount_point_of E c)) (db_world s) = (Inr (rc, out), w)"
    and "disk_at D t = (if rc = 0 then closed_disk else mounted_disk)"
proof -
  note run = drives_run [OF assms(1)]
  obtain rc1 out1 t1 where 1: "db_call (os_run E (umount_cmd (mount_point_of E c))) s = Some (Inr (rc1, out1), t1)"
    "vol_step E c dev (umount_cmd (mount_point_of E c)) (rc1 = 0) (disk_at D s) (disk_at D t1)"
    by (rule run)
  obtain rc2 out2 t2 where 2: "db_call (os_run E (cryptsetup_close (mapper_name E c))) t1 = Some (Inr (rc2, out2), t2)"
    "vol_step E c dev (cryptsetup_close (mapper_name E c)) (rc2 = 0) (disk_at D t1) (disk_at D t2)"
    by (rule run)
  obtain rc3 out3 t3 where 3: "db_call (os_run E (losetup_list (img_path E c))) t2 = Some (Inr (rc3, out3), t3)"
    "vol_step E c dev (losetup_list (img_path E c)) (rc3 = 0) (disk_at D t2) (disk_at D t3)"
    "if dk_loop (disk_at D t2) then \<exists>more. out3 = dev @ 58 # more else out3 = []"
    by (rule run) blast
  obtain rc4 out4 t4 where 4: "db_call (os_run E (losetup_detach dev)) t3 = Some (Inr (rc4, out4), t4)"
    "vol_step E c dev (losetup_detach dev) (rc4 = 0) (disk_at D t3) (disk_at D t4)"
    by (rule run)
  have d: "disk_at D t3 = (if rc1 = 0 then \<lparr>dk_loop = True, dk_open = False, dk_mounted = False\<rparr> else mounted_disk)"
    and loop: "dk_loop (disk_at D t2)"
    using 1(2) 2(2) 3(2) assms(2) by (auto simp: vol_simps mounted_disk_def)
  obtain more where "out3 = dev @ 58 # more" using 3(3) loop by auto
  moreover have "58 \<notin> set dev" using assms(1) by (simp add: drives_def)
  ultimately have "out3 \<noteq> []" "hd (split_str [58] out3) = dev" using hd_split_char by simp_all
  then have "unmount_volume E c s = Some (Inr (), t4)"
    using 1(1) 2(1) 3(1) 4(1) by (simp add: unmount_volume_def run_simps)
  moreover have "disk_at D t4 = (if rc1 = 0 then closed_disk else mounted_disk)"
    using d 4(2) by (auto simp: vol_simps mounted_disk_def closed_disk_def split: if_splits)
  moreover obtain w where "os_run E (umount_cmd (mount_point_of E c)) (db_world s) = (Inr (rc1, out1), w)"
    using 1(1) by (auto simp: db_call_run split: prod.splits)
  ultimately show thesis using that by blast
qed

lemma world_is_bind: "bindP (world_is p) k s = k (p (db_world s)) s"
  by (simp add: world_is_def run_simps)

lemma mount_volume_start:
  "mount_volume E c key s =
    (if \<not> os_exists E (img_path E c) (db_world s) then Some (Inr None, s)
     else if os_ismount E (mount_point_of E c) (db_world s) then Some (Inr (Some (mount_point_of E c)), s)
     else bindP (db_call (os_mkstemp E)) (\<lambda>key_path.
       finallyP (open_volume E c key key_path) (db_call (os_unlink E key_path))) s)"
  by (simp add: mount_volume_def world_is_bind ret_def)

lemma open_volume_run:
  assumes "drives E c dev D" and "disk_at D s = closed_disk"
    and "open_volume E c key key_path s = Some (Inr r, t)"
  shows "if r = None then disk_at D t = closed_disk
    else r = Some (mount_point_of E c) \<and> disk_at D t = mounted_disk"
proof -
  let ?img = "img_path E c" and ?mapper = "mapper_name E c" and ?mnt = "mount_point_of E c"
  note run = drives_run [OF assms(1)] and same = drives_calm [OF assms(1)]
  have opn: "open_volume E c key key_path s = Some (Inr r, t)" by (rule assms(3))
  obtain s0 where 0: "db_call (os_write_key E key_path key) s = Some (Inr (), s0)"
    using opn unfolding open_volume_def Let_def by (elim bindP_SomeE) auto
  have d0: "disk_at D s0 = closed_disk" using same(2) [OF 0] assms(2) by simp
  obtain rc1 out1 s1 where 1: "db_call (os_run E (losetup_attach ?img)) s0 = Some (Inr (rc1, out1), s1)"
    "vol_step E c dev (losetup_attach ?img) (rc1 = 0) (disk_at D s0) (disk_at D s1)" "rc1 = 0 \<Longrightarrow> strip out1 = dev"
    by (rule run) blast
  show ?thesis
  proof (cases "rc1 = 0")
    case False
    then show ?thesis
      using opn 0 1 d0 by (auto simp: open_volume_def Let_def bindP_run ret_def vol_attach)
  next
    case rc1: True
    have d1: "disk_at D s1 = closed_disk\<lparr>dk_loop := True\<rparr>" using 1(2) rc1 d0 by (simp add: vol_attach)
    have dev: "strip out1 = dev" using 1(3) rc1 by simp
    obtain rc2 out2 s2 where 2: "db_call (os_run E (cryptsetup_open key_path dev ?mapper)) s1 = Some (Inr (rc2, out2), s2)"
      "vol_step E c dev (cryptsetup_open key_path dev ?mapper) (rc2 = 0) (disk_at D s1) (disk_at D s2)"
      by (rule run)
    have go1: "open_volume E c key key_path s = (if rc2 \<noteq> 0 then
        bindP (db_call (os_run E (losetup_detach dev))) (\<lambda>_. ret None) s2 else
        bindP (db_call (os_makedirs E ?mnt)) (\<lambda>_.
          bindP (db_call (os_run E (mount_cmd ?mapper ?mnt))) (\<lambda>(returncode, _).
          if returncode \<noteq> 0 then
            bindP (db_call (os_run E (cryptsetup_close ?mapper))) (\<lambda>_.
            bindP (db_call (os_run E (losetup_detach dev))) (\<lambda>_. ret None))
          else ret (Some ?mnt))) s2)"
      using 0 1(1) 2(1) rc1 unfolding dev [symmetric] by (simp add: open_volume_def Let_def bindP_run)
    show ?thesis
    proof (cases "rc2 = 0")
      case False
      obtain rc3 out3 s3 where "db_call (os_run E (losetup_detach dev)) s2 = Some (Inr (rc3, out3), s3)"
        "vol_step E c dev (losetup_detach dev) (rc3 = 0) (disk_at D s2) (disk_at D s3)"
        by (rule run)
      then show ?thesis
        using opn go1 False 2(2) d1 by (auto simp: run_simps vol_simps closed_disk_def)
    next
      case rc2: True
      have d2: "disk_at D s2 = \<lparr>dk_loop = True, dk_open = True, dk_mounted = False\<rparr>"
        using 2(2) rc2 d1 by (simp add: vol_open closed_disk_def)
      obtain s3 where 3: "db_call (os_makedirs E ?mnt) s2 = Some (Inr (), s3)"
        using opn unfolding go1 using rc2 by (auto elim: bindP_SomeE)
      have d3: "disk_at D s3 = disk_at D s2" by (rule same(4) [OF 3])
      obtain rc4 out4 s4 where 4: "db_call (os_run E (mount_cmd ?mapper ?mnt)) s3 = Some (Inr (rc4, out4), s4)"
        "vol_step E c dev (mount_cmd ?mapper ?mnt) (rc4 = 0) (disk_at D s3) (disk_at D s4)"
        by (rule run)
      show ?thesis
      proof (cases "rc4 = 0")
        case True
        then show ?thesis
          using opn go1 rc2 3 4 d3 d2 by (auto simp: run_simps vol_mount mounted_disk_def)
      next
        case False
        obtain rc5 out5 s5 where 5: "db_call (os_run E (cryptsetup_close ?mapper)) s4 = Some (Inr (rc5, out5), s5)"
          "vol_step E c dev (cryptsetup_close ?mapper) (rc5 = 0) (disk_at D s4) (disk_at D s5)"
          by (rule run)
        obtain rc6 out6 s6 where 6: "db_call (os_run E (losetup_detach dev)) s5 = Some (Inr (rc6, out6), s6)"
          "vol_step E c dev (losetup_detach dev) (rc6 = 0) (disk_at D s5) (disk_at D s6)"
          by (rule run)
        have "disk_at D s6 = closed_disk"
          using 4(2) False 5(2) 6(2) d3 d2 by (auto simp: vol_simps closed_disk_def)
        then show ?thesis using opn go1 rc2 3 4(1) 5(1) 6(1) False by (simp add: run_simps)
      qed
    qed
  qed
qed

lemma mount_run:
  assumes "drives E c dev D" and "disk_at D s = closed_disk"
    and "\<not> os_ismount E (mount_point_of E c) (db_world s)"
    and "mount_volume E c key s = Some (Inr r, t)"
  shows "if r = None then disk_at D t = closed_disk
    else r = Some (mount_point_of E c) \<and> disk_at D t = mounted_disk"
proof (cases "os_exists E (img_path E c) (db_world s)")
  case False
  then show ?thesis using assms(2,4) by (simp add: mount_volume_start)
next
  case True
  then have "bindP (db_call (os_mkstemp E)) (\<lambda>key_path.
      finallyP (open_volume E c key key_path) (db_call (os_unlink E key_path))) s = Some (Inr r, t)"
    using assms(3,4) by (simp add: mount_volume_start)
  then obtain key_path s1 where 1: "db_call (os_mkstemp E) s = Some (Inr key_path, s1)"
    "finallyP (open_volume E c key key_path) (db_call (os_unlink E key_path)) s1 = Some (Inr r, t)"
    by (rule bindP_SomeE) simp
  from 1(2) obtain s2 x where "open_volume E c key key_path s1 = Some (Inr r, s2)"
    "db_call (os_unlink E key_path) s2 = Some (Inr x, t)"
    by (rule finallyP_SomeE) simp_all
  then show ?thesis
    using open_volume_run [OF assms(1), of s1 key key_path r s2] drives_calm [OF assms(1)] 1(1) assms(2) by auto
qed

text \<open>
  C35. Mounting is all or nothing: from a closed volume, \<open>mount_volume\<close> without an exception either
  gives the mount point, with the volume attached, opened and mounted, or gives \<open>None\<close> and has
  closed what it had opened, at whichever of the three commands it failed.
\<close>

theorem mount_is_all_or_nothing:
  assumes "drives E c dev D" and "disk_at D s = closed_disk"
    and "\<not> os_ismount E (mount_point_of E c) (db_world s)"
    and "mount_volume E c key s = Some (Inr r, t)"
  shows "if r = None then disk_at D t = closed_disk
    else r = Some (mount_point_of E c) \<and> disk_at D t = mounted_disk"
  using assms by (rule mount_run)

text \<open>
  Unmounting a mounted volume closes and detaches it; only where \<open>umount\<close> is refused is it left as
  it was, mounted.
\<close>

theorem unmount_closes_the_volume:
  assumes "drives E c dev D" and "disk_at D s = mounted_disk"
  shows "\<exists>t rc out w. unmount_volume E c s = Some (Inr (), t) \<and>
    os_run E (umount_cmd (mount_point_of E c)) (db_world s) = (Inr (rc, out), w) \<and>
    disk_at D t = (if rc = 0 then closed_disk else mounted_disk)"
  using unmount_run [OF assms] by metis

lemma mount_raises:
  assumes "drives E c dev D" and "disk_at D s = closed_disk"
    and "\<forall>w. \<exists>p w'. os_mkstemp E w = (Inr p, w')" and "\<forall>p k w. \<exists>w'. os_write_key E p k w = (Inr (), w')"
    and "\<forall>p w. \<exists>w'. os_unlink E p w = (Inr (), w')"
    and "mount_volume E c key s = Some (Inl e, t)"
  shows "disk_at D t = \<lparr>dk_loop = True, dk_open = True, dk_mounted = False\<rparr>"
    and "\<exists>w w'. os_makedirs E (mount_point_of E c) w = (Inl e, w')"
proof -
  let ?img = "img_path E c" and ?mapper = "mapper_name E c" and ?mnt = "mount_point_of E c"
  note run = drives_run [OF assms(1)] and same = drives_calm [OF assms(1)]
  obtain key_path s1 where 1: "db_call (os_mkstemp E) s = Some (Inr key_path, s1)"
    using assms(3) db_call_eq by metis
  have "finallyP (open_volume E c key key_path) (db_call (os_unlink E key_path)) s1 = Some (Inl e, t)"
    using assms(6) 1 by (simp add: mount_volume_start bindP_run split: if_splits)
  then obtain q s2 where q: "open_volume E c key key_path s1 = Some (q, s2)"
    "(\<exists>x. db_call (os_unlink E key_path) s2 = Some (Inr x, t) \<and> q = Inl e) \<or>
      db_call (os_unlink E key_path) s2 = Some (Inl e, t)"
    by (rule finallyP_SomeE) auto
  moreover obtain w where "db_call (os_unlink E key_path) s2 = Some (Inr (), s2\<lparr>db_world := w\<rparr>)"
    using assms(5) db_call_eq by metis
  ultimately have 2: "open_volume E c key key_path s1 = Some (Inl e, s2)"
    "\<exists>x. db_call (os_unlink E key_path) s2 = Some (Inr x, t)" by auto
  obtain s3 where 3: "db_call (os_write_key E key_path key) s1 = Some (Inr (), s3)"
    using assms(4) db_call_eq by metis
  obtain rc1 out1 s4 where 4: "db_call (os_run E (losetup_attach ?img)) s3 = Some (Inr (rc1, out1), s4)"
    "vol_step E c dev (losetup_attach ?img) (rc1 = 0) (disk_at D s3) (disk_at D s4)" "rc1 = 0 \<Longrightarrow> strip out1 = dev"
    by (rule run) blast
  have rc1: "rc1 = 0"
    using 2(1) 3 4(1) by (auto simp: open_volume_def Let_def bindP_run ret_def split: if_splits)
  then have dev: "strip out1 = dev" using 4(3) by simp
  obtain rc2 out2 s5 where 5: "db_call (os_run E (cryptsetup_open key_path dev ?mapper)) s4 = Some (Inr (rc2, out2), s5)"
    "vol_step E c dev (cryptsetup_open key_path dev ?mapper) (rc2 = 0) (disk_at D s4) (disk_at D s5)"
    by (rule run)
  obtain rc3 out3 s6 where 6: "db_call (os_run E (losetup_detach dev)) s5 = Some (Inr (rc3, out3), s6)" by (rule run)
  have rc2: "rc2 = 0"
    using 2(1) 3 4(1) 5(1) 6 rc1 dev by (auto simp: open_volume_def Let_def run_simps split: if_splits)
  have d5: "disk_at D s5 = \<lparr>dk_loop = True, dk_open = True, dk_mounted = False\<rparr>"
    using 4(2) 5(2) rc1 rc2 same(1) [OF 1] same(2) [OF 3] assms(2) by (simp add: vol_simps closed_disk_def)
  have rest: "bindP (db_call (os_makedirs E ?mnt)) (\<lambda>_.
      bindP (db_call (os_run E (mount_cmd ?mapper ?mnt))) (\<lambda>(returncode, _).
      if returncode \<noteq> 0 then
        bindP (db_call (os_run E (cryptsetup_close ?mapper))) (\<lambda>_.
        bindP (db_call (os_run E (losetup_detach (strip out1)))) (\<lambda>_. ret None))
      else ret (Some ?mnt))) s5 = Some (Inl e, s2)"
    using 2(1) 3 4(1) 5(1) rc1 rc2 unfolding dev [symmetric] by (simp add: open_volume_def Let_def bindP_run)
  then have mk: "db_call (os_makedirs E ?mnt) s5 = Some (Inl e, s2)"
  proof (cases rule: bindP_SomeE)
    case (raised e')
    then show ?thesis by simp
  next
    case (went_on x s6)
    obtain rc7 out7 s7 where 7: "db_call (os_run E (mount_cmd ?mapper ?mnt)) s6 = Some (Inr (rc7, out7), s7)" by (rule run)
    obtain rc8 out8 s8 where 8: "db_call (os_run E (cryptsetup_close ?mapper)) s7 = Some (Inr (rc8, out8), s8)" by (rule run)
    obtain rc9 out9 s9 where 9: "db_call (os_run E (losetup_detach (strip out1))) s8 = Some (Inr (rc9, out9), s9)" by (rule run)
    show ?thesis using went_on(2) 7 8 9 by (auto simp: run_simps split: if_splits)
  qed
  then have "disk_at D s2 = disk_at D s5" by (rule same(4))
  then show "disk_at D t = \<lparr>dk_loop = True, dk_open = True, dk_mounted = False\<rparr>" using 2(2) d5 same(3) by auto
  show "\<exists>w w'. os_makedirs E (mount_point_of E c) w = (Inl e, w')"
    using mk by (auto simp: db_call_run split: prod.splits)
qed

text \<open>
  An exception while a volume is mounted leaves it attached and opened: only the key file is in a
  \<open>finally\<close>, and a mount point that cannot be made raises after \<open>losetup\<close> and \<open>cryptsetup\<close>.
\<close>

theorem failed_mkdir_leaves_volume_open:
  assumes "drives E c dev D" and "disk_at D s = closed_disk"
    and "\<forall>w. \<exists>p w'. os_mkstemp E w = (Inr p, w')" and "\<forall>p k w. \<exists>w'. os_write_key E p k w = (Inr (), w')"
    and "\<forall>p w. \<exists>w'. os_unlink E p w = (Inr (), w')"
    and "mount_volume E c key s = Some (Inl e, t)"
  shows "disk_at D t = \<lparr>dk_loop = True, dk_open = True, dk_mounted = False\<rparr>"
  using assms by (rule mount_raises(1))

subsection \<open>The key file\<close>

text \<open>\<open>keeps_keys E F\<close>: \<open>F\<close> is the set of the temporary files; only two calls change it.\<close>

definition key_store :: "'w os_env \<Rightarrow> ('w \<Rightarrow> pystr set) \<Rightarrow> bool" where
  "key_store E F \<longleftrightarrow>
     (\<forall>w. case os_mkstemp E w of (Inl _, w') \<Rightarrow> F w' = F w | (Inr p, w') \<Rightarrow> p \<notin> F w \<and> F w' = insert p (F w)) \<and>
     (\<forall>p w. \<exists>w'. os_unlink E p w = (Inr (), w') \<and> F w' = F w - {p}) \<and>
     (\<forall>p k. calm F (os_write_key E p k)) \<and> (\<forall>p. calm F (os_makedirs E p)) \<and> (\<forall>a. calm F (os_run E a))"

lemma calm_keeps: "calm F f \<Longrightarrow> keeps (\<lambda>s. F (db_world s) = X) (db_call f)"
  by (auto simp: keeps_def calm_def db_call_run split: prod.splits) (metis snd_conv)

lemma mkstemp_run:
  assumes "key_store E F" and "db_call (os_mkstemp E) s = Some (r, t)"
  shows "case r of Inl _ \<Rightarrow> F (db_world t) = F (db_world s)
    | Inr p \<Rightarrow> p \<notin> F (db_world s) \<and> F (db_world t) = insert p (F (db_world s))"
proof -
  obtain r' w' where m: "os_mkstemp E (db_world s) = (r', w')" by (rule prod.exhaust)
  have "\<forall>w. case os_mkstemp E w of (Inl _, w') \<Rightarrow> F w' = F w | (Inr p, w') \<Rightarrow> p \<notin> F w \<and> F w' = insert p (F w)"
    using assms(1) unfolding key_store_def by (rule conjunct1)
  from spec [OF this, of "db_world s"] show ?thesis
    using assms(2) m by (cases r') (simp_all add: db_call_run, auto)
qed

lemma open_volume_keeps_keys:
  assumes "key_store E F"
  shows "keeps (\<lambda>s. F (db_world s) = X) (open_volume E c key key_path)"
proof -
  have "calm F (os_write_key E p k)" "calm F (os_makedirs E p)" "calm F (os_run E a)" for p k a
    using assms unfolding key_store_def by blast+
  then show ?thesis
    unfolding open_volume_def Let_def by (intro keeps_intros calm_keeps)
qed

text \<open>
  C38. The file with the container's key is removed in every case: after \<open>mount_volume\<close>, with a mount
  point, with \<open>None\<close> or with an exception, the temporary files are those that were there before.
\<close>

theorem key_file_is_removed:
  assumes "key_store E F" and "mount_volume E c key s = Some (r, t)"
  shows "F (db_world t) = F (db_world s)"
proof (cases "os_exists E (img_path E c) (db_world s) \<and> \<not> os_ismount E (mount_point_of E c) (db_world s)")
  case False
  then show ?thesis using assms(2) by (auto simp: mount_volume_start split: if_splits)
next
  case True
  then have "bindP (db_call (os_mkstemp E)) (\<lambda>key_path.
      finallyP (open_volume E c key key_path) (db_call (os_unlink E key_path))) s = Some (r, t)"
    using assms(2) by (simp add: mount_volume_start)
  then show ?thesis
  proof (cases rule: bindP_SomeE)
    case (raised e)
    then show ?thesis using mkstemp_run [OF assms(1) raised(1)] by simp
  next
    case (went_on key_path s1)
    then have k: "key_path \<notin> F (db_world s)" "F (db_world s1) = insert key_path (F (db_world s))"
      using mkstemp_run [OF assms(1) went_on(1)] by simp_all
    from went_on(2) obtain q s2 where s2: "open_volume E c key key_path s1 = Some (q, s2)"
      "db_call (os_unlink E key_path) s2 = Some (Inr (), t) \<or> (\<exists>e. db_call (os_unlink E key_path) s2 = Some (Inl e, t))"
      by (rule finallyP_SomeE) auto
    have "F (db_world s2) = F (db_world s1)"
      using keepsD [OF open_volume_keeps_keys [OF assms(1), of "F (db_world s1)"] s2(1)] by simp
    moreover obtain w' where "os_unlink E key_path (db_world s2) = (Inr (), w')" "F w' = F (db_world s2) - {key_path}"
      using assms(1) unfolding key_store_def by blast
    ultimately show ?thesis using s2(2) k by (auto simp: db_call_run)
  qed
qed

subsection \<open>A machine with one volume\<close>

record machine =
  mc_disk :: disk
  mc_keys :: "pystr list"

definition one :: pyval where "one = VStr (lit ''c1'')"
definition one_img :: pystr where "one_img = lit ''homes/c1.img''"
definition one_mnt :: pystr where "one_mnt = lit ''homes/c1_mnt''"
definition one_mapper :: pystr where "one_mapper = lit ''somethingremotelygood_c1''"
definition one_dev :: pystr where "one_dev = lit ''/dev/loop7''"

definition machine_run :: "pystr list \<Rightarrow> machine \<Rightarrow> (exn + int \<times> pystr) \<times> machine" where
  "machine_run argv w =
     (let d = mc_disk w; done = (\<lambda>out d'. (Inr (0, out), w\<lparr>mc_disk := d'\<rparr>)); fails = (Inr (1, []), w) in
      if argv = losetup_attach one_img then done one_dev (d\<lparr>dk_loop := True\<rparr>)
      else if argv = losetup_detach one_dev then (if dk_open d then fails else done [] (d\<lparr>dk_loop := False\<rparr>))
      else if argv = losetup_list one_img then done (if dk_loop d then one_dev @ [58] else []) d
      else if argv = cryptsetup_close one_mapper then
        (if dk_mounted d then fails else done [] (d\<lparr>dk_open := False\<rparr>))
      else if argv = mount_cmd one_mapper one_mnt then
        (if dk_open d then done [] (d\<lparr>dk_mounted := True\<rparr>) else fails)
      else if argv = umount_cmd one_mnt then done [] (d\<lparr>dk_mounted := False\<rparr>)
      else if argv = cryptsetup_open (argv ! 5) one_dev one_mapper \<and> dk_loop d then
        done [] (d\<lparr>dk_open := True\<rparr>)
      else fails)"

definition machine_env :: "bool \<Rightarrow> machine os_env" where
  "machine_env mkdir_works =
     \<lparr>os_sql = \<lparr>sq_password = Some [], sq_path = [], 
        sq_call = (\<lambda>argv input w. (Inr (0, lit ''ABCD'' @ newline, []), w)), fl_str = (\<lambda>t. t)\<rparr>,
      os_homes = lit ''homes'', os_exists = (\<lambda>p w. True), os_ismount = (\<lambda>p w. dk_mounted (mc_disk w)),
      os_isdir = (\<lambda>p w. False),
      os_mkstemp = (\<lambda>w. let p = replicate (Suc (sum_list (map length (mc_keys w)))) 65 in
        (Inr p, w\<lparr>mc_keys := p # mc_keys w\<rparr>)),
      os_write_key = (\<lambda>p k w. (Inr (), w)),
      os_unlink = (\<lambda>p w. (Inr (), w\<lparr>mc_keys := filter (\<lambda>q. q \<noteq> p) (mc_keys w)\<rparr>)),
      os_makedirs = (\<lambda>p w. (if mkdir_works then Inr () else Inl OSError, w)),
      os_run = machine_run,
      os_read_text = (\<lambda>p w. (Inr [], w))\<rparr>"

lemma machine_env_sel [simp]:
  "os_mkstemp (machine_env b) = (\<lambda>w. let p = replicate (Suc (sum_list (map length (mc_keys w)))) 65 in
     (Inr p, w\<lparr>mc_keys := p # mc_keys w\<rparr>))"
  "os_write_key (machine_env b) = (\<lambda>p k w. (Inr (), w))"
  "os_unlink (machine_env b) = (\<lambda>p w. (Inr (), w\<lparr>mc_keys := filter (\<lambda>q. q \<noteq> p) (mc_keys w)\<rparr>))"
  "os_makedirs (machine_env b) = (\<lambda>p w. (if b then Inr () else Inl OSError, w))"
  "os_run (machine_env b) = machine_run"
  "os_ismount (machine_env b) = (\<lambda>p w. dk_mounted (mc_disk w))"
  "os_exists (machine_env b) = (\<lambda>p w. True)"
  by (simp_all add: machine_env_def)

lemma machine_names [simp]:
  "img_path (machine_env b) one = one_img" "mount_point_of (machine_env b) one = one_mnt"
  "mapper_name (machine_env b) one = one_mapper"
  by (simp_all add: img_path_def mount_point_of_def mapper_name_def path_join_def str_val_def machine_env_def
      one_def one_img_def one_mnt_def one_mapper_def)

lemma one_dev_text: "strip one_dev = one_dev" "58 \<notin> set one_dev"
  by code_simp+

lemma machine_step:
  "\<exists>rc out w'. machine_run argv w = (Inr (rc, out), w') \<and>
     vol_step (machine_env b) one one_dev argv (rc = 0) (mc_disk w) (mc_disk w') \<and>
     (argv = losetup_attach one_img \<longrightarrow> rc = 0 \<longrightarrow> strip out = one_dev) \<and>
     (argv = losetup_list one_img \<longrightarrow>
        (if dk_loop (mc_disk w) then \<exists>more. out = one_dev @ 58 # more else out = []))"
proof -
  consider "argv = losetup_attach one_img" | "argv = losetup_detach one_dev" | "argv = losetup_list one_img"
    | "argv = cryptsetup_close one_mapper" | "argv = mount_cmd one_mapper one_mnt" | "argv = umount_cmd one_mnt"
    | "argv = cryptsetup_open (argv ! 5) one_dev one_mapper"
    | "argv \<notin> {losetup_attach one_img, losetup_detach one_dev, losetup_list one_img, cryptsetup_close one_mapper,
        mount_cmd one_mapper one_mnt, umount_cmd one_mnt, cryptsetup_open (argv ! 5) one_dev one_mapper}"
    by blast
  then show ?thesis
  proof cases
    case 1
    then show ?thesis
      using vol_attach [of "machine_env b" one one_dev] by (simp add: machine_run_def Let_def one_dev_text)
  next
    case 2
    then show ?thesis
      using vol_detach [of "machine_env b" one one_dev] by (simp add: machine_run_def Let_def)
  next
    case 3
    then show ?thesis
      using vol_list [of "machine_env b" one one_dev] by (simp add: machine_run_def Let_def)
  next
    case 4
    then show ?thesis
      using vol_close [of "machine_env b" one one_dev] by (simp add: machine_run_def Let_def)
  next
    case 5
    then show ?thesis
      using vol_mount [of "machine_env b" one one_dev] by (simp add: machine_run_def Let_def)
  next
    case 6
    then show ?thesis
      using vol_umount [of "machine_env b" one one_dev] by (simp add: machine_run_def Let_def)
  next
    case 7
    then obtain k where k: "argv = cryptsetup_open k one_dev one_mapper" "argv ! 5 = k"
      by (simp add: cryptsetup_open_def)
    then show ?thesis
      using vol_open [of "machine_env b" one one_dev] by (auto simp: machine_run_def Let_def)
  next
    case 8
    then show ?thesis
      using vol_step.refused [of argv "machine_env b" one "mc_disk w" one_dev]
      by (auto simp: machine_run_def Let_def)
  qed
qed

lemma machine_drives: "drives (machine_env b) one one_dev mc_disk"
  unfolding drives_def using machine_step [of _ _ b] one_dev_text(2) by (simp add: calm_def Let_def)

lemma machine_key_store: "key_store (machine_env b) (\<lambda>w. set (mc_keys w))"
proof -
  have "replicate (Suc (sum_list (map length ks))) 65 \<notin> set ks" for ks :: "pystr list"
  proof
    assume "replicate (Suc (sum_list (map length ks))) 65 \<in> set ks"
    then have "Suc (sum_list (map length ks)) \<in> set (map length ks)" by force
    then have "Suc (sum_list (map length ks)) \<le> sum_list (map length ks)" by (rule member_le_sum_list) simp
    then show False by simp
  qed
  moreover have "mc_keys (snd (machine_run a w)) = mc_keys w" for a w
    by (simp add: machine_run_def Let_def)
  ultimately show ?thesis by (auto simp: key_store_def calm_def Let_def)
qed

definition machine_at :: "disk \<Rightarrow> machine db" where
  "machine_at d = \<lparr>db_closed = False, db_world = \<lparr>mc_disk = d, mc_keys = []\<rparr>\<rparr>"

lemma open_args [simp]: "cryptsetup_open k e m ! 5 = k"
  by (simp add: cryptsetup_open_def)

lemmas machine_runs = mount_volume_start open_volume_def run_simps db_call_run machine_run_def Let_def
  machine_at_def closed_disk_def one_dev_text

theorem mount_is_all_or_nothing_witness:
  "\<exists>r t. mount_volume (machine_env True) one [1] (machine_at closed_disk) = Some (Inr r, t) \<and>
    (if r = None then disk_at mc_disk t = closed_disk else r = Some one_mnt \<and> disk_at mc_disk t = mounted_disk)"
proof -
  obtain r t where m: "mount_volume (machine_env True) one [1] (machine_at closed_disk) = Some (Inr r, t)"
    by (simp add: machine_runs)
  have start: "disk_at mc_disk (machine_at closed_disk) = closed_disk"
    "\<not> os_ismount (machine_env True) (mount_point_of (machine_env True) one) (db_world (machine_at closed_disk))"
    by (simp_all add: disk_at_def machine_at_def closed_disk_def)
  show ?thesis
    using mount_is_all_or_nothing [OF machine_drives start m, unfolded machine_names] m by blast
qed

theorem unmount_closes_the_volume_witness:
  "\<exists>t rc out w. unmount_volume (machine_env True) one (machine_at mounted_disk) = Some (Inr (), t) \<and>
    os_run (machine_env True) (umount_cmd (mount_point_of (machine_env True) one)) (db_world (machine_at mounted_disk)) =
      (Inr (rc, out), w) \<and>
    disk_at mc_disk t = (if rc = 0 then closed_disk else mounted_disk)"
  by (rule unmount_closes_the_volume [OF machine_drives]) (simp add: disk_at_def machine_at_def)

theorem failed_mkdir_leaves_volume_open_witness:
  "\<exists>t. mount_volume (machine_env False) one [1] (machine_at closed_disk) = Some (Inl OSError, t) \<and>
    disk_at mc_disk t = \<lparr>dk_loop = True, dk_open = True, dk_mounted = False\<rparr>"
proof -
  obtain t where m: "mount_volume (machine_env False) one [1] (machine_at closed_disk) = Some (Inl OSError, t)"
    by (simp add: machine_runs)
  have "disk_at mc_disk t = \<lparr>dk_loop = True, dk_open = True, dk_mounted = False\<rparr>"
    by (rule failed_mkdir_leaves_volume_open [OF machine_drives _ _ _ _ m])
      (simp_all add: disk_at_def machine_at_def Let_def)
  then show ?thesis using m by blast
qed

theorem key_file_is_removed_witness:
  "\<exists>r t. mount_volume (machine_env False) one [1] (machine_at closed_disk) = Some (r, t) \<and>
    mc_keys (db_world t) = []"
proof -
  obtain r t where m: "mount_volume (machine_env False) one [1] (machine_at closed_disk) = Some (r, t)"
    by (simp add: machine_runs)
  have "set (mc_keys (db_world t)) = set (mc_keys (db_world (machine_at closed_disk)))"
    by (rule key_file_is_removed [OF machine_key_store m])
  then show ?thesis using m by (simp add: machine_at_def)
qed

end
