(* ===== verification/AnalysisProps.thy ===== *)
theory AnalysisProps
  imports CommandAnalysis VolumeProps DbProps
begin

text \<open>
  What the command analysis stores and what it leaves behind: the answers that reach the database, the
  report file, and the state of the container's volume after the analysis.
\<close>

subsection \<open>Stored answers\<close>

lemma failed_result_expected: "expected_answer (failed_result text)"
  unfolding expected_answer_def failed_result_def valid_risk_def
  by (rule exI, rule exI [of _ "lit ''suspicious''"], rule exI [of _ "[]"], rule conjI, rule refl) simp

lemma expected_risk: "expected_answer d \<Longrightarrow> \<exists>r. risk_of d = Inr r \<and> r \<in> set valid_risk"
  by (auto simp: expected_answer_def risk_of_def json_item_def simp del: lit_Cons)

lemma validated_expected: "validate_llm_response text = Inr (Some d) \<Longrightarrow> expected_answer d"
  by (auto simp: validate_llm_response_def bindE_Inr_iff check_fields_Some split: option.splits)

text \<open>
  Whatever the model answers, what is stored has the schema of the prompt: a result that reaches
  the database has its four fields, a list of findings and one of the three risk levels, the answer's
  own or, where it was refused, \<open>suspicious\<close>.
\<close>

theorem stored_result_has_the_schema:
  assumes "final_result response = Inr d"
  shows "expected_answer d \<and> (\<exists>r. risk_of d = Inr r \<and> r \<in> set valid_risk)"
proof -
  have "expected_answer d"
    using assms by (auto simp: final_result_def bindE_Inr_iff failed_result_expected validated_expected
        split: json.splits option.splits)
  then show ?thesis using expected_risk by blast
qed

lemma refused_text: "validate_llm_response (lit ''no'') = Inr None"
  by code_simp

theorem stored_result_has_the_schema_witness:
  "expected_answer (failed_result (lit ''no'')) \<and> (\<exists>r. risk_of (failed_result (lit ''no'')) = Inr r \<and> r \<in> set valid_risk)"
  by (rule stored_result_has_the_schema [of "JStr (lit ''no'')"]) (simp add: final_result_def refused_text del: lit_Cons)

subsection \<open>The report file\<close>

definition val_ok :: "'w analysis_env \<Rightarrow> pyval \<Rightarrow> bool" where
  "val_ok E v = (case v of VStr s \<Rightarrow> list_all scalar s | VFloat t \<Rightarrow> float_text (ae_float E t) | _ \<Rightarrow> True)"

lemma val_json_ok: "val_ok E v \<Longrightarrow> json_of_val E v = Inr j \<Longrightarrow> json_ok j"
  by (cases v) (auto simp: val_ok_def json_of_val_def)

text \<open>The values of a report that can be written and read back.\<close>

definition report_ok :: "'w analysis_env \<Rightarrow> row \<Rightarrow> pyval \<Rightarrow> pyval \<Rightarrow> json \<Rightarrow> pystr list \<Rightarrow> bool" where
  "report_ok E report user_id container_id result commands \<longleftrightarrow>
     list_all scalar (ae_model E) \<and> val_ok E user_id \<and> val_ok E container_id \<and>
     val_ok E (row_get report (lit ''anomaly_type'') (lit ''unknown'')) \<and>
     val_ok E (row_get report (lit ''severity'') (lit ''unknown'')) \<and>
     val_ok E (row_get report (lit ''summary'') []) \<and>
     (\<forall>details. loads_val (row_get report (lit ''details_json'') (lit ''[]'')) = Inr details \<longrightarrow> json_ok details) \<and>
     json_ok result \<and> list_all (list_all scalar) commands"

lemma report_json_ok:
  assumes "report_json E stamp n report user_id container_id result commands = Inr j"
    and "report_ok E report user_id container_id result commands" and "list_all scalar stamp"
  shows "json_ok j"
proof -
  obtain details user container ty severity summary where
    v: "loads_val (row_get report (lit ''details_json'') (lit ''[]'')) = Inr details"
    "json_of_val E user_id = Inr user" "json_of_val E container_id = Inr container"
    "json_of_val E (row_get report (lit ''anomaly_type'') (lit ''unknown'')) = Inr ty"
    "json_of_val E (row_get report (lit ''severity'') (lit ''unknown'')) = Inr severity"
    "json_of_val E (row_get report (lit ''summary'') []) = Inr summary"
    and j: "j = JDict
       [(lit ''report_metadata'', JDict
           [(lit ''generated_at'', JStr stamp), (lit ''anomaly_report_id'', JInt n), (lit ''model'', JStr (ae_model E))]),
        (lit ''user'', JDict [(lit ''user_id'', user), (lit ''container_id'', container)]),
        (lit ''anomaly'', JDict
           [(lit ''type'', ty), (lit ''severity'', severity), (lit ''summary'', summary), (lit ''details'', details)]),
        (lit ''command_analysis'', result),
        (lit ''commands_analyzed'', JInt (int (length commands))),
        (lit ''command_history'', JList (map JStr commands))]"
    using assms(1) unfolding report_json_def bindE_Inr_iff by blast
  have "json_ok details" "json_ok user" "json_ok container" "json_ok ty" "json_ok severity" "json_ok summary"
    "json_ok result" "list_all (list_all scalar) commands" "list_all scalar (ae_model E)"
    using assms(2) v val_json_ok unfolding report_ok_def by blast+
  then show ?thesis using assms(3) unfolding j by (simp add: scalar_def list_all_iff)
qed

text \<open>
  C32. The report file can be read back: where the report's texts have no surrogates and its floats
  have the text of a float, the text that \<open>save_json_report\<close> writes at the path it returns is parsed by
  \<open>json.loads\<close> into the report that it was given, with every analysed command in \<open>command_history\<close>.
\<close>

theorem report_file_is_read_back:
  assumes "save_json_report E n report user_id container_id result commands s = Some (Inr path, t)"
    and "report_ok E report user_id container_id result commands"
    and "\<forall>w. list_all scalar (fst (fst (ae_now E w)))"
  shows "\<exists>text w w' stamp j. ae_write_text E path text w = (Inr (), w') \<and> json_loads text = Inr j \<and>
    report_json E stamp n report user_id container_id result commands = Inr j \<and>
    json_item j (lit ''command_history'') = Inr (JList (map JStr commands))"
proof -
  obtain s1 where "db_call (os_makedirs (ae_os E) REPORTS_DIR) s = Some (Inr (), s1)"
    using assms(1) unfolding save_json_report_def by (elim bindP_SomeE) auto
  then obtain iso stamp w1 where now: "ae_now E (db_world s1) = ((iso, stamp), w1)"
    and rest: "bindP (lift_exn (report_json E iso n report user_id container_id result commands)) (\<lambda>report.
       let filepath = path_join REPORTS_DIR (report_name E n user_id stamp) in
       bindP (db_call (ae_write_text E filepath (json_dump_indented report))) (\<lambda>_. ret filepath))
      (s1\<lparr>db_world := w1\<rparr>) = Some (Inr path, t)"
    using assms(1) unfolding save_json_report_def
    by (cases "ae_now E (db_world s1)") (auto simp: bindP_run db_call_run)
  then obtain j where j: "report_json E iso n report user_id container_id result commands = Inr j"
    by (cases "report_json E iso n report user_id container_id result commands") (auto simp: run_simps)
  obtain q w' where w: "ae_write_text E (path_join REPORTS_DIR (report_name E n user_id stamp))
      (json_dump_indented j) w1 = (q, w')" by (rule prod.exhaust)
  then have "q = Inr ()" "path = path_join REPORTS_DIR (report_name E n user_id stamp)"
    using rest j by (auto simp: run_simps Let_def db_call_run split: sum.splits)
  moreover have "list_all scalar iso" using assms(3) now by (metis fst_conv)
  then have "json_loads (json_dump_indented j) = Inr j"
    using report_json_ok [OF j assms(2)] by (intro json_round_trip(2))
  moreover have "json_item j (lit ''command_history'') = Inr (JList (map JStr commands))"
    using j by (auto simp: report_json_def bindE_Inr_iff json_item_def)
  ultimately show ?thesis using w j by blast
qed

definition sample_env :: "machine analysis_env" where
  "sample_env = \<lparr>ae_os = machine_env True, ae_model = lit ''m'', ae_requests = True,
     ae_post = (\<lambda>body w. (Inl OSError, w)), ae_now = (\<lambda>w. ((lit ''t'', lit ''s''), w)),
     ae_write_text = (\<lambda>p x w. (Inr (), w)), ae_set = remdups, ae_float = (\<lambda>t. t)\<rparr>"

definition sample_report :: row where
  "sample_report = [(lit ''summary'', VStr (lit ''x'')), (lit ''details_json'', VStr (lit ''[]''))]"

lemma sample_details: "json_loads (lit ''[]'') = Inr (JList [])"
  by code_simp

lemma sample_gets:
  "row_get sample_report (lit ''details_json'') (lit ''[]'') = VStr (lit ''[]'')"
  "row_get sample_report (lit ''summary'') [] = VStr (lit ''x'')"
  "row_get sample_report (lit ''severity'') (lit ''unknown'') = VStr (lit ''unknown'')"
  "row_get sample_report (lit ''anomaly_type'') (lit ''unknown'') = VStr (lit ''unknown'')"
  by code_simp+

theorem report_file_is_read_back_witness:
  "\<exists>text w w' stamp j. ae_write_text sample_env (lit ''./reports/report_anomaly1_bob_s.json'') text w = (Inr (), w') \<and>
    json_loads text = Inr j \<and>
    report_json sample_env stamp 1 sample_report (VStr (lit ''bob'')) one JNull [lit ''ls''] = Inr j \<and>
    json_item j (lit ''command_history'') = Inr (JList (map JStr [lit ''ls'']))"
proof -
  have l': "loads_val (VStr (lit ''[]'')) = Inr (JList [])" by (simp add: loads_val_def sample_details del: lit_Cons)
  have name: "path_join REPORTS_DIR (report_name sample_env 1 (VStr (lit ''bob'')) (lit ''s'')) =
      lit ''./reports/report_anomaly1_bob_s.json''" by code_simp
  obtain t where run: "save_json_report sample_env 1 sample_report (VStr (lit ''bob'')) one JNull [lit ''ls'']
      (machine_at closed_disk) = Some (Inr (lit ''./reports/report_anomaly1_bob_s.json''), t)"
    unfolding save_json_report_def report_json_def sample_gets
    by (simp add: run_simps db_call_run sample_env_def loads_val_def sample_details json_of_val_def one_def Let_def
        name [unfolded sample_env_def] del: lit_Cons)
  have "report_ok sample_env sample_report (VStr (lit ''bob'')) one JNull [lit ''ls'']"
    unfolding report_ok_def sample_gets l' by (simp add: val_ok_def one_def sample_env_def scalar_def)
  then show ?thesis
    by (intro report_file_is_read_back [OF run]) (simp_all add: sample_env_def scalar_def)
qed

subsection \<open>The volume after an analysis\<close>

text \<open>Nothing but the commands touches the volume, and nothing but the commands can stop a mount.\<close>

definition quiet_world :: "'w analysis_env \<Rightarrow> pyval \<Rightarrow> ('w \<Rightarrow> disk) \<Rightarrow> bool" where
  "quiet_world E c D \<longleftrightarrow>
     (\<forall>a i. calm D (sq_call (ae_sql E) a i)) \<and> (\<forall>b. calm D (ae_post E b)) \<and> calm D (ae_now E) \<and>
     (\<forall>p x. calm D (ae_write_text E p x)) \<and> (\<forall>p. calm D (os_read_text (ae_os E) p)) \<and>
     (\<forall>w. os_ismount (ae_os E) (mount_point_of (ae_os E) c) w = dk_mounted (D w)) \<and>
     (\<forall>w. \<exists>p w'. os_mkstemp (ae_os E) w = (Inr p, w')) \<and>
     (\<forall>p k w. \<exists>w'. os_write_key (ae_os E) p k w = (Inr (), w')) \<and>
     (\<forall>p w. \<exists>w'. os_unlink (ae_os E) p w = (Inr (), w')) \<and>
     (\<forall>p w. \<exists>w'. os_makedirs (ae_os E) p w = (Inr (), w'))"

abbreviation holds_disk :: "('w \<Rightarrow> disk) \<Rightarrow> disk \<Rightarrow> 'w db \<Rightarrow> bool" where
  "holds_disk D d \<equiv> (\<lambda>s. D (db_world s) = d)"

lemma db_run_calm:
  assumes "\<forall>a i. calm D (sq_call S a i)"
  shows "keeps (holds_disk D d) (db_run S sql)"
  unfolding db_run_def by (intro keeps_intros calm_keeps assms [rule_format])

lemma bound_sql_calm: "keeps P (bound_sql S sql params)"
  unfolding bound_sql_def by (intro keeps_intros)

lemma statements_calm:
  assumes "\<forall>a i. calm D (sq_call S a i)"
  shows "keeps (holds_disk D d) (execute S sql params)" "keeps (holds_disk D d) (execute_insert S sql params)"
  unfolding execute_def execute_insert_def by (intro keeps_intros bound_sql_calm db_run_calm [OF assms])+

lemma queries_calm:
  assumes "\<forall>a i. calm D (sq_call S a i)"
  shows "keeps (holds_disk D d) (get_container_key S False u c)"
    and "keeps (holds_disk D d) (insert_command_report S False a u c x r)"
  unfolding get_container_key_def insert_command_report_def with_conn_def
  by (simp_all del: lit_Cons) (intro keeps_intros statements_calm [OF assms])+

lemma quiet_laws:
  assumes "quiet_world E c D"
  shows "\<forall>a i. calm D (sq_call (ae_sql E) a i)" "calm D (ae_post E b)" "calm D (ae_now E)"
    "calm D (ae_write_text E p x)" "calm D (os_read_text (ae_os E) p)"
    "os_ismount (ae_os E) (mount_point_of (ae_os E) c) w = dk_mounted (D w)"
  using assms unfolding quiet_world_def by blast+

lemma clock_calm: "calm D f \<Longrightarrow> calm D (\<lambda>w. case f w of (t, w') \<Rightarrow> (Inr t, w'))"
  by (simp add: calm_def split: prod.split) (metis snd_conv)

lemma read_lines_calm:
  assumes "quiet_world E c D"
  shows "keeps (holds_disk D d) (read_lines (ae_os E) paths)"
proof (induction paths)
  case (Cons p ps)
  show ?case unfolding read_lines.simps world_is_def
    by (intro keeps_intros calm_keeps quiet_laws [OF assms] Cons.IH)
qed (simp add: keeps_intros)

lemma analyze_history_calm:
  assumes "quiet_world E c D" and "drives (ae_os E) c dev D"
  shows "keeps (holds_disk D d) (analyze_history E n report u c place)"
proof -
  note q = quiet_laws [OF assms(1)]
  have mk: "calm D (os_makedirs (ae_os E) p)" for p using assms(2) unfolding drives_def by blast
  have "keeps (holds_disk D d) (call_llm E prompt)" for prompt
    unfolding call_llm_def by (intro keeps_intros calm_keeps q)
  moreover have "keeps (holds_disk D d) (save_json_report E n report u c result cmds)" for result cmds
    unfolding save_json_report_def Let_def by (intro keeps_intros calm_keeps q mk clock_calm)
  moreover have "keeps (holds_disk D d) (read_shell_history (ae_os E) place u)"
    unfolding read_shell_history_def by (intro keeps_intros read_lines_calm [OF assms(1)])
  ultimately show ?thesis
    unfolding analyze_history_def by (intro keeps_intros queries_calm q)
qed

lemma mount_never_raises:
  assumes "quiet_world E c D" and "drives (ae_os E) c dev D" and "disk_at D s = closed_disk"
  shows "mount_volume (ae_os E) c key s \<noteq> Some (Inl e, t)"
proof
  assume m: "mount_volume (ae_os E) c key s = Some (Inl e, t)"
  have "\<forall>w. \<exists>p w'. os_mkstemp (ae_os E) w = (Inr p, w')"
    "\<forall>p k w. \<exists>w'. os_write_key (ae_os E) p k w = (Inr (), w')"
    "\<forall>p w. \<exists>w'. os_unlink (ae_os E) p w = (Inr (), w')"
    using assms(1) unfolding quiet_world_def by blast+
  from mount_raises(2) [OF assms(2,3) this m]
  have "\<exists>w w'. os_makedirs (ae_os E) (mount_point_of (ae_os E) c) w = (Inl e, w')" .
  moreover have "\<forall>p w. \<exists>w'. os_makedirs (ae_os E) p w = (Inr (), w')"
    using assms(1) unfolding quiet_world_def by blast
  ultimately show False by (metis Inl_Inr_False fst_conv)
qed

lemma mount_point_nonempty: "mount_point_of S c \<noteq> []"
  by (simp add: mount_point_of_def path_join_def)

definition umount_works :: "'w analysis_env \<Rightarrow> pyval \<Rightarrow> bool" where
  "umount_works E c \<longleftrightarrow>
     (\<forall>w. \<exists>out w'. os_run (ae_os E) (umount_cmd (mount_point_of (ae_os E) c)) w = (Inr (0, out), w'))"

lemma mounted_is_released:
  assumes "quiet_world E c D" and "drives (ae_os E) c dev D" and "umount_works E c"
    and "disk_at D s = mounted_disk"
    and "finallyP (analyze_history E n report u c place) (unmount_volume (ae_os E) c) s = Some (r, t)"
  shows "disk_at D t = closed_disk"
proof -
  from assms(5) obtain q s1 x where 1: "analyze_history E n report u c place s = Some (q, s1)"
    "unmount_volume (ae_os E) c s1 = Some (x, t)" by (rule finallyP_SomeE) auto
  have "disk_at D s1 = mounted_disk"
    using keepsD [OF analyze_history_calm [OF assms(1,2)] 1(1)] assms(4) by (simp add: disk_at_def)
  then obtain t' rc out w where "unmount_volume (ae_os E) c s1 = Some (Inr (), t')"
    "os_run (ae_os E) (umount_cmd (mount_point_of (ae_os E) c)) (db_world s1) = (Inr (rc, out), w)"
    "disk_at D t' = (if rc = 0 then closed_disk else mounted_disk)"
    by (rule unmount_run [OF assms(2)])
  moreover obtain out' w' where "os_run (ae_os E) (umount_cmd (mount_point_of (ae_os E) c)) (db_world s1) =
      (Inr (0, out'), w')" using assms(3) unfolding umount_works_def by blast
  ultimately show ?thesis using 1(2) by simp
qed



lemma sample_drives: "drives (ae_os sample_env) one one_dev mc_disk"
  using machine_drives by (simp add: sample_env_def)

lemma sample_quiet: "quiet_world sample_env one mc_disk" "umount_works sample_env one"
proof -
  have "calm mc_disk (sq_call (os_sql (machine_env True)) a i)" "calm mc_disk (os_read_text (machine_env True) p)" for a i p
    by (simp_all add: machine_env_def calm_def)
  then show "quiet_world sample_env one mc_disk"
    by (simp add: quiet_world_def sample_env_def calm_def Let_def)
  have "umount_cmd one_mnt \<noteq> cryptsetup_open k d m" for k d m by simp
  then show "umount_works sample_env one"
    by (simp add: umount_works_def sample_env_def machine_run_def Let_def)
qed

lemma volume_returns [total_intros]:
  "comes_back (\<lambda>_. True) (mount_volume S c key)"
  "comes_back (\<lambda>_. True) (unmount_volume S c)"
  unfolding mount_volume_def unmount_volume_def open_volume_def world_is_def Let_def
  by (intro total_intros keeps_True)+

lemma read_lines_returns: "comes_back (\<lambda>_. True) (read_lines S paths)"
proof (induction paths)
  case (Cons p ps)
  show ?case unfolding read_lines.simps world_is_def by (intro total_intros keeps_True Cons.IH)
qed (simp add: total_intros)

lemma analyze_container_returns: "comes_back (\<lambda>_. True) (analyze_container E n report u c)"
proof -
  have h: "comes_back (\<lambda>_. True) (analyze_history E n report u c place)" for place
    unfolding analyze_history_def read_shell_history_def call_llm_def save_json_report_def Let_def
    by (intro total_intros keeps_True read_lines_returns)
  show ?thesis
    unfolding analyze_container_def world_is_def by (intro total_intros keeps_True h)
qed



end
