(* ===== verification/Pipeline.thy ===== *)
theory Pipeline
  imports DetectorRun AnalysisProps
begin

text \<open>
  From the detector to the analyst: which texts go through the database's shell unharmed, and that the
  parts of a detector's report are such texts.
\<close>

subsection \<open>Texts that are not numbers\<close>

lemma dropWhile_keeps: "c \<in> set s \<Longrightarrow> \<not> p c \<Longrightarrow> c \<in> set (dropWhile p s)"
  by (induction s) auto

lemma number_text_keeps:
  assumes "c \<in> set s" and "0 \<le> c" and "c < 127" and "\<not> c_space c"
  shows "c \<in> set (number_text s)"
proof -
  have "c \<in> set (map to_ascii_char s)" using assms(1,3) by (force simp: to_ascii_char_def)
  then have "c \<in> set (dropWhile c_space (map to_ascii_char s))" using assms(4) by (rule dropWhile_keeps)
  then have "c \<in> set (dropWhile c_space (rev (dropWhile c_space (map to_ascii_char s))))"
    using assms(4) by (intro dropWhile_keeps) simp_all
  then show ?thesis by (simp add: number_text_def rstrip_by_def lstrip_by_def)
qed

lemma drop_underscores_keeps:
  "drop_underscores b t = Some u \<Longrightarrow> c \<in> set t \<Longrightarrow> c \<noteq> 95 \<Longrightarrow> c \<in> set u"
  by (induction b t arbitrary: u rule: drop_underscores.induct) (auto split: if_splits)

lemma digits_value_digits: "digits_value acc s = Some v \<Longrightarrow> list_all is_digit s"
  by (induction acc s rule: digits_value.induct) (auto split: if_splits)

lemma decimal_parts_chars:
  assumes "decimal_parts u = Some x" and "c \<in> set u"
  shows "is_digit c \<or> c \<in> {46, 101, 69, 43, 45}"
proof -
  define r where "r = dropWhile is_digit u"
  define r2 where "r2 = (if r \<noteq> [] \<and> hd r = 46 then dropWhile is_digit (tl r) else r)"
  have tail: "r2 = [] \<or> lower_char (hd r2) = 101 \<and> list_all is_digit (unsigned_text (tl r2))"
  proof -
    let ?e = "lower_char (hd r2) = 101 \<and> unsigned_text (tl r2) \<noteq> [] \<and> list_all is_digit (unsigned_text (tl r2))"
    have "\<exists>A y z. decimal_parts u = (if A then None else if r2 = [] then Some y else if ?e then Some z else None)"
      unfolding decimal_parts_def Let_def r_def [symmetric] r2_def by (intro exI, rule refl)
    then obtain A y z where "decimal_parts u = (if A then None else if r2 = [] then Some y else if ?e then Some z else None)"
      by blast
    then show ?thesis using assms(1) by (metis option.distinct(1))
  qed
  have digits: "is_digit d" if "d \<in> set s" "d \<notin> set (dropWhile is_digit s)" for d s
    by (rule ccontr) (use that(2) dropWhile_keeps [OF that(1)] in simp)
  have "is_digit d \<or> d \<in> {101, 69, 43, 45}" if "d \<in> set r2" for d
  proof (cases r2)
    case (Cons e es)
    have "e = 101 \<or> e = 69" using tail Cons by (auto simp: lower_char_def split: if_splits)
    moreover have "is_digit d \<or> d \<in> {43, 45}" if "d \<in> set es"
      using tail Cons that by (cases es) (auto simp: unsigned_text_def list_all_iff split: if_splits)
    ultimately show ?thesis using \<open>d \<in> set r2\<close> Cons by auto
  qed (use that in simp)
  moreover have "is_digit d \<or> d = 46 \<or> d \<in> set r2" if "d \<in> set r" for d
    using that digits [of d "tl r"] by (cases r) (auto simp: r2_def)
  moreover have "is_digit c \<or> c \<in> set r" using assms(2) digits by (auto simp: r_def)
  ultimately show ?thesis by blast
qed

text \<open>A text with an \<open>s\<close> or an opening bracket stays a text.\<close>

lemma convert_text:
  assumes "c \<in> set s" and "c = 115 \<or> c = 91"
  shows "convert s = VStr s"
proof -
  have plain: "c \<noteq> 95" "\<not> is_digit c" "c \<notin> {46, 101, 69, 43, 45}" "lower_char c = c"
    using assms(2) by (auto simp: is_digit_def lower_char_def)
  have kept: "c \<in> set u" if "drop_underscores False (number_text s) = Some u" for u
  proof (rule drop_underscores_keeps [OF that])
    show "c \<in> set (number_text s)" using assms by (intro number_text_keeps) (auto simp: c_space_def)
  qed (rule plain)
  have sign: "c \<in> set (unsigned_text u)" if "c \<in> set u" for u
    using that plain(3) by (cases u) (auto simp: unsigned_text_def)
  have "py_int s = Inl ValueError"
  proof (cases "drop_underscores False (number_text s)")
    case (Some u)
    let ?ds = "if u \<noteq> [] \<and> hd u \<in> {43, 45} then tl u else u"
    have "c \<in> set ?ds" using sign [OF kept [OF Some]] by (simp add: unsigned_text_def)
    then have "digits_value 0 ?ds = None"
      using digits_value_digits [of 0 ?ds] plain(2) by (cases "digits_value 0 ?ds") (auto simp: list_all_iff)
    then show ?thesis using Some by (simp add: py_int_def Let_def)
  qed (simp add: py_int_def)
  moreover have "py_float s = Inl ValueError"
  proof (cases "drop_underscores False (number_text s)")
    case (Some u)
    have c: "c \<in> set (unsigned_text u)" by (rule sign [OF kept [OF Some]])
    then have "c \<in> set (map lower_char (unsigned_text u))" using plain(4) by force
    moreover have "c \<notin> set (lit ''inf'')" "c \<notin> set (lit ''infinity'')" "c \<notin> set (lit ''nan'')" using assms(2) by auto
    ultimately have "map lower_char (unsigned_text u) \<notin> {lit ''inf'', lit ''infinity'', lit ''nan''}"
      by (metis insertE singletonD)
    moreover have "decimal_parts (unsigned_text u) = None"
      using decimal_parts_chars [OF _ c] plain(2,3) by (cases "decimal_parts (unsigned_text u)") auto
    ultimately show ?thesis using Some by (simp add: py_float_def del: lit_Cons)
  qed (simp add: py_float_def)
  ultimately show ?thesis by (simp add: convert_def)
qed

subsection \<open>Texts that stay in their field\<close>

text \<open>Characters that a JSON string can hold and that neither end a line nor begin a separator.\<close>

definition field_char :: "pychar \<Rightarrow> bool" where
  "field_char c \<longleftrightarrow> scalar c \<and> c \<noteq> 10 \<and> c \<noteq> 60"

abbreviation field_text :: "pystr \<Rightarrow> bool" where
  "field_text s \<equiv> list_all field_char s"

lemma field_char_latin [simp]: "32 \<le> c \<Longrightarrow> c < 256 \<Longrightarrow> c \<noteq> 60 \<Longrightarrow> field_char c"
  by (simp add: field_char_def scalar_def)

lemma field_char_digit: "is_digit c \<Longrightarrow> field_char c"
  by (simp add: is_digit_def)

lemma field_text_dec_nat [simp]: "field_text (dec_nat n)"
  using dec_nat_digits field_char_digit by (force simp: list_all_iff)

lemma field_text_dec_int [simp]: "field_text (dec_int i)"
  by (simp add: dec_int_def)

lemma field_text_replicate [simp]: "field_char c \<Longrightarrow> field_text (replicate n c)"
  by (simp add: list_all_iff)

lemma field_text_fixed [simp]: "field_text (fixed d x)" "field_text (two_digits i)"
  by (simp_all add: fixed_def two_digits_def Let_def)

lemma field_text_join: "field_text sep \<Longrightarrow> list_all field_text ps \<Longrightarrow> field_text (join sep ps)"
  by (induction ps rule: induct_list012) simp_all

text \<open>What \<open>detail_text\<close> says of the detail of an anomaly carries over to the summary.\<close>

definition detail_text :: "pystr \<Rightarrow> bool" where
  "detail_text s \<longleftrightarrow> field_text s \<and> 115 \<in> set s"

lemma anomaly_texts:
  assumes "a \<in> set (time_anomalies bc rc) \<or> a \<in> set (frequency_anomalies k bc rc) \<or> a \<in> set (duration_anomalies k bs rs)"
  shows "detail_text (an_detail a) \<and> an_type a \<in> {unusual_time, high_frequency, long_duration}"
proof -
  have "detail_text (an_detail a) \<and> an_type a = unusual_time" if "a \<in> set (time_anomalies bc rc)"
    using that by (auto simp: time_anomalies_def Let_def detail_text_def split: if_splits)
  moreover have "detail_text (an_detail a) \<and> an_type a = high_frequency" if a: "a \<in> set (frequency_anomalies k bc rc)"
  proof -
    obtain mean std where ms: "compute_mean_stddev (sessions_per_day bc) = (mean, std)" by (rule prod.exhaust)
    have "\<exists>n z. an_detail a = dec_int n @ lit '' sessions today vs baseline '' @ fixed 1 mean @ [177] @
        fixed 1 std @ lit ''/day (z='' @ fixed 1 z @ lit '')''"
      using a unfolding frequency_anomalies_def Let_def ms prod.case
      by (auto simp del: lit_Cons split: if_splits) (intro exI, rule refl)
    then show ?thesis using a by (auto simp: detail_text_def elim: frequency_anomaly_cause)
  qed
  moreover have "detail_text (an_detail a) \<and> an_type a = long_duration" if a: "a \<in> set (duration_anomalies k bs rs)"
  proof -
    obtain mean std where ms: "compute_mean_stddev (compute_durations bs) = (mean, std)" by (rule prod.exhaust)
    have "\<exists>d z. an_detail a = lit ''Session '' @ fixed 0 d @ lit ''min vs baseline '' @
        fixed 0 (mean / 60) @ [177] @ fixed 0 (std / 60) @ lit ''min (z='' @ fixed 1 z @ lit '')''"
      using a unfolding duration_anomalies_def Let_def ms prod.case
      by (auto simp del: lit_Cons split: if_splits) (intro exI, rule refl)
    then show ?thesis using a by (auto simp: detail_text_def elim: duration_anomaly_cause)
  qed
  ultimately show ?thesis using assms by (elim disjE) simp_all
qed

text \<open>The texts of a report: its details, its type, severity and summary.\<close>

definition anomaly_text :: "anomaly \<Rightarrow> bool" where
  "anomaly_text a \<longleftrightarrow> detail_text (an_detail a) \<and> an_type a \<in> {unusual_time, high_frequency, long_duration}"

lemma summary_text:
  assumes "\<forall>a \<in> set as. anomaly_text a" and "as \<noteq> []"
  shows "detail_text (join (lit ''; '') (map an_detail (take 3 as)))"
proof -
  have "list_all field_text (map an_detail (take 3 as))"
    using assms(1) by (auto simp: list_all_iff anomaly_text_def detail_text_def dest: in_set_takeD)
  then have "field_text (join (lit ''; '') (map an_detail (take 3 as)))"
    by (intro field_text_join) simp_all
  moreover obtain x xs where xs: "as = x # xs" using assms(2) by (cases as) auto
  moreover have "115 \<in> set (an_detail x)" using assms(1) xs by (simp add: anomaly_text_def detail_text_def)
  ultimately show ?thesis
    by (cases "map an_detail (take 2 xs)") (simp_all add: numeral_3_eq_3 numeral_2_eq_2 detail_text_def)
qed

lemma assess_texts:
  assumes "assess uid as = Some R" and "\<forall>a \<in> set as. anomaly_text a"
  shows "\<forall>a \<in> set (ar_details R). anomaly_text a"
    and "ar_type R \<in> {unusual_time, high_frequency, long_duration, lit ''composite''}"
    and "ar_severity R \<in> {lit ''low'', lit ''medium'', lit ''high''}"
    and "detail_text (ar_summary R)"
proof -
  have some: "as \<noteq> []" using assms(1) by (auto simp: assess_def)
  note R = assms(1) [unfolded assess_def Let_def if_not_P [OF some] option.inject, symmetric]
  show "\<forall>a \<in> set (ar_details R). anomaly_text a" using assms(2) by (simp add: R)
  have "anomaly_text (hd as)" using assms(2) some by simp
  then have "an_type (hd as) \<in> {unusual_time, high_frequency, long_duration}" by (simp add: anomaly_text_def)
  then show "ar_type R \<in> {unusual_time, high_frequency, long_duration, lit ''composite''}"
    by (auto simp: R simp del: lit_Cons)
  show "ar_severity R \<in> {lit ''low'', lit ''medium'', lit ''high''}"
    by (simp add: R escalate_def base_severity_def del: lit_Cons)
  show "detail_text (ar_summary R)"
    using summary_text [OF assms(2) some] by (simp add: R detail_text_def)
qed

lemma report_texts:
  assumes "analyze_sessions k uid bs rs = Some R"
  shows "\<forall>a \<in> set (ar_details R). anomaly_text a"
    and "ar_type R \<in> {unusual_time, high_frequency, long_duration, lit ''composite''}"
    and "ar_severity R \<in> {lit ''low'', lit ''medium'', lit ''high''}"
    and "detail_text (ar_summary R)"
proof -
  let ?as = "time_anomalies (filter connected bs) (filter connected rs) @
    frequency_anomalies k (filter connected bs) (filter connected rs) @ duration_anomalies k bs rs"
  have R: "assess uid ?as = Some R" using assms by (simp add: analyze_sessions_def Let_def)
  have all: "\<forall>a \<in> set ?as. anomaly_text a"
    using anomaly_texts by (simp only: anomaly_text_def) (metis Un_iff set_append)
  show "\<forall>a \<in> set (ar_details R). anomaly_text a"
    "ar_type R \<in> {unusual_time, high_frequency, long_duration, lit ''composite''}"
    "ar_severity R \<in> {lit ''low'', lit ''medium'', lit ''high''}" "detail_text (ar_summary R)"
    using assess_texts [OF R all] by - assumption+
qed

subsection \<open>The details as JSON\<close>

lemma field_text_scan_digits [simp]: "field_text (scan_digits s)"
  by (auto simp: scan_digits_def list_all_iff dest!: set_takeWhileD field_char_digit)

lemma field_text_number: "scan_number t = Some (JFloat t, []) \<Longrightarrow> field_text t"
proof -
  assume "scan_number t = Some (JFloat t, [])"
  then have "\<exists>a b c. t = int_part a @ frac_part b @ exp_part c"
    by (simp add: scan_number_def Let_def split: if_splits) (metis append_assoc)+
  then obtain a b c where t: "t = int_part a @ frac_part b @ exp_part c" by blast
  have "field_text (int_part a)" using field_text_scan_digits by (auto simp: int_part_def Let_def)
  moreover have "field_text (frac_part b)" by (simp add: frac_part_def)
  moreover have "field_text (exp_part c)" by (auto simp: exp_part_def Let_def)
  ultimately show ?thesis by (simp add: t)
qed

lemma field_text_float: "float_text t \<Longrightarrow> field_text t"
  using field_text_number by (auto simp: float_text_def)

lemma hex_digit_field: "field_char (hex_digit (n mod 16))"
  using pos_mod_bound [of 16 n] pos_mod_sign [of 16 n] by (auto simp: hex_digit_def)

lemma u_escape_field [simp]: "field_text (u_escape u)"
  by (simp add: u_escape_def hex_digit_field)

lemma field_text_escape:
  assumes "field_char c"
  shows "field_text (escape_ascii c)"
proof (cases "short_escape c")
  case (Some e)
  then have "field_text e" by (auto simp: short_escape_def split: if_splits)
  then show ?thesis using Some by (simp add: escape_ascii_def)
qed (use assms in \<open>simp add: escape_ascii_def\<close>)

lemma field_text_quoted: "field_text s \<Longrightarrow> field_text (quoted compact s)"
  by (auto simp: quoted_def compact_def list_all_iff dest!: field_text_escape)

lemma field_text_anomaly:
  assumes "anomaly_text a" and "float_text (de_repr D (an_z a))"
  shows "field_text (json_print compact l (anomaly_json D a))" and "json_ok (anomaly_json D a)"
proof -
  have t: "field_text (an_type a)" "field_text (an_detail a)"
    using assms(1) by (auto simp: anomaly_text_def detail_text_def unusual_time_def high_frequency_def long_duration_def)
  have scalars: "list_all scalar s" if "field_text s" for s
    using that by (simp add: list_all_iff field_char_def)
  have q: "field_text (quoted compact (lit k))" if "field_text (lit k)" for k
    using that by (rule field_text_quoted)
  have sep: "lay_sep compact n = [44, 32]" "lay_break compact n = []" for n by (simp_all add: compact_def)
  show "field_text (json_print compact l (anomaly_json D a))"
    using field_text_quoted [OF t(1)] field_text_quoted [OF t(2)] field_text_float [OF assms(2)]
      q [of "''type''"] q [of "''detail''"] q [of "''z_score''"]
    by (simp add: anomaly_json_def sep)
  show "json_ok (anomaly_json D a)"
    using scalars [OF t(1)] scalars [OF t(2)] assms(2) by (simp add: anomaly_json_def scalar_def)
qed

lemma details_text:
  assumes "\<forall>a \<in> set as. anomaly_text a \<and> float_text (de_repr D (an_z a))"
  shows "field_text (json_dumps (JList (map (anomaly_json D) as)))" (is "field_text ?t")
    and "convert (json_dumps (JList (map (anomaly_json D) as))) = VStr (json_dumps (JList (map (anomaly_json D) as)))"
    and "json_loads (json_dumps (JList (map (anomaly_json D) as))) = Inr (JList (map (anomaly_json D) as))"
proof -
  have sep: "lay_sep compact n = [44, 32]" "lay_break compact n = []" for n by (simp_all add: compact_def)
  have items: "list_all field_text (map (json_print compact 1) (map (anomaly_json D) as))"
    unfolding list.pred_set [of field_text] using assms field_text_anomaly(1) by fastforce
  show "field_text ?t"
    using field_text_join [OF _ items, of "[44, 32]"] by (simp add: json_dumps_def sep)
  show "convert ?t = VStr ?t"
    by (rule convert_text [of 91]) (simp_all add: json_dumps_def)
  show "json_loads ?t = Inr (JList (map (anomaly_json D) as))"
    using assms field_text_anomaly(2) by (intro json_round_trip(1)) (auto simp: list_all_iff)
qed

subsection \<open>The report that is read back\<close>

lemma report_words:
  "\<forall>t \<in> {unusual_time, high_frequency, long_duration, lit ''composite'', lit ''low'', lit ''medium'', lit ''high''}.
    convert t = VStr t \<and> field_text t"
  by code_simp

lemma get_report_run:
  assumes "bind_params E report_query [report_id] = Inr stmt" and "\<not> db_closed s"
    and "sq_call E [lit ''sqlcipher'', sq_path E] (shell_input (sq_password E) stmt) (db_world s) =
      (Inr (0, shell_output [row], err), w)"
    and "2 \<le> length row" and "\<forall>f \<in> set row. 10 \<notin> set f \<and> 60 \<notin> set f"
  shows "get_anomaly_report E False report_id s =
    Some (Inr (Some (zip report_columns (map convert row))), s\<lparr>db_world := w\<rparr>)"
proof -
  have "parse_rows (shell_output [row]) = [map convert row]"
    using parse_shell_output [of "[row]"] assms(4,5) by simp
  then show ?thesis
    using assms(1-3)
    by (simp add: get_anomaly_report_def with_conn_def execute_def bound_sql_def db_run_def run_simps comp_def)
qed

text \<open>
  C21. What the detector finds is what the analyst reads: when the shell answers the query for a report
  with the row of the detector's result (its details stored as the JSON text that \<open>main\<close> inserts, the
  other fields free of line feeds and \<open><\<close>), the report that \<open>get_anomaly_report\<close> gives has the type,
  severity and summary of the result, as strings, and its \<open>details_json\<close> loads to the list of the
  anomalies with their type, detail and z-score: neither the separator of the shell's output nor the
  conversion of fields to numbers ever changes a report.
\<close>

theorem detected_report_is_read_back:
  assumes "analyze_sessions threshold user_id baseline recent = Some R"
    and "\<forall>x. float_text (de_repr D x)" and "\<not> db_closed s"
    and "bind_params E report_query [report_id] = Inr stmt"
    and "sq_call E [lit ''sqlcipher'', sq_path E] (shell_input (sq_password E) stmt) (db_world s) =
      (Inr (0, shell_output [[rid, uid, ar_type R, ar_severity R, ar_summary R,
        json_dumps (JList (map (anomaly_json D) (ar_details R))), created, status]], err), w)"
    and "\<forall>f \<in> {rid, uid, created, status}. 10 \<notin> set f \<and> 60 \<notin> set f"
  shows "\<exists>report. get_anomaly_report E False report_id s = Some (Inr (Some report), s\<lparr>db_world := w\<rparr>) \<and>
    row_item report (lit ''anomaly_type'') = Inr (VStr (ar_type R)) \<and>
    row_item report (lit ''severity'') = Inr (VStr (ar_severity R)) \<and>
    row_item report (lit ''summary'') = Inr (VStr (ar_summary R)) \<and>
    bindE (row_item report (lit ''details_json'')) loads_val = Inr (JList (map (anomaly_json D) (ar_details R)))"
proof -
  let ?details = "json_dumps (JList (map (anomaly_json D) (ar_details R)))"
  let ?row = "[rid, uid, ar_type R, ar_severity R, ar_summary R, ?details, created, status]"
  note texts = report_texts [OF assms(1)]
  have "\<forall>a \<in> set (ar_details R). anomaly_text a \<and> float_text (de_repr D (an_z a))"
    using texts(1) assms(2) by blast
  note details = details_text [OF this]
  have names: "convert (ar_type R) = VStr (ar_type R) \<and> field_text (ar_type R)"
    "convert (ar_severity R) = VStr (ar_severity R) \<and> field_text (ar_severity R)"
    using texts(2,3) report_words by auto
  have summary: "convert (ar_summary R) = VStr (ar_summary R)" "field_text (ar_summary R)"
    using texts(4) convert_text [of 115] by (auto simp: detail_text_def)
  have free: "10 \<notin> set f \<and> 60 \<notin> set f" if "field_text f" for f
    using that by (auto simp: list_all_iff field_char_def)
  have "\<forall>f \<in> set ?row. 10 \<notin> set f \<and> 60 \<notin> set f"
    using assms(6) free [of "ar_type R"] free [of "ar_severity R"] free [OF summary(2)] free [OF details(1)] names
    by simp
  from get_report_run [OF assms(4,3,5) _ this]
  have "get_anomaly_report E False report_id s =
      Some (Inr (Some (zip report_columns (map convert ?row))), s\<lparr>db_world := w\<rparr>)" by simp
  then show ?thesis
    using names summary(1) details(2,3)
    by (intro exI [of _ "zip report_columns (map convert ?row)"])
      (simp add: report_columns_def pending_columns_def row_item_def loads_val_def bindE_def)
qed

definition stored_row :: "'w detect_env \<Rightarrow> anomaly_result \<Rightarrow> pystr list" where
  "stored_row D R = [lit ''1'', lit ''b'', ar_type R, ar_severity R, ar_summary R,
     json_dumps (JList (map (anomaly_json D) (ar_details R))), lit ''2024-01-01 01:00:00'', lit ''pending'']"

theorem detected_report_is_read_back_witness:
  defines "D \<equiv> (bob_env [])\<lparr>de_repr := (\<lambda>x. lit ''0.0'')\<rparr>" and "s \<equiv> \<lparr>db_closed = False, db_world = ()\<rparr>"
  shows "\<exists>R report. analyze_sessions (5 / 2) (VStr [98]) nights [night\<lparr>ss_time := 3600\<rparr>] = Some R \<and>
    get_anomaly_report (de_sql (bob_env (shell_output [stored_row D R]))) False (VInt 1) s =
      Some (Inr (Some report), s) \<and>
    row_item report (lit ''severity'') = Inr (VStr (ar_severity R)) \<and>
    bindE (row_item report (lit ''details_json'')) loads_val = Inr (JList (map (anomaly_json D) (ar_details R)))"
proof -
  obtain R where R: "analyze_sessions (5 / 2) (VStr [98]) nights [night\<lparr>ss_time := 3600\<rparr>] = Some R"
    using rare_hour_example by blast
  let ?E = "de_sql (bob_env (shell_output [stored_row D R]))"
  have repr: "\<forall>x. float_text (de_repr D x)"
  proof -
    have "float_text (lit ''0.0'')" by code_simp
    then show ?thesis by (simp add: D_def del: lit_Cons)
  qed
  define E where "E = ?E"
  have bound: "bind_params E report_query [VInt 1] = Inr (butlast report_query @ dec_int 1)"
    by (simp add: report_query_def sql_literal_def bindE_def)
  have answer: "sq_call E [lit ''sqlcipher'', sq_path E] (shell_input (sq_password E)
      (butlast report_query @ dec_int 1)) (db_world s) = (Inr (0, shell_output [[lit ''1'', lit ''b'', ar_type R,
        ar_severity R, ar_summary R, json_dumps (JList (map (anomaly_json D) (ar_details R))),
        lit ''2024-01-01 01:00:00'', lit ''pending'']], []), ())"
    by (simp add: E_def bob_env_def stored_row_def)
  have free: "\<forall>f \<in> {lit ''1'', lit ''b'', lit ''2024-01-01 01:00:00'', lit ''pending''}. 10 \<notin> set f \<and> 60 \<notin> set f"
    by code_simp
  have open_s: "\<not> db_closed s" and same: "s\<lparr>db_world := ()\<rparr> = s" by (simp_all add: s_def)
  from detected_report_is_read_back [OF R repr open_s bound answer free]
  show ?thesis unfolding same E_def using R by blast
qed

subsection \<open>The list of pending reports\<close>

lemma converted_field: "\<exists>t. format_field E w (convert f) = Inr t"
  by (auto simp: convert_def format_field_def split: sum.split)

text \<open>A row of the pending query for a report of the detector.\<close>

definition pending_row :: "'w detect_env \<Rightarrow> anomaly_result \<Rightarrow> pystr list \<Rightarrow> bool" where
  "pending_row D R fs \<longleftrightarrow> (\<exists>rid uid created. fs = [rid, uid, ar_type R, ar_severity R, ar_summary R,
     json_dumps (JList (map (anomaly_json D) (ar_details R))), created])"

lemma pending_line_shows:
  assumes "analyze_sessions threshold user_id baseline recent = Some R" and "pending_row D R fs"
  shows "\<exists>front. pending_line E (zip pending_columns (map convert fs)) = Inr (front @ take 60 (ar_summary R))"
proof -
  obtain rid uid created where fs: "fs = [rid, uid, ar_type R, ar_severity R, ar_summary R,
      json_dumps (JList (map (anomaly_json D) (ar_details R))), created]"
    using assms(2) by (auto simp: pending_row_def)
  have summary: "convert (ar_summary R) = VStr (ar_summary R)"
    using report_texts(4) [OF assms(1)] convert_text [of 115] by (auto simp: detail_text_def)
  obtain a b c d e where formats: "format_field E 6 (convert rid) = Inr a" "format_field E 12 (convert uid) = Inr b"
    "format_field E 16 (convert (ar_type R)) = Inr c" "format_field E 8 (convert (ar_severity R)) = Inr d"
    "format_field E 20 (convert created) = Inr e"
    using converted_field by metis
  show ?thesis
    by (simp add: fs pending_line_def pending_columns_def row_item_def formats summary bindE_def)
qed

lemma each_line_all:
  assumes "\<forall>r \<in> set rs. \<exists>line. f r = Inr line \<and> P r line"
  shows "\<exists>lines. each_line f rs = Inr lines \<and> list_all2 P rs lines"
  using assms by (induction rs) (auto simp: bindE_def)

text \<open>
  The list of the pending reports never fails on reports of the detector, and shows one line for each
  after the two lines of its head, in the order of the query, ending with the start of its summary.
\<close>

lemma list_pending_shows_reports:
  assumes "get_pending_anomalies E True s = Some (Inr (map (\<lambda>fs. zip pending_columns (map convert fs)) rows), s')"
    and "rows \<noteq> []"
    and "\<forall>fs \<in> set rows. \<exists>k u b r. analyze_sessions k u b r = Some (report fs) \<and> pending_row D (report fs) fs"
  shows "\<exists>lines. list_pending E s = Some (Inr (pending_header # replicate 90 45 # lines), s') \<and>
    list_all2 (\<lambda>fs line. \<exists>front. line = front @ take 60 (ar_summary (report fs))) rows lines"
proof -
  let ?row = "\<lambda>fs. zip pending_columns (map convert fs)"
  have "\<forall>fs \<in> set rows. \<exists>line. pending_line E (?row fs) = Inr line \<and>
      (\<exists>front. line = front @ take 60 (ar_summary (report fs)))"
    using assms(3) pending_line_shows by metis
  from each_line_all [OF this] obtain lines where
    lines: "each_line (\<lambda>fs. pending_line E (?row fs)) rows = Inr lines"
    "list_all2 (\<lambda>fs line. \<exists>front. line = front @ take 60 (ar_summary (report fs))) rows lines" by blast
  moreover have "each_line f (map g rs) = each_line (\<lambda>r. f (g r)) rs" for f and g :: "pystr list \<Rightarrow> row" and rs
    by (induction rs) simp_all
  ultimately show ?thesis
    using assms(1,2) by (simp add: list_pending_def run_simps del: lit_Cons)
qed

end
