(* ===== verification/ReportPdf.thy ===== *)
theory ReportPdf
  imports Complex_Main LlmResponse DbAccess
begin

text \<open>
  \<open>src/ai/generate_report_pdf.py\<close>: a JSON report becomes a sequence of calls of the \<open>fpdf\<close> library,
  kept here as values in the order they are made. An exception of the code ends the sequence; those of
  the library are not modelled. \<open>pdf_env\<close> has what Python does to values that are not ASCII text: the
  \<open>str\<close> of floats, lists and objects and the case mappings of the other characters.
\<close>

datatype pdf_opt = Fill | Border | NextLine | Centred

datatype pdf_call =
    SetFont pystr pystr nat
  | Cell real real pystr "pdf_opt list"
  | MultiCell real real pystr "pdf_opt list"
  | Ln real
  | TextColor int int int
  | FillColor int int int
  | SetY int
  | AliasNbPages
  | AutoPageBreak int
  | AddPage
  | Output pystr

record pdf_env =
  pe_str :: "json \<Rightarrow> pystr"
  pe_lower :: "pychar \<Rightarrow> pystr"
  pe_upper :: "pychar \<Rightarrow> pystr"

fun all_calls :: "(exn + 'a list) list \<Rightarrow> exn + 'a list" where
  "all_calls [] = Inr []"
| "all_calls (m # ms) = bindE m (\<lambda>xs. bindE (all_calls ms) (\<lambda>ys. Inr (xs @ ys)))"

subsection \<open>Values\<close>

definition str_json :: "pdf_env \<Rightarrow> json \<Rightarrow> pystr" where
  "str_json E v = (case v of
      JNull \<Rightarrow> lit ''None'' | JBool b \<Rightarrow> (if b then lit ''True'' else lit ''False'') | JInt i \<Rightarrow> dec_int i
    | JStr s \<Rightarrow> s | _ \<Rightarrow> pe_str E v)"

definition lower :: "pdf_env \<Rightarrow> pystr \<Rightarrow> pystr" where
  "lower E s = concat (map (\<lambda>c. if 65 \<le> c \<and> c \<le> 90 then [c + 32] else if c < 128 then [c] else pe_lower E c) s)"

definition upper :: "pdf_env \<Rightarrow> pystr \<Rightarrow> pystr" where
  "upper E s = concat (map (\<lambda>c. if 97 \<le> c \<and> c \<le> 122 then [c - 32] else if c < 128 then [c] else pe_upper E c) s)"

text \<open>\<open>v.get(k, d)\<close>: only an object has a \<open>get\<close>.\<close>

definition json_get :: "json \<Rightarrow> pystr \<Rightarrow> json \<Rightarrow> exn + json" where
  "json_get v k d = (case v of
      JDict kvs \<Rightarrow> Inr (case map_of kvs k of None \<Rightarrow> d | Some x \<Rightarrow> x)
    | _ \<Rightarrow> Inl AttributeError)"

definition json_true :: "json \<Rightarrow> bool" where
  "json_true v = (case v of
      JNull \<Rightarrow> False | JBool b \<Rightarrow> b | JInt i \<Rightarrow> i \<noteq> 0 | JFloat t \<Rightarrow> \<not> float_is_zero t
    | JStr s \<Rightarrow> s \<noteq> [] | JList vs \<Rightarrow> vs \<noteq> [] | JDict kvs \<Rightarrow> kvs \<noteq> [])"

text \<open>\<open>for x in v\<close>\<close>

definition json_iter :: "json \<Rightarrow> exn + json list" where
  "json_iter v = (case v of
      JList vs \<Rightarrow> Inr vs | JDict kvs \<Rightarrow> Inr (map (\<lambda>(k, _). JStr k) kvs) | JStr s \<Rightarrow> Inr (map (\<lambda>c. JStr [c]) s)
    | _ \<Rightarrow> Inl TypeError)"

text \<open>\<open>v[:n]\<close> and \<open>len(v)\<close> of a list or a text\<close>

definition json_seq :: "json \<Rightarrow> exn + json list" where
  "json_seq v = (case v of
      JList vs \<Rightarrow> Inr vs | JStr s \<Rightarrow> Inr (map (\<lambda>c. JStr [c]) s) | _ \<Rightarrow> Inl TypeError)"

subsection \<open>The page\<close>

definition RISK_COLORS :: "(pystr \<times> int \<times> int \<times> int) list" where
  "RISK_COLORS = [(lit ''benign'', 46, 125, 50), (lit ''suspicious'', 245, 124, 0), (lit ''malicious'', 198, 40, 40)]"

definition pdf_header :: "pdf_call list" where
  "pdf_header = [SetFont (lit ''Helvetica'') (lit ''B'') 16,
     Cell 0 10 (lit ''Security Analysis Report'') [Centred, NextLine], Ln 2]"

definition pdf_footer :: "nat \<Rightarrow> pdf_call list" where
  "pdf_footer page_no = [SetY (-15), SetFont (lit ''Helvetica'') (lit ''I'') 8, TextColor 128 128 128,
     Cell 0 10 (lit ''Page '' @ dec_nat page_no @ lit ''/{nb}'') [Centred]]"

definition section_title :: "pystr \<Rightarrow> pdf_call list" where
  "section_title title = [SetFont (lit ''Helvetica'') (lit ''B'') 13, TextColor 33 33 33, FillColor 230 230 230,
     Cell 0 8 (lit ''  '' @ title) [Fill, NextLine], Ln 2]"

definition label_value :: "pdf_env \<Rightarrow> pystr \<Rightarrow> json \<Rightarrow> pdf_call list" where
  "label_value E label v = [SetFont (lit ''Helvetica'') (lit ''B'') 10, TextColor 80 80 80,
     Cell 45 6 (label @ lit '':'') [], SetFont (lit ''Helvetica'') [] 10, TextColor 33 33 33,
     MultiCell 0 6 (str_json E v) [NextLine]]"

text \<open>\<open>self.label_value(label, d.get(k, default))\<close>\<close>

definition labelled :: "pdf_env \<Rightarrow> pystr \<Rightarrow> json \<Rightarrow> pystr \<Rightarrow> json \<Rightarrow> exn + pdf_call list" where
  "labelled E label v k d = bindE (json_get v k d) (\<lambda>x. Inr (label_value E label x))"

definition risk_badge :: "pdf_env \<Rightarrow> json \<Rightarrow> exn + pdf_call list" where
  "risk_badge E risk_level = (case risk_level of
      JStr s \<Rightarrow> (case (case map_of RISK_COLORS s of None \<Rightarrow> (128, 128, 128) | Some c \<Rightarrow> c) of (r, g, b) \<Rightarrow>
        Inr [SetFont (lit ''Helvetica'') (lit ''B'') 12, TextColor 255 255 255, FillColor r g b,
          Cell 50 8 (lit ''  '' @ upper E s @ lit ''  '') [Fill, NextLine], TextColor 33 33 33, Ln 3])
    | JList _ \<Rightarrow> Inl TypeError
    | JDict _ \<Rightarrow> Inl TypeError
    | _ \<Rightarrow> Inl AttributeError)"

subsection \<open>The sections of the report\<close>

definition detail_line :: "pdf_env \<Rightarrow> json \<Rightarrow> exn + pdf_call list" where
  "detail_line E d =
     bindE (json_get d (lit ''type'') (JStr (lit ''unknown''))) (\<lambda>detail_type.
     bindE (json_get d (lit ''detail'') (JStr (str_json E d))) (\<lambda>detail_text.
     bindE (json_get d (lit ''z_score'') (JStr [])) (\<lambda>z.
     Inr [MultiCell 0 4 (lit ''  ['' @ str_json E detail_type @ lit ''] '' @ str_json E detail_text @ lit '' (z='' @
       str_json E z @ lit '')'') [NextLine]])))"

definition details_section :: "pdf_env \<Rightarrow> json \<Rightarrow> exn + pdf_call list" where
  "details_section E details =
     (if \<not> json_true details then Inr []
      else bindE (json_iter details) (\<lambda>ds. all_calls
        (Inr [Ln 2, SetFont (lit ''Helvetica'') (lit ''B'') 10, Cell 0 6 (lit ''Anomaly Details:'') [NextLine],
           SetFont (lit ''Courier'') [] 8] # map (detail_line E) ds)))"

definition finding_row :: "pdf_env \<Rightarrow> json \<Rightarrow> exn + pdf_call list" where
  "finding_row E finding =
     bindE (json_get finding (lit ''line'') (JStr (lit ''?''))) (\<lambda>line.
     bindE (json_get finding (lit ''category'') (JStr [])) (\<lambda>cat.
     bindE (json_get finding (lit ''concern'') (JStr [])) (\<lambda>concern.
     Inr [Cell 15 6 (str_json E line) [Border], Cell 45 6 (take 30 (str_json E cat)) [Border],
       MultiCell 0 6 (str_json E concern) [Border, NextLine]])))"

definition findings_section :: "pdf_env \<Rightarrow> json \<Rightarrow> exn + pdf_call list" where
  "findings_section E findings =
     (if \<not> json_true findings then Inr []
      else bindE (json_iter findings) (\<lambda>fs. all_calls
        (Inr [Ln 3, SetFont (lit ''Helvetica'') (lit ''B'') 10, Cell 0 6 (lit ''Findings:'') [NextLine], Ln 1,
           SetFont (lit ''Helvetica'') (lit ''B'') 9, FillColor 200 200 200, Cell 15 6 (lit ''Line'') [Border, Fill],
           Cell 45 6 (lit ''Category'') [Border, Fill], Cell 0 6 (lit ''Concern'') [Border, Fill, NextLine],
           SetFont (lit ''Helvetica'') [] 8] # map (finding_row E) fs)))"

definition alarm_words :: "pystr list" where
  "alarm_words = [lit ''/etc/shadow'', lit ''chmod 777'', lit ''nc -l'', lit ''reverse'', lit ''backdoor'',
     lit ''nmap'', lit ''payload'', lit ''/etc/sudoers'', lit ''useradd'', lit ''[FILTERED'']"

definition highlighted :: "pdf_env \<Rightarrow> pystr \<Rightarrow> bool" where
  "highlighted E cmd = list_ex (\<lambda>kw. has_infix kw (lower E cmd)) alarm_words"

definition clipped :: "pystr \<Rightarrow> pystr" where
  "clipped line = (if length line > 120 then take 117 line @ lit ''...'' else line)"

definition command_line :: "pdf_env \<Rightarrow> nat \<times> json \<Rightarrow> exn + pdf_call list" where
  "command_line E ic = (case ic of (i, cmd) \<Rightarrow>
     (case cmd of
        JStr s \<Rightarrow> Inr
          [if highlighted E s then TextColor 198 40 40 else TextColor 33 33 33,
           Cell 0 (7 / 2) (clipped (rjust 4 (dec_nat i) @ lit ''| '' @ s)) [NextLine]]
      | _ \<Rightarrow> Inl AttributeError))"

definition commands_section :: "pdf_env \<Rightarrow> json \<Rightarrow> exn + pdf_call list" where
  "commands_section E commands =
     bindE (json_seq commands) (\<lambda>cmds. all_calls
       (map (command_line E) (enumerate 1 (take 200 cmds)) @
        [Inr (if length cmds > 200
           then [TextColor 128 128 128, Cell 0 4 (lit ''  ... and '' @ dec_nat (length cmds - 200) @
             lit '' more commands'') [NextLine]]
           else [])]))"

definition report_calls :: "pdf_env \<Rightarrow> json \<Rightarrow> exn + pdf_call list" where
  "report_calls E data =
     bindE (json_get data (lit ''report_metadata'') (JDict [])) (\<lambda>meta.
     bindE (json_get data (lit ''user'') (JDict [])) (\<lambda>user.
     bindE (json_get data (lit ''anomaly'') (JDict [])) (\<lambda>anomaly.
     bindE (json_get data (lit ''command_analysis'') (JDict [])) (\<lambda>analysis.
     bindE (json_get data (lit ''command_history'') (JList [])) (\<lambda>commands.
     all_calls
       [Inr [AliasNbPages, AutoPageBreak 20, AddPage],
        Inr (section_title (lit ''Report Metadata'')),
        labelled E (lit ''Generated'') meta (lit ''generated_at'') (JStr (lit ''N/A'')),
        labelled E (lit ''Anomaly ID'') meta (lit ''anomaly_report_id'') (JStr (lit ''N/A'')),
        labelled E (lit ''LLM Model'') meta (lit ''model'') (JStr (lit ''N/A'')),
        Inr [Ln 3],
        Inr (section_title (lit ''User Information'')),
        labelled E (lit ''User ID'') user (lit ''user_id'') (JStr (lit ''N/A'')),
        labelled E (lit ''Container ID'') user (lit ''container_id'') (JStr (lit ''N/A'')),
        Inr [Ln 3],
        Inr (section_title (lit ''Anomaly Detection (AI 1)'')),
        labelled E (lit ''Type'') anomaly (lit ''type'') (JStr (lit ''N/A'')),
        labelled E (lit ''Severity'') anomaly (lit ''severity'') (JStr (lit ''N/A'')),
        labelled E (lit ''Summary'') anomaly (lit ''summary'') (JStr (lit ''N/A'')),
        bindE (json_get anomaly (lit ''details'') (JList [])) (details_section E),
        Inr [Ln 3],
        Inr (section_title (lit ''Command Analysis (AI 2)'')),
        bindE (json_get analysis (lit ''risk_level'') (JStr (lit ''unknown''))) (risk_badge E),
        labelled E (lit ''Summary'') analysis (lit ''summary'') (JStr (lit ''N/A'')),
        labelled E (lit ''Recommendation'') analysis (lit ''recommendation'') (JStr (lit ''N/A'')),
        labelled E (lit ''Commands Analyzed'') data (lit ''commands_analyzed'') (JInt 0),
        bindE (json_get analysis (lit ''findings'') (JList [])) (findings_section E),
        Inr [Ln 3],
        Inr (section_title (lit ''Command History (sanitized)'')),
        Inr [SetFont (lit ''Courier'') [] 7],
        commands_section E commands,
        Inr [TextColor 33 33 33]])))))"

text \<open>\<open>json_path.rsplit(".", 1)[0]\<close>\<close>

definition stem :: "pystr \<Rightarrow> pystr" where
  "stem path = (if 46 \<in> set path then rev (tl (dropWhile (\<lambda>c. c \<noteq> 46) (rev path))) else path)"

definition generate_pdf :: "pdf_env \<Rightarrow> pystr \<Rightarrow> pystr \<Rightarrow> pystr option \<Rightarrow> exn + pystr \<times> pdf_call list" where
  "generate_pdf E json_path text output_path =
     bindE (json_loads text) (\<lambda>data.
     let out = (if output_path = None \<or> output_path = Some [] then stem json_path @ lit ''.pdf'' else the output_path) in
     bindE (report_calls E data) (\<lambda>calls. Inr (out, calls @ [Output out])))"

definition pdf_main :: "pdf_env \<Rightarrow> bool \<Rightarrow> exn + pystr \<Rightarrow> pystr \<Rightarrow> pystr option \<Rightarrow> exn + pystr \<times> pdf_call list" where
  "pdf_main E found text json_file output =
     (if \<not> found then Inl (SystemExit 1)
      else bindE text (\<lambda>t. generate_pdf E json_file t output))"

end
