(* ===== verification/ReportProps.thy ===== *)
theory ReportProps
  imports ReportPdf AnalysisProps
begin

text \<open>
  The PDF report: what it shows of the commands, which lines it marks, and the way of a report from
  \<open>save_json_report\<close> through its file to the calls that draw it.
\<close>

subsection \<open>Sequences of calls\<close>

lemma all_calls_ok: "(\<And>m. m \<in> set ms \<Longrightarrow> \<exists>x. m = Inr x) \<Longrightarrow> \<exists>x. all_calls ms = Inr x"
proof (induction ms)
  case (Cons m ms)
  obtain x where "m = Inr x" using Cons.prems by auto
  moreover obtain y where "all_calls ms = Inr y" using Cons.IH Cons.prems by auto
  ultimately show ?case by simp
qed simp

lemma all_calls_Inr: "all_calls (map (\<lambda>x. Inr (f x)) xs) = Inr (concat (map f xs))"
  by (induction xs) auto

lemma all_calls_append: "all_calls (xs @ ys) = bindE (all_calls xs) (\<lambda>a. bindE (all_calls ys) (\<lambda>b. Inr (a @ b)))"
proof (induction xs)
  case Nil
  show ?case by (cases "all_calls ys") simp_all
next
  case (Cons m xs)
  then show ?case by (cases m; cases "all_calls xs"; cases "all_calls ys") simp_all
qed

lemma all_calls_part:
  assumes "all_calls ms = Inr out" and "m \<in> set ms"
  obtains a x b where "m = Inr x" and "out = a @ x @ b"
proof -
  obtain us vs where "ms = us @ m # vs" using assms(2) by (meson split_list)
  then show thesis using assms(1) that by (auto simp: all_calls_append bindE_Inr_iff)
qed

subsection \<open>The commands on the page\<close>

definition numbered_line :: "nat \<times> pystr \<Rightarrow> pystr" where
  "numbered_line ic = (case ic of (i, s) \<Rightarrow> rjust 4 (dec_nat i) @ lit ''| '' @ s)"

text \<open>The texts that are drawn in cells of the height of a command line.\<close>

definition command_texts :: "pdf_call list \<Rightarrow> pystr list" where
  "command_texts calls = concat (map (\<lambda>c. case c of Cell w h t opts \<Rightarrow> if h = 7 / 2 then [t] else [] | _ \<Rightarrow> []) calls)"

lemma length_clipped: "length (clipped s) \<le> 120"
  by (simp add: clipped_def)

lemma command_lines:
  "all_calls (map (command_line E) (map (\<lambda>(i, s). (i, JStr s)) ics)) =
    Inr (concat (map (\<lambda>(i, s). [if highlighted E s then TextColor 198 40 40 else TextColor 33 33 33,
      Cell 0 (7 / 2) (clipped (numbered_line (i, s))) [NextLine]]) ics))"
  by (induction ics) (auto simp: command_line_def numbered_line_def simp del: lit_Cons)

lemma enumerate_map: "enumerate n (map f xs) = map (\<lambda>(i, x). (i, f x)) (enumerate n xs)"
  by (induction xs arbitrary: n) auto

lemma commands_section_run:
  "commands_section E (JList (map JStr cmds)) = Inr (concat (map (\<lambda>(i, s).
      [if highlighted E s then TextColor 198 40 40 else TextColor 33 33 33,
       Cell 0 (7 / 2) (clipped (numbered_line (i, s))) [NextLine]]) (enumerate 1 (take 200 cmds))) @
    (if length cmds > 200 then [TextColor 128 128 128,
       Cell 0 4 (lit ''  ... and '' @ dec_nat (length cmds - 200) @ lit '' more commands'') [NextLine]] else []))"
  unfolding commands_section_def json_seq_def json.case bindE_simps take_map enumerate_map all_calls_append command_lines
  by simp

lemma command_texts_append: "command_texts (a @ b) = command_texts a @ command_texts b"
  by (simp add: command_texts_def)


subsection \<open>Marked lines\<close>

lemma has_infix_set: "has_infix needle s \<Longrightarrow> set needle \<subseteq> set s"
  by (auto simp: has_infix_def list_ex_iff dest: in_set_dropD in_set_takeD) (metis in_set_dropD in_set_takeD)

lemma lower_no_capital:
  assumes "\<forall>c. \<forall>x \<in> set (pe_lower E c). \<not> (65 \<le> x \<and> x \<le> 90)" and "x \<in> set (lower E s)"
  shows "\<not> (65 \<le> x \<and> x \<le> 90)"
  using assms by (auto simp: lower_def split: if_splits)

lemma lower_small: "(\<forall>c \<in> set s. c < 128 \<and> \<not> (65 \<le> c \<and> c \<le> 90)) \<Longrightarrow> lower E s = s"
  by (induction s) (auto simp: lower_def)

text \<open>The characters of a mark in lower case, its number included.\<close>

definition mark_chars :: "pystr" where
  "mark_chars = lit ''[filtered: line 0123456789]''"

lemma alarm_words_last: "alarm_words = butlast alarm_words @ [lit ''[FILTERED'']"
  by (simp add: alarm_words_def del: lit_Cons)

lemma alarm_words_leave_mark: "\<forall>kw \<in> set (butlast alarm_words). \<exists>c \<in> set kw. c \<notin> set mark_chars"
  by (simp add: alarm_words_def mark_chars_def)

lemma lower_mark: "set (lower E (filtered_mark n)) \<subseteq> set mark_chars"
proof -
  have "is_digit c" if "c \<in> set (dec_nat n)" for c using dec_nat_digits that by blast
  then have d: "set (dec_nat n) \<subseteq> {48..57}" by (auto simp: is_digit_def)
  then have "lower E (dec_nat n) = dec_nat n" by (intro lower_small) force
  then have "lower E (filtered_mark n) = lit ''[filtered: line '' @ dec_nat n @ lit '']''"
    by (simp add: filtered_mark_def lower_def)
  moreover have "{48..57} \<subseteq> set mark_chars"
    by (auto simp: mark_chars_def) presburger
  moreover have "set (lit ''[filtered: line '') \<subseteq> set mark_chars" "set (lit '']'') \<subseteq> set mark_chars"
    by (simp_all add: mark_chars_def)
  ultimately show ?thesis using d by (simp del: lit_Cons)
qed

lemma mark_has_no_word: "list_ex (\<lambda>kw. has_infix kw (lower E (filtered_mark n))) (butlast alarm_words) = False"
proof -
  have "\<not> has_infix kw (lower E (filtered_mark n))" if alarm: "kw \<in> set (butlast alarm_words)" for kw
  proof
    assume "has_infix kw (lower E (filtered_mark n))"
    then have "set kw \<subseteq> set mark_chars" using has_infix_set lower_mark by blast
    moreover obtain c where "c \<in> set kw" "c \<notin> set mark_chars"
      using bspec [OF alarm_words_leave_mark alarm] by blast
    ultimately show False by blast
  qed
  then show ?thesis by (simp add: list_ex_iff)
qed

text \<open>
  C40. The last of the alarm words is never found: a command is searched in lower case, so the mark
  that the sanitizer leaves in the place of an injection attempt is not marked red.
\<close>

theorem filtered_mark_is_not_highlighted:
  assumes "\<forall>c. \<forall>x \<in> set (pe_lower E c). \<not> (65 \<le> x \<and> x \<le> 90)"
  shows "highlighted E s = list_ex (\<lambda>kw. has_infix kw (lower E s)) (butlast alarm_words) \<and>
    \<not> highlighted E (filtered_mark n)"
proof -
  have caps: "has_infix (lit ''[FILTERED'') (lower E s) = False" for s
  proof -
    have "70 \<notin> set (lower E s)" using lower_no_capital [OF assms] by force
    moreover have "70 \<in> set (lit ''[FILTERED'')" by simp
    ultimately show ?thesis using has_infix_set by blast
  qed
  have h: "highlighted E s = list_ex (\<lambda>kw. has_infix kw (lower E s)) (butlast alarm_words)" for s
    unfolding highlighted_def by (subst alarm_words_last) (simp add: caps del: lit_Cons)
  show ?thesis by (simp only: h mark_has_no_word simp_thms)
qed

definition plain_pdf :: pdf_env where
  "plain_pdf = \<lparr>pe_str = (\<lambda>v. []), pe_lower = (\<lambda>c. if c < 128 then [] else [c]),
     pe_upper = (\<lambda>c. if c < 128 then [] else [c])\<rparr>"

theorem filtered_mark_is_not_highlighted_witness:
  "highlighted plain_pdf (lit ''rm'') = list_ex (\<lambda>kw. has_infix kw (lower plain_pdf (lit ''rm''))) (butlast alarm_words) \<and>
    \<not> highlighted plain_pdf (filtered_mark 7)"
  by (rule filtered_mark_is_not_highlighted) (simp add: plain_pdf_def)

subsection \<open>From the analysis to the page\<close>

definition is_object :: "json \<Rightarrow> bool" where
  "is_object v = (case v of JDict _ \<Rightarrow> True | _ \<Rightarrow> False)"

lemma rows_ok:
  "list_all is_object vs \<Longrightarrow> \<exists>calls. details_section E (JList vs) = Inr calls"
  "list_all is_object vs \<Longrightarrow> \<exists>calls. findings_section E (JList vs) = Inr calls"
proof -
  have d: "\<exists>x. detail_line E v = Inr x" "\<exists>x. finding_row E v = Inr x" if "is_object v" for v
    using that by (auto simp: is_object_def detail_line_def finding_row_def json_get_def split: json.splits simp del: lit_Cons)
  show "\<exists>calls. details_section E (JList vs) = Inr calls" if "list_all is_object vs"
    using that d(1) by (auto simp: details_section_def json_iter_def list_all_iff simp del: lit_Cons all_calls.simps
        intro!: all_calls_ok)
  show "\<exists>calls. findings_section E (JList vs) = Inr calls" if "list_all is_object vs"
    using that d(2) by (auto simp: findings_section_def json_iter_def list_all_iff simp del: lit_Cons all_calls.simps
        intro!: all_calls_ok)
qed

lemma risk_badge_ok: "\<exists>calls. risk_badge E (JStr s) = Inr calls"
  by (simp add: risk_badge_def split: prod.split)

lemma labelled_ok: "\<exists>calls. labelled E label (JDict kvs) k d = Inr calls"
  by (simp add: labelled_def json_get_def)



end
