(* ===== verification/Config.thy ===== *)
theory Config
  imports AnomalyDetect
begin

text \<open>
  \<open>src/ai/config.py\<close>: the settings, read from the environment when the module is imported, and how the
  connection and the detector get theirs. The double that \<open>float\<close> makes of the threshold's text is a
  parameter (\<open>to_real\<close>).
\<close>

record config =
  cf_db_password :: "pystr option"
  cf_db_path :: pystr
  cf_llm_api_key :: pystr
  cf_llm_api_url :: pystr
  cf_llm_model :: pystr
  cf_window_days :: int
  cf_z_threshold :: pystr
  cf_homes_dir :: pystr

definition environ_get :: "(pystr \<rightharpoonup> pystr) \<Rightarrow> pystr \<Rightarrow> pystr \<Rightarrow> pystr" where
  "environ_get environ name fallback = (case environ name of None \<Rightarrow> fallback | Some v \<Rightarrow> v)"

definition load_config :: "(pystr \<rightharpoonup> pystr) \<Rightarrow> exn + config" where
  "load_config environ =
     bindE (py_int (environ_get environ (lit ''ANOMALY_WINDOW_DAYS'') (lit ''30''))) (\<lambda>window_days.
     bindE (py_float (environ_get environ (lit ''ANOMALY_Z_THRESHOLD'') (lit ''2.5''))) (\<lambda>z_threshold.
     Inr \<lparr>cf_db_password = environ (lit ''DB_PASSWORD''),
       cf_db_path = environ_get environ (lit ''DB_PATH'') (lit ''encrypted_users.db''),
       cf_llm_api_key = environ_get environ (lit ''LLM_API_KEY'') [],
       cf_llm_api_url = environ_get environ (lit ''LLM_API_URL'') (lit ''http://localhost:11434/api/chat''),
       cf_llm_model = environ_get environ (lit ''LLM_MODEL'') (lit ''qwen2.5:3b''),
       cf_window_days = window_days, cf_z_threshold = z_threshold,
       cf_homes_dir = environ_get environ (lit ''HOMES_DIR'') (lit ''./homes'')\<rparr>))"

text \<open>The detector's environment under a configuration.\<close>

definition configured :: "config \<Rightarrow> (pystr \<Rightarrow> real) \<Rightarrow> 'w detect_env \<Rightarrow> 'w detect_env" where
  "configured c to_real D = D\<lparr>de_sql := (de_sql D)\<lparr>sq_password := cf_db_password c, sq_path := cf_db_path c\<rparr>,
     de_window := cf_window_days c, de_threshold := to_real (cf_z_threshold c)\<rparr>"

text \<open>Import fails for a window that is no integer or a threshold that is no float, and for no other setting.\<close>

lemma load_config_fails_iff:
  "(\<exists>e. load_config environ = Inl e) \<longleftrightarrow>
    (\<exists>days. environ (lit ''ANOMALY_WINDOW_DAYS'') = Some days \<and> (\<exists>e. py_int days = Inl e)) \<or>
    (\<exists>z. environ (lit ''ANOMALY_Z_THRESHOLD'') = Some z \<and> (\<exists>e. py_float z = Inl e))"
proof -
  have d: "py_int (lit ''30'') = Inr 30" "py_float (lit ''2.5'') = Inr (lit ''2.5'')" by code_simp+
  show ?thesis
    unfolding load_config_def environ_get_def
    by (cases "environ (lit ''ANOMALY_WINDOW_DAYS'')"; cases "environ (lit ''ANOMALY_Z_THRESHOLD'')")
      (auto simp: d bindE_def simp del: lit_Cons split: sum.splits)
qed

lemma window_days_default:
  "load_config environ = Inr c \<Longrightarrow> environ (lit ''ANOMALY_WINDOW_DAYS'') = None \<Longrightarrow> cf_window_days c = 30"
proof -
  have d: "py_int (lit ''30'') = Inr 30" by code_simp
  assume "load_config environ = Inr c" and "environ (lit ''ANOMALY_WINDOW_DAYS'') = None"
  then show ?thesis
    by (auto simp: load_config_def environ_get_def d bindE_def simp del: lit_Cons split: sum.splits)
qed

end
