(* ===== verification/PromptFlow.thy ===== *)
theory PromptFlow
  imports AnalysisProps
begin

text \<open>
  The way from the database and the shell histories to the language model: fields of rows and lines of
  histories hold no line feed, and so every prompt that \<open>analyze_anomaly\<close> sends keeps the commands
  between its marks.
\<close>

subsection \<open>Texts of one line\<close>

lemma split_newline_free: "x \<in> set (split_str [c] s) \<Longrightarrow> c \<notin> set x"
proof (induction s arbitrary: x)
  case (Cons a s)
  then show ?case using split_str_nonempty [of "[c]" s] by (cases "split_str [c] s") (auto split: if_splits)
qed simp

lemma join_chars: "p \<in> set ps \<Longrightarrow> set p \<subseteq> set (join sep ps)"
  by (induction ps rule: induct_list012) auto

lemma split_chars: "x \<in> set (split_str sep s) \<Longrightarrow> set x \<subseteq> set s"
  using join_chars [of x "split_str sep s" sep] by (simp add: join_split)

definition one_line :: "pyval \<Rightarrow> bool" where
  "one_line v \<longleftrightarrow> (case v of VStr s \<Rightarrow> 10 \<notin> set s | _ \<Rightarrow> True)"

lemma convert_one_line: "10 \<notin> set s \<Longrightarrow> one_line (convert s)"
  by (simp add: one_line_def convert_def split: sum.split)

text \<open>A row of the shell's output is one line of it.\<close>

lemma parse_rows_one_line:
  assumes "r \<in> set (parse_rows output)" and "v \<in> set r"
  shows "one_line v"
proof -
  obtain line f where "line \<in> set (split_str newline (rstrip_by (\<lambda>c. c = 10) output))"
    "f \<in> set (split_str SEP line)" "v = convert f"
    using assms by (auto simp: parse_rows_def split: if_splits)
  then show ?thesis
    using split_newline_free [of line 10] split_chars [of f SEP line] by (auto simp: newline_def intro: convert_one_line)
qed

lemma execute_one_line: "yields (\<lambda>rows. \<forall>r \<in> set rows. \<forall>v \<in> set r. one_line v) (execute E sql params)"
  unfolding execute_def by (intro yields_then yields_ret) (use parse_rows_one_line in blast)

abbreviation row_one_line :: "row \<Rightarrow> bool" where
  "row_one_line r \<equiv> \<forall>(k, v) \<in> set r. one_line v"

lemma report_one_line:
  "yields (\<lambda>found. \<forall>r. found = Some r \<longrightarrow> row_one_line r) (get_anomaly_report E False report_id)"
proof -
  have "yields (\<lambda>found. \<forall>r. found = Some r \<longrightarrow> row_one_line r)
      (ret (if rows \<noteq> [] then Some (zip report_columns (hd rows)) else None))"
    if "\<forall>r \<in> set rows. \<forall>v \<in> set r. one_line v" for rows
    by (rule yields_ret) (use that hd_in_set [of rows] in \<open>auto dest!: set_zip_rightD\<close>)
  then show ?thesis
    unfolding get_anomaly_report_def with_conn_def by simp (rule yields_bindP [OF execute_one_line])
qed

lemma item_one_line: "row_one_line r \<Longrightarrow> row_item r k = Inr v \<Longrightarrow> one_line v"
  by (auto simp: row_item_def split: option.splits dest!: map_of_SomeD)

lemma text_of_one_line:
  "one_line v \<Longrightarrow> \<forall>t. 10 \<notin> set (fl_str E t) \<Longrightarrow> 10 \<notin> set (str_val E v)"
  using dec_nat_digits [of 10] by (auto simp: one_line_def str_val_def dec_int_def is_digit_def split: pyval.splits)

lemma read_lines_one_line: "yields (\<lambda>ls. \<forall>l \<in> set ls. 10 \<notin> set l) (read_lines E paths)"
proof (induction paths)
  case (Cons path paths)
  have free: "\<forall>l \<in> set (splitlines whole). 10 \<notin> set l" for whole
    using splitlines_no_break by (force simp: is_break_def line_breaks_def)
  have first: "yields (\<lambda>ls. \<forall>l \<in> set ls. 10 \<notin> set l)
      (if found then bindP (db_call (os_read_text E path)) (\<lambda>text. ret (splitlines text)) else ret [])" for found
    using free by (auto intro: yields_then yields_ret)
  show ?case
    unfolding read_lines.simps
    by (rule yields_then, rule yields_bindP [OF first], rule yields_bindP [OF Cons.IH], rule yields_ret) auto
qed (simp add: yields_ret)

lemma history_one_line: "yields (\<lambda>ls. \<forall>l \<in> set ls. 10 \<notin> set l) (read_shell_history E place user_id)"
  unfolding read_shell_history_def by (intro yields_then read_lines_one_line)

subsection \<open>Safe prompts\<close>

text \<open>
  A safe prompt has one begin and one end mark among its lines, and between them only numbered lines that
  no injection pattern matches, at most 500 of them, each of at most 200 characters without its number.
\<close>

definition safe_prompt :: "pystr \<Rightarrow> bool" where
  "safe_prompt prompt \<longleftrightarrow> (\<exists>pre lines post.
     split_str [10] prompt = pre @ BEGIN_MARK #
       map (\<lambda>(i, line). lit ''  '' @ rjust 4 (dec_nat i) @ lit ''| '' @ line) (enumerate 1 lines) @
       END_MARK # post \<and>
     BEGIN_MARK \<notin> set (pre @ post) \<and> END_MARK \<notin> set (pre @ post) \<and> length lines \<le> 500 \<and>
     (\<forall>l \<in> set lines. length l \<le> 200 \<and> \<not> list_ex (\<lambda>p. search p l) INJECTION_PATTERNS))"

lemma built_prompt_safe:
  assumes "\<forall>l \<in> set raw. 10 \<notin> set l" and "10 \<notin> set user_id" and "10 \<notin> set summary" and "raw \<noteq> []"
  shows "safe_prompt (build_analysis_prompt (fst (sanitize_commands raw)) user_id summary)"
proof -
  obtain pre post where "split_str [10] (build_analysis_prompt (fst (sanitize_commands raw)) user_id summary) =
      pre @ BEGIN_MARK #
        map (\<lambda>(i, line). lit ''  '' @ rjust 4 (dec_nat i) @ lit ''| '' @ line)
          (enumerate 1 (snd (sanitize_commands raw))) @ END_MARK # post"
    "BEGIN_MARK \<notin> set (pre @ post)" "END_MARK \<notin> set (pre @ post)"
    using prompt_data_stays_inside [OF assms] by blast
  moreover have "\<forall>l \<in> set (snd (sanitize_commands raw)). \<not> list_ex (\<lambda>p. search p l) INJECTION_PATTERNS"
    using filter_clean by (simp add: sanitize_commands_def Let_def clean_def)
  moreover have "length (snd (sanitize_commands raw)) \<le> 500"
    "\<forall>l \<in> set (snd (sanitize_commands raw)). length l \<le> 200"
    using sanitize_bounds(1) [of raw] sanitize_bounds(2) [of _ raw] by auto
  ultimately show ?thesis unfolding safe_prompt_def by blast
qed

subsection \<open>Every prompt that is sent\<close>

definition preserves :: "('w \<Rightarrow> bool) \<Rightarrow> ('w \<Rightarrow> 'a \<times> 'w) \<Rightarrow> bool" where
  "preserves I f \<longleftrightarrow> (\<forall>w. I w \<longrightarrow> I (snd (f w)))"

abbreviation holds :: "('w \<Rightarrow> bool) \<Rightarrow> 'w db \<Rightarrow> bool" where
  "holds I \<equiv> (\<lambda>s. I (db_world s))"

lemma preserves_keeps: "preserves I f \<Longrightarrow> keeps (holds I) (db_call f)"
  by (auto simp: keeps_def preserves_def db_call_run split: prod.splits)

text \<open>\<open>I\<close> is not touched by the clock, the files and the commands that are run.\<close>

definition rest_preserves :: "('w \<Rightarrow> bool) \<Rightarrow> 'w analysis_env \<Rightarrow> bool" where
  "rest_preserves I E \<longleftrightarrow>
     preserves I (ae_now E) \<and> (\<forall>p x. preserves I (ae_write_text E p x)) \<and>
     (\<forall>p. preserves I (os_read_text (ae_os E) p)) \<and> preserves I (os_mkstemp (ae_os E)) \<and>
     (\<forall>p k. preserves I (os_write_key (ae_os E) p k)) \<and> (\<forall>p. preserves I (os_unlink (ae_os E) p)) \<and>
     (\<forall>p. preserves I (os_makedirs (ae_os E) p)) \<and> (\<forall>a. preserves I (os_run (ae_os E) a))"

lemma rest_preservesD:
  assumes "rest_preserves I E"
  shows "preserves I (ae_now E)" and "preserves I (ae_write_text E p x)"
    and "preserves I (os_read_text (ae_os E) p)" and "preserves I (os_mkstemp (ae_os E))"
    and "preserves I (os_write_key (ae_os E) p k)" and "preserves I (os_unlink (ae_os E) p)"
    and "preserves I (os_makedirs (ae_os E) p)" and "preserves I (os_run (ae_os E) c)"
  using assms unfolding rest_preserves_def by blast+

text \<open>\<open>I\<close> is true of the world as long as no prompt is sent that is not safe.\<close>

definition marks_posts :: "('w \<Rightarrow> bool) \<Rightarrow> 'w analysis_env \<Rightarrow> bool" where
  "marks_posts I E \<longleftrightarrow> rest_preserves I E \<and> (\<forall>a i. preserves I (sq_call (ae_sql E) a i)) \<and>
     (\<forall>prompt. safe_prompt prompt \<longrightarrow> preserves I (ae_post E (llm_body E prompt)))"

lemma marks_postsD:
  assumes "marks_posts I E"
  shows "safe_prompt prompt \<Longrightarrow> preserves I (ae_post E (llm_body E prompt))"
    and "preserves I (sq_call (ae_sql E) a i)" and "rest_preserves I E"
  using assms unfolding marks_posts_def by blast+

lemma database_keeps:
  assumes "marks_posts I E"
  shows "keeps (holds I) (execute (ae_sql E) sql params)"
    and "keeps (holds I) (execute_insert (ae_sql E) sql params)"
proof -
  have run: "keeps (holds I) (db_run (ae_sql E) sql)" for sql
    unfolding db_run_def by (intro keeps_intros preserves_keeps marks_postsD [OF assms])
  show "keeps (holds I) (execute (ae_sql E) sql params)" "keeps (holds I) (execute_insert (ae_sql E) sql params)"
    unfolding execute_def execute_insert_def by (intro keeps_intros bound_sql_calm run)+
qed

lemma statements_keep:
  assumes "marks_posts I E"
  shows "keeps (holds I) (get_sessions (ae_sql E) False u since)"
    and "keeps (holds I) (get_anomaly_report (ae_sql E) False n)"
    and "keeps (holds I) (get_container_key (ae_sql E) False u c)"
    and "keeps (holds I) (insert_command_report (ae_sql E) False a u c x r)"
    and "keeps (holds I) (get_connection (ae_sql E))"
    and "keeps (holds I) db_close"
  unfolding get_sessions_def get_anomaly_report_def get_container_key_def insert_command_report_def
    get_connection_def with_conn_def db_close_def
  by (simp_all del: lit_Cons) (intro keeps_intros database_keeps [OF assms]; simp)+

lemma volume_keeps:
  assumes "rest_preserves I E"
  shows "keeps (holds I) (mount_volume (ae_os E) c key)" and "keeps (holds I) (unmount_volume (ae_os E) c)"
  unfolding mount_volume_def open_volume_def unmount_volume_def world_is_def Let_def
  by (intro keeps_intros preserves_keeps rest_preservesD [OF assms])+

lemma clock_preserves: "preserves I f \<Longrightarrow> preserves I (\<lambda>w. case f w of (t, w') \<Rightarrow> (Inr t, w'))"
  by (auto simp: preserves_def split: prod.split)

lemma read_lines_keeps: "rest_preserves I E \<Longrightarrow> keeps (holds I) (read_lines (ae_os E) paths)"
proof (induction paths)
  case (Cons path paths)
  show ?case unfolding read_lines.simps world_is_def
    by (intro keeps_intros preserves_keeps rest_preservesD [OF Cons.prems] Cons.IH Cons.prems)
qed (simp add: keeps_intros)

lemma files_keep:
  assumes "rest_preserves I E"
  shows "keeps (holds I) (read_shell_history (ae_os E) place user_id)"
    and "keeps (holds I) (save_json_report E n report user_id c result cmds)"
proof -
  show "keeps (holds I) (read_shell_history (ae_os E) place user_id)"
    unfolding read_shell_history_def by (intro keeps_intros read_lines_keeps assms)
  show "keeps (holds I) (save_json_report E n report user_id c result cmds)"
    unfolding save_json_report_def Let_def
    by (intro keeps_intros preserves_keeps rest_preservesD [OF assms] clock_preserves)
qed

lemma history_keeps:
  assumes "marks_posts I E" and "\<forall>t. 10 \<notin> set (fl_str (ae_sql E) t)"
    and "row_one_line report" and "one_line user_id"
  shows "keeps (holds I) (analyze_history E n report user_id c place)"
proof -
  note m = marks_postsD [OF assms(1)]
  note files = files_keep [OF m(3)]
  have call: "keeps (holds I) (call_llm E prompt)" if "safe_prompt prompt" for prompt
    unfolding call_llm_def by (intro keeps_intros preserves_keeps m(1) that)
  have summary: "yields one_line (lift_exn (row_item report (lit ''summary'')))"
    by (rule yields_lift_exn) (rule item_one_line [OF assms(3)])
  have safe: "safe_prompt (build_analysis_prompt formatted (ae_str E user_id) (ae_str E summary))"
    if "\<forall>l \<in> set commands. 10 \<notin> set l" "commands \<noteq> []" "one_line summary"
      "sanitize_commands commands = (formatted, filtered)" for commands summary formatted filtered
    using built_prompt_safe [OF that(1) text_of_one_line [OF assms(4,2)] text_of_one_line [OF that(3) assms(2)] that(2)]
      that(4) by simp
  show ?thesis
    unfolding analyze_history_def
    by (rule keeps_bindP_yields [OF files(1) history_one_line], rule keeps_if, rule keeps_intros, rule keeps_case_prod,
        rule keeps_bindP_yields [OF keeps_basic(3) summary])
      (intro keeps_intros call safe files(2) statements_keep [OF assms(1)]; assumption)
qed

lemma containers_keep:
  assumes "marks_posts I E" and "\<forall>t. 10 \<notin> set (fl_str (ae_sql E) t)"
    and "row_one_line report" and "one_line user_id"
  shows "keeps (holds I) (analyze_containers E n report user_id cs)"
proof (induction cs)
  case (Cons c cs)
  have "keeps (holds I) (analyze_container E n report user_id c)"
    unfolding analyze_container_def world_is_def
    by (intro keeps_intros volume_keeps marks_postsD(3) history_keeps statements_keep assms)
  then show ?case unfolding analyze_containers.simps by (intro keeps_intros Cons.IH)
qed (simp add: keeps_intros)

lemma analyze_report_keeps:
  assumes "marks_posts I E" and "\<forall>t. 10 \<notin> set (fl_str (ae_sql E) t)"
  shows "keeps (holds I) (analyze_report E n)"
proof -
  have rest: "keeps (holds I) (case found of None \<Rightarrow> ret 1 | Some report \<Rightarrow>
      if report = [] then ret 1
      else bindP (lift_exn (row_item report (lit ''user_id''))) (\<lambda>user_id.
        bindP (lift_exn (row_item report (lit ''anomaly_type''))) (\<lambda>_.
        bindP (lift_exn (bindE (row_item report (lit ''details_json'')) loads_val)) (\<lambda>_.
        bindP (get_sessions (ae_sql E) False user_id None) (\<lambda>sessions.
        bindP (lift_exn (connected_containers sessions)) (\<lambda>cs.
        let container_ids = ae_set E cs in
        if container_ids = [] then ret 1
        else bindP (analyze_containers E n report user_id container_ids) (\<lambda>_. ret 0)))))))"
    if "\<forall>r. found = Some r \<longrightarrow> row_one_line r" for found
  proof (rule keeps_case_option, rule keeps_intros, rule keeps_if, rule keeps_intros)
    fix report
    assume "found = Some report"
    then have report: "row_one_line report" using that by blast
    have "yields one_line (lift_exn (row_item report (lit ''user_id'')))"
      by (rule yields_lift_exn) (rule item_one_line [OF report])
    then show "keeps (holds I) (bindP (lift_exn (row_item report (lit ''user_id''))) (\<lambda>user_id.
        bindP (lift_exn (row_item report (lit ''anomaly_type''))) (\<lambda>_.
        bindP (lift_exn (bindE (row_item report (lit ''details_json'')) loads_val)) (\<lambda>_.
        bindP (get_sessions (ae_sql E) False user_id None) (\<lambda>sessions.
        bindP (lift_exn (connected_containers sessions)) (\<lambda>cs.
        let container_ids = ae_set E cs in
        if container_ids = [] then ret 1
        else bindP (analyze_containers E n report user_id container_ids) (\<lambda>_. ret 0)))))))"
      unfolding Let_def
      by (rule keeps_bindP_yields [OF keeps_basic(3)])
        (intro keeps_intros statements_keep containers_keep assms report; assumption)
  qed
  show ?thesis
    unfolding analyze_report_def
    by (rule keeps_bindP_yields [OF statements_keep(2) [OF assms(1)] report_one_line]) (rule rest)
qed

lemma analyze_anomaly_returns: "comes_back (\<lambda>_. True) (analyze_anomaly E n)"
proof -
  have all: "comes_back (\<lambda>_. True) (analyze_containers E n report u cs)" for report u cs
  proof (induction cs)
    case (Cons c cs)
    show ?case unfolding analyze_containers.simps
      by (intro total_intros keeps_True analyze_container_returns Cons.IH)
  qed (simp add: total_intros)
  show ?thesis
    unfolding analyze_anomaly_def analyze_report_def Let_def by (intro total_intros keeps_True all)
qed

text \<open>
  C8. The language model is only ever sent safe prompts: \<open>analyze_anomaly\<close> comes back, and what stays true
  of the world while only safe prompts are sent is true after it, whatever the database, the shell
  histories and the model's answers hold and however the run ends. (That \<open>str\<close> of a float has no
  line feed is assumed.)
\<close>

theorem only_safe_prompts_are_sent:
  assumes "marks_posts I E" and "\<forall>t. 10 \<notin> set (fl_str (ae_sql E) t)" and "I (db_world s)"
  shows "\<exists>r s'. analyze_anomaly E anomaly_id s = Some (r, s') \<and> I (db_world s')"
proof -
  have "keeps (holds I) (analyze_anomaly E anomaly_id)"
    unfolding analyze_anomaly_def
    by (intro keeps_intros analyze_report_keeps [OF assms(1,2)] statements_keep [OF assms(1)])
  moreover obtain r s' where "analyze_anomaly E anomaly_id s = Some (r, s')"
    using comes_backD [OF analyze_anomaly_returns] by blast
  ultimately show ?thesis using assms(3) by (blast dest: keepsD)
qed

definition log_row :: pystr where
  "log_row = join SEP [lit ''AA'', lit ''bob'', lit ''c1'', lit ''ssh_connected'', lit ''x'', lit ''[]'', lit ''t'', lit ''pending'']"

text \<open>A world that is the list of the posted bodies.\<close>

definition log_env :: "json list analysis_env" where
  "log_env = \<lparr>ae_os =
       \<lparr>os_sql = \<lparr>sq_password = None, sq_path = [], sq_call = (\<lambda>argv input w. (Inr (0, log_row @ newline, []), w)),
          fl_str = (\<lambda>t. [48])\<rparr>,
        os_homes = lit ''h'', os_exists = (\<lambda>p w. True), os_ismount = (\<lambda>p w. True), os_isdir = (\<lambda>p w. False),
        os_mkstemp = (\<lambda>w. (Inr [], w)), os_write_key = (\<lambda>p k w. (Inr (), w)), os_unlink = (\<lambda>p w. (Inr (), w)),
        os_makedirs = (\<lambda>p w. (Inr (), w)), os_run = (\<lambda>a w. (Inr (0, []), w)),
        os_read_text = (\<lambda>p w. (Inr (lit ''ls''), w))\<rparr>,
     ae_model = lit ''m'', ae_requests = True, ae_post = (\<lambda>body w. (Inl OSError, w @ [body])),
     ae_now = (\<lambda>w. ((lit ''t'', lit ''s''), w)), ae_write_text = (\<lambda>p x w. (Inr (), w)),
     ae_set = remdups, ae_float = (\<lambda>t. t)\<rparr>"

definition all_safe :: "json list \<Rightarrow> bool" where
  "all_safe w \<longleftrightarrow> (\<forall>body \<in> set w. \<exists>prompt. body = llm_body log_env prompt \<and> safe_prompt prompt)"

lemma log_env_marks: "marks_posts all_safe log_env"
  unfolding marks_posts_def rest_preserves_def preserves_def by (auto simp: log_env_def all_safe_def)

lemma log_row_read: "parse_rows (log_row @ newline) = [map convert
    [lit ''AA'', lit ''bob'', lit ''c1'', lit ''ssh_connected'', lit ''x'', lit ''[]'', lit ''t'', lit ''pending'']]"
  by code_simp

theorem only_safe_prompts_are_sent_witness:
  "\<exists>body s'. analyze_anomaly log_env 1 \<lparr>db_closed = True, db_world = []\<rparr> = Some (Inl OSError, s') \<and>
    db_world s' = [body] \<and> (\<exists>prompt. body = llm_body log_env prompt \<and> safe_prompt prompt)"
proof -
  have "case analyze_anomaly log_env 1 \<lparr>db_closed = True, db_world = []\<rparr> of
      Some (Inl OSError, s') \<Rightarrow> length (db_world s') = 1 | _ \<Rightarrow> False"
    by code_simp
  then obtain body s' where r: "analyze_anomaly log_env 1 \<lparr>db_closed = True, db_world = []\<rparr> = Some (Inl OSError, s')"
    "db_world s' = [body]" by (auto simp: length_Suc_conv split: option.splits prod.splits sum.splits exn.splits)
  have "\<exists>r t. analyze_anomaly log_env 1 \<lparr>db_closed = True, db_world = []\<rparr> = Some (r, t) \<and> all_safe (db_world t)"
    by (rule only_safe_prompts_are_sent [OF log_env_marks]) (simp_all add: log_env_def all_safe_def)
  then have "all_safe (db_world s')" using r(1) by auto
  then show ?thesis using r by (auto simp: all_safe_def)
qed

end
