(* ===== verification/AnswerFlow.thy ===== *)
theory AnswerFlow
  imports PromptFlow DetectorRun
begin

text \<open>
  The way from the language model to the database: the statements of an analysis are queries and
  insertions of checked answers, whatever the model says.
\<close>

definition sqlcipher :: "'w sql_env \<Rightarrow> pystr \<Rightarrow> 'w \<Rightarrow> (exn + int \<times> pystr \<times> pystr) \<times> 'w" where
  "sqlcipher S sql = sq_call S [lit ''sqlcipher'', sq_path S] (shell_input (sq_password S) sql)"

text \<open>
  The insertion of a checked answer: its text is that of an object with the expected fields, and its risk
  level is that of the object, one of the three.
\<close>

definition checked_insert :: "'w sql_env \<Rightarrow> pystr \<Rightarrow> bool" where
  "checked_insert S sql \<longleftrightarrow> (\<exists>n u c d r stmt. expected_answer d \<and> risk_of d = Inr r \<and> r \<in> set valid_risk \<and>
     bind_params S command_report_insert [VInt n, u, c, VStr (json_dumps d), VStr r] = Inr stmt \<and>
     sql = insert_script stmt)"

text \<open>\<open>I\<close> is true of the world as long as the database only gets queries and checked answers.\<close>

definition stores_checked :: "('w \<Rightarrow> bool) \<Rightarrow> 'w analysis_env \<Rightarrow> bool" where
  "stores_checked I E \<longleftrightarrow> rest_preserves I E \<and> (\<forall>body. preserves I (ae_post E body)) \<and>
     select_keeps I (ae_sql E) \<and>
     (\<forall>sql. checked_insert (ae_sql E) sql \<longrightarrow> preserves I (sqlcipher (ae_sql E) sql))"

lemma stores_checkedD:
  assumes "stores_checked I E"
  shows "rest_preserves I E" and "preserves I (ae_post E body)" and "select_keeps I (ae_sql E)"
    and "checked_insert (ae_sql E) sql \<Longrightarrow> preserves I (sqlcipher (ae_sql E) sql)"
  using assms unfolding stores_checked_def by blast+

lemma db_run_keeps: "preserves I (sqlcipher S sql) \<Longrightarrow> keeps (holds I) (db_run S sql)"
  unfolding db_run_def by (intro keeps_intros preserves_keeps) (simp add: sqlcipher_def)

lemma checked_insert_keeps:
  assumes "stores_checked I E" and "expected_answer d" and "risk_of d = Inr r" and "r \<in> set valid_risk"
  shows "keeps (holds I) (insert_command_report (ae_sql E) False (VInt n) u c (json_dumps d) r)"
proof -
  let ?S = "ae_sql E" and ?ps = "[VInt n, u, c, VStr (json_dumps d), VStr r]"
  have bound: "yields (\<lambda>stmt. bind_params ?S command_report_insert ?ps = Inr stmt)
      (bound_sql ?S command_report_insert ?ps)"
    unfolding bound_sql_def by (simp del: bind_params.simps) (rule yields_lift_exn)
  have "keeps (holds I) (db_run ?S (insert_script stmt))"
    if "bind_params ?S command_report_insert ?ps = Inr stmt" for stmt
  proof (intro db_run_keeps stores_checkedD(4) [OF assms(1)])
    show "checked_insert ?S (insert_script stmt)" unfolding checked_insert_def using that assms(2-4) by blast
  qed
  then have "keeps (holds I) (execute_insert ?S command_report_insert ?ps)"
    unfolding execute_insert_def
    by (intro keeps_bindP_yields [OF bound_sql_calm bound] keeps_bindP keeps_basic)
  then show ?thesis by (simp add: insert_command_report_def with_conn_def)
qed

lemma analysis_queries_keep:
  assumes "select_keeps I S"
  shows "keeps (holds I) (get_anomaly_report S False n)" and "keeps (holds I) (get_container_key S False u c)"
proof -
  have lits: "report_query = lit ''SELECT'' @ drop 6 report_query"
    "lit ''SELECT hex(container_key) FROM containers WHERE user_id = ? AND container_id = ?'' =
      lit ''SELECT'' @ lit '' hex(container_key) FROM containers WHERE user_id = ? AND container_id = ?''"
    by (simp_all add: report_query_def)
  note ex = execute_keeps [OF assms]
  show "keeps (holds I) (get_anomaly_report S False n)"
    unfolding get_anomaly_report_def with_conn_def
    by (subst lits) (simp del: lit_Cons, intro keeps_intros ex)
  show "keeps (holds I) (get_container_key S False u c)"
    unfolding get_container_key_def with_conn_def lits
    by (simp del: lit_Cons) (intro keeps_intros ex)
qed

lemma final_result_expected: "final_result response = Inr d \<Longrightarrow> expected_answer d"
  using stored_result_has_the_schema by blast

lemma stored_answer_keeps:
  assumes "stores_checked I E"
  shows "keeps (holds I) (analyze_history E n report u c place)"
proof -
  note s = stores_checkedD [OF assms]
  note files = files_keep [OF s(1)]
  have call: "keeps (holds I) (call_llm E prompt)" for prompt
    unfolding call_llm_def by (intro keeps_intros preserves_keeps s(2))
  have final: "yields expected_answer (lift_exn (final_result response))" for response
    by (rule yields_lift_exn) (rule final_result_expected)
  have risk: "yields (\<lambda>r. risk_of d = Inr r) (lift_exn (risk_of d))" for d
    by (rule yields_lift_exn)
  have store: "keeps (holds I) (bindP (lift_exn (risk_of d)) (\<lambda>r.
      bindP (insert_command_report (ae_sql E) False (VInt n) u c (json_dumps d) r) (\<lambda>_.
      bindP (save_json_report E n report u c d cmds) (\<lambda>filepath. ret (Some filepath)))))"
    if d: "expected_answer d" for d cmds
  proof (rule keeps_bindP_yields [OF keeps_basic(3) risk])
    fix r assume r: "risk_of d = Inr r"
    then have "r \<in> set valid_risk" using expected_risk [OF d] by auto
    then show "keeps (holds I) (bindP (insert_command_report (ae_sql E) False (VInt n) u c (json_dumps d) r) (\<lambda>_.
        bindP (save_json_report E n report u c d cmds) (\<lambda>filepath. ret (Some filepath))))"
      by (intro keeps_intros checked_insert_keeps [OF assms d r] files)
  qed
  show ?thesis
    unfolding analyze_history_def
    by (intro keeps_bindP files(1) call keeps_if keeps_basic keeps_case_prod
        keeps_bindP_yields [OF keeps_basic(3) final] store)
qed

lemma stored_analysis_keeps:
  assumes "stores_checked I E"
  shows "keeps (holds I) (analyze_anomaly E n)"
proof -
  note s = stores_checkedD [OF assms]
  have "keeps (holds I) (analyze_container E n report u c)" for report u c
    unfolding analyze_container_def world_is_def
    by (intro keeps_intros analysis_queries_keep s volume_keeps stored_answer_keeps assms)
  then have containers: "keeps (holds I) (analyze_containers E n report u cs)" for report u cs
    by (induction cs) (auto intro!: keeps_intros)
  show ?thesis
    unfolding analyze_anomaly_def analyze_report_def Let_def
    by (intro keeps_intros query_keeps [OF s(3)] analysis_queries_keep [OF s(3)] close_keeps containers)
qed

text \<open>
  C9. Only checked answers are stored: \<open>analyze_anomaly\<close> comes back, and what stays true of the world while
  the database is only queried or given answers of the expected schema, with their own risk level, is true
  after it, whatever the model answers.
\<close>

theorem only_checked_answers_are_stored:
  assumes "stores_checked I E" and "I (db_world s)"
  shows "\<exists>r s'. analyze_anomaly E anomaly_id s = Some (r, s') \<and> I (db_world s')"
proof -
  obtain r s' where "analyze_anomaly E anomaly_id s = Some (r, s')"
    using comes_backD [OF analyze_anomaly_returns] by blast
  then show ?thesis using keepsD [OF stored_analysis_keeps [OF assms(1)]] assms(2) by blast
qed

text \<open>A world that is the list of the scripts that the shell has been given.\<close>

definition store_env :: "pystr list analysis_env" where
  "store_env = \<lparr>ae_os =
       \<lparr>os_sql = \<lparr>sq_password = None, sq_path = [],
          sq_call = (\<lambda>argv script w. (Inr (0, log_row @ newline, []), w @ [script])), fl_str = (\<lambda>t. [48])\<rparr>,
        os_homes = lit ''h'', os_exists = (\<lambda>p w. True), os_ismount = (\<lambda>p w. True), os_isdir = (\<lambda>p w. False),
        os_mkstemp = (\<lambda>w. (Inr [], w)), os_write_key = (\<lambda>p k w. (Inr (), w)), os_unlink = (\<lambda>p w. (Inr (), w)),
        os_makedirs = (\<lambda>p w. (Inr (), w)), os_run = (\<lambda>a w. (Inr (0, []), w)),
        os_read_text = (\<lambda>p w. (Inr (lit ''ls''), w))\<rparr>,
     ae_model = lit ''m'', ae_requests = True,
     ae_post = (\<lambda>body w. (Inr (JDict [(lit ''message'', JDict [(lit ''content'', JStr (lit ''no''))])]), w)),
     ae_now = (\<lambda>w. ((lit ''t'', lit ''s''), w)), ae_write_text = (\<lambda>p x w. (Inr (), w)),
     ae_set = remdups, ae_float = (\<lambda>t. t)\<rparr>"

definition asked_or_checked :: "pystr list \<Rightarrow> bool" where
  "asked_or_checked w \<longleftrightarrow> (\<forall>script \<in> set w. \<exists>sql. script = shell_input None sql \<and>
     (take 6 sql = lit ''SELECT'' \<or> checked_insert (ae_sql store_env) sql))"

lemma store_env_checked: "stores_checked asked_or_checked store_env"
proof -
  have "rest_preserves asked_or_checked store_env" "\<And>body. preserves asked_or_checked (ae_post store_env body)"
    by (simp_all add: rest_preserves_def preserves_def store_env_def)
  moreover have call: "snd (sq_call (ae_sql store_env) a i w) = w @ [i]" "sq_password (ae_sql store_env) = None" for a i w
    by (simp_all add: store_env_def)
  have "select_keeps asked_or_checked (ae_sql store_env)"
    unfolding select_keeps_def call asked_or_checked_def by (auto simp del: lit_Cons)
  moreover have "preserves asked_or_checked (sqlcipher (ae_sql store_env) sql)" if "checked_insert (ae_sql store_env) sql" for sql
    using that unfolding preserves_def sqlcipher_def call asked_or_checked_def by (auto simp del: lit_Cons)
  ultimately show ?thesis unfolding stores_checked_def by blast
qed

theorem only_checked_answers_are_stored_witness:
  "\<exists>s'. analyze_anomaly store_env 1 \<lparr>db_closed = True, db_world = []\<rparr> = Some (Inr 0, s') \<and>
    length (db_world s') = 5 \<and> asked_or_checked (db_world s')"
proof -
  have "case analyze_anomaly store_env 1 \<lparr>db_closed = True, db_world = []\<rparr> of
      Some (Inr n, s') \<Rightarrow> n = 0 \<and> length (db_world s') = 5 | _ \<Rightarrow> False"
    by code_simp
  then obtain s' where s': "analyze_anomaly store_env 1 \<lparr>db_closed = True, db_world = []\<rparr> = Some (Inr 0, s')"
    "length (db_world s') = 5" by (auto split: option.splits prod.splits sum.splits)
  have "\<exists>r t. analyze_anomaly store_env 1 \<lparr>db_closed = True, db_world = []\<rparr> = Some (r, t) \<and> asked_or_checked (db_world t)"
    by (rule only_checked_answers_are_stored [OF store_env_checked]) (simp add: asked_or_checked_def)
  then show ?thesis using s' by auto
qed

end
