(* ===== verification/Spec2Isabelle.thy ===== *)
theory Spec2Isabelle
  imports ServerProps KeyToolProps Pipeline ReportProps TestDataProps Config AnswerFlow
begin

text \<open>
  The Python programs of the repository: an SSH agent whose keys never leave an ESP32, and the analysis
  of what the users of the container host do.

  \<^bold>\<open>The system.\<close> \<open>wrapper/esp32_agent_bridge.py\<close> listens on a Unix socket, takes requests of the SSH
  agent protocol and has the ESP32 at the serial port answer them; \<open>wrapper/esp32_keytool.py\<close> talks to
  the same device from the command line. On the host, the manager (C, \<open>src/manager\<close>) writes sessions
  into a SQLCipher database. \<open>src/ai/anomaly_detect.py\<close> reads them, compares the last day of a user
  with a window of days and stores a report; \<open>src/ai/command_analysis.py\<close> takes up such a report, mounts
  the encrypted volumes of the user's containers, reads the shell histories, cleans them
  (\<open>src/ai/sanitizer.py\<close>), asks a language model, and stores its checked answer in the database and as a
  JSON file, which \<open>src/ai/generate_report_pdf.py\<close> draws. All statements go through
  \<open>src/ai/db_access.py\<close>, settings through \<open>src/ai/config.py\<close>; \<open>src/ai/generate_test_data.py\<close> and
  \<open>src/ai/generate_user_baseline.py\<close> make data to try it on.

  \<^bold>\<open>How programs are modelled.\<close> A function without effects gives \<open>exn + 'a\<close>: \<open>Inl\<close> of the
  exception it raises or \<open>Inr\<close> of its value. A function with effects is a \<open>('s, 'a) prog\<close>
  (theory \<open>Effects\<close>): from a state it gives the exception or the value, with the state after it, or \<open>None\<close> if
  it never comes back (an endless loop, or a thread that takes the serial lock it holds). The state holds
  the attributes of the component's object (\<open>bridge\<close>, \<open>db\<close>) and the outside world, whose type is a
  parameter. What is not under \<open>src/\<close> (pyserial, sockets, the clock, \<open>sqlcipher\<close>, \<open>cryptsetup\<close>,
  the file system, the model server, \<open>random\<close>) is a field of an environment record (\<open>serial_env\<close>,
  \<open>sock_env\<close>, \<open>server_env\<close>, \<open>sql_env\<close>, \<open>os_env\<close>, \<open>analysis_env\<close>, \<open>detect_env\<close>, \<open>gen_env\<close>): a function on
  the world that can raise. Theorems assume of it only what they name (\<open>answering_port\<close>: a port that
  delivers a reply; \<open>chunked\<close>: a socket that delivers what the peer has sent; \<open>answers\<close>: a shell that
  answers a query from a table; and so on), and each has an instance in its witness.
  Text is a list of code points (\<open>pystr\<close>), bytes are \<open>8 word\<close>s, Python's integers are \<open>int\<close>, its floats
  real numbers, or their text where the code only passes them on.

  \<^bold>\<open>The theories.\<close>
  \<^item> \<open>Prelude\<close>, \<open>Effects\<close>: text, exceptions, slices, programs, and the rules by which invariants
    (\<open>keeps\<close>), results (\<open>yields\<close>) and termination (\<open>comes_back\<close>) of a program follow from those of its parts.
  \<^item> \<open>PyText\<close>, \<open>Regex\<close>, \<open>Json\<close>, \<open>JsonText\<close>, \<open>Codecs\<close>, \<open>Wire\<close>: the standard library as far as the
    sources use it: methods of \<open>str\<close>, \<open>re\<close>, \<open>json\<close> in both directions, hexadecimal and base 64, and
    \<open>struct\<close>.
  \<^item> \<open>SerialLink\<close> (\<open>read_packet\<close>, \<open>recv_from_esp32\<close> and the packet format), \<open>AgentBridge\<close> (the class
    \<open>ESP32AgentBridge\<close> up to \<open>handle_client\<close>), \<open>BridgeServer\<close> (\<open>start_unix_server\<close>, \<open>run\<close>, \<open>shutdown\<close>,
    \<open>main\<close>, and the process with its threads as a step relation). \<open>BridgeProps\<close>: requests end to end, and
    where they fail; \<open>ClientLoop\<close>: how a stream is cut into requests, and that every client is let go;
    \<open>ServerProps\<close>: the end by a signal, and the invariant of all reachable states of the process.
  \<^item> \<open>KeyTool\<close>, \<open>KeyToolProps\<close>: the commands of the key tool, each against the device, and its exit status.
  \<^item> \<open>Sanitizer\<close>, \<open>LlmResponse\<close>: \<open>sanitizer.py\<close>; no line of the data leaves its place in the prompt or
    keeps a pattern, and the checked answer has the promised fields.
  \<^item> \<open>DbAccess\<close>, \<open>DbProps\<close>: \<open>db_access.py\<close>; text parameters stay inside their literals, rows are read
    back, and which fields the conversion to numbers spoils. \<open>Config\<close>: the settings.
  \<^item> \<open>AnomalyDetect\<close>, \<open>AnomalyProps\<close>, \<open>DetectorRun\<close>: \<open>anomaly_detect.py\<close>; what the three tests can and
    cannot report, the severities, and whole runs over a session table (a refinement).
  \<^item> \<open>Volume\<close>, \<open>VolumeProps\<close>: the encrypted volumes, against a state machine of the device.
  \<^item> \<open>CommandAnalysis\<close>, \<open>AnalysisProps\<close>: \<open>command_analysis.py\<close>; what is stored and what is left mounted.
    \<open>PromptFlow\<close>: a whole analysis sends the model nothing but safe prompts;
    \<open>AnswerFlow\<close>: it stores nothing but checked answers. \<open>Pipeline\<close>: what the detector stores is what the analysis reads and what \<open>list_pending\<close> prints.
  \<^item> \<open>ReportPdf\<close>, \<open>ReportProps\<close>: the report as the sequence of \<open>fpdf\<close> calls that draws it.
  \<^item> \<open>TestData\<close>, \<open>TestDataProps\<close>: the generators, and how their data meets the rest.

  \<^bold>\<open>Interfaces.\<close> \<open>text_codec\<close> (hexadecimal, base 64, SQL's \<open>hex\<close>), \<open>field_codec\<close> and \<open>two_fields\<close> (the
  length-prefixed fields of SSH), \<open>json_layout\<close> (both printers), \<open>packet_reader\<close> (the two copies of the
  reader of packets), \<open>device_request\<close> (the four requests of the bridge), \<open>marked_data\<close> (data between the
  marks of the prompt) and \<open>session_store\<close> (the session table) are locales, each interpreted on the model's definitions
  where these are given.

  \<^bold>\<open>Loops and fuel.\<close> Loops that may not end (\<open>client_loop\<close>, \<open>accept_loop\<close>, \<open>scan_header\<close>,
  \<open>keygen_wait\<close>, \<open>draw_wrapped\<close>) are \<open>partial_function (option)\<close>, and that they end is proved from what is
  assumed of the clock, the socket, the signal or the random numbers. The parser of JSON has fuel
  \<open>Suc (2 * length s)\<close>, which \<open>json_loads_total\<close> shows to be enough: for each character that is read
  there are at most two nested calls, one for a list or an object and one for a value in it.

  \<^bold>\<open>Threads.\<close> A turn of the accept loop or of one client's loop is one step of \<open>system_step\<close>. Turns of two
  clients share only the serial port, which each uses under the lock, so finer interleavings
  differ in the order of independent operations. A signal is taken to arrive while \<open>accept\<close> waits.

  \<^bold>\<open>Not modelled.\<close> \<open>argparse\<close> (the functions begin with the parsed arguments) and the messages that are
  printed on the way, with their failures (a closed output, characters it cannot encode);
  rounding and overflow of floats; the
  interpreter's limits on recursion and on the digits of an integer; the order in which a \<open>set\<close> is listed (a
  parameter); what \<open>fpdf\<close> draws. The C manager, the Go client, the C++ firmware and the build
  files are not Python: to the programs modelled here they are the writers of the database, the
  peer of the socket and the device at the port, and these are arbitrary in the model.
\<close>

end
